(* ===== verification/Prelude.thy ===== *)
theory Prelude
  imports Main "HOL-Library.Word"
begin

text \<open>
  Types and generic lemmas shared by all components.

  \<^item> \<open>uuid\<close>, \<open>int64\<close>, \<open>pgtime\<close> and \<open>nanos\<close> name the program's scalar types: a 16-byte
    \<open>pgtype.UUID\<close>, Go's \<open>int64\<close>, a PostgreSQL \<open>timestamptz\<close> (microseconds since the
    epoch) and a Go \<open>time.Time\<close> read as nanoseconds since the epoch.
  \<^item> \<open>update_where\<close> is SQL's \<open>UPDATE .. SET .. WHERE ..\<close> on a table kept as a list of rows;
    \<open>unique_on\<close> is a (partial) unique index.  Their lemmas carry the store proofs.
\<close>

named_theorems store_simps "definitions and frame facts of the SQL statements"
named_theorems wf_intros "preservation of the table invariant"

type_synonym uuid = "128 word"
type_synonym int64 = "64 word"
type_synonym pgtime = int
type_synonym nanos = int

subsection \<open>Updates of a table by a predicate\<close>

definition update_where :: "('a \<Rightarrow> bool) \<Rightarrow> ('a \<Rightarrow> 'a) \<Rightarrow> 'a list \<Rightarrow> 'a list" where
  "update_where P f xs = map (\<lambda>x. if P x then f x else x) xs"

lemma update_where_Nil [simp]: "update_where P f [] = []"
  by (simp add: update_where_def)

lemma update_where_Cons [simp]:
  "update_where P f (x # xs) = (if P x then f x else x) # update_where P f xs"
  by (simp add: update_where_def)

lemma length_update_where [simp]: "length (update_where P f xs) = length xs"
  by (simp add: update_where_def)

lemma set_update_where:
  "set (update_where P f xs) = (\<lambda>x. if P x then f x else x) ` set xs"
  by (simp add: update_where_def)

lemma update_where_mem:
  "y \<in> set (update_where P f xs) \<longleftrightarrow>
     (\<exists>x \<in> set xs. y = (if P x then f x else x))"
  by (auto simp: set_update_where)

lemma update_where_none:
  "(\<And>x. x \<in> set xs \<Longrightarrow> \<not> P x) \<Longrightarrow> update_where P f xs = xs"
  by (induction xs) auto

lemma map_update_where_key:
  "(\<And>x. x \<in> set xs \<Longrightarrow> P x \<Longrightarrow> key (f x) = key x) \<Longrightarrow>
     map key (update_where P f xs) = map key xs"
  by (induction xs) auto

lemma image_update_where:
  "(\<And>x. x \<in> set xs \<Longrightarrow> P x \<Longrightarrow> key (f x) = key x) \<Longrightarrow>
     key ` set (update_where P f xs) = key ` set xs"
  using map_update_where_key [of xs P key f] by (metis set_map)

lemma filter_update_where_length:
  "(\<And>x. x \<in> set xs \<Longrightarrow> P x \<Longrightarrow> Q (f x) = Q x) \<Longrightarrow>
     length (filter Q (update_where P f xs)) = length (filter Q xs)"
  by (induction xs) auto

lemma filter_update_where_length_le:
  "(\<And>x. x \<in> set xs \<Longrightarrow> P x \<Longrightarrow> Q (f x) \<Longrightarrow> Q x) \<Longrightarrow>
     length (filter Q (update_where P f xs)) \<le> length (filter Q xs)"
  by (induction xs) (auto intro: le_SucI)

lemma find_update_where:
  "(\<And>x. x \<in> set xs \<Longrightarrow> P x \<Longrightarrow> Q (f x) = Q x) \<Longrightarrow>
     List.find Q (update_where P f xs) =
       map_option (\<lambda>x. if P x then f x else x) (List.find Q xs)"
  by (induction xs) auto

subsection \<open>Unique indexes\<close>

definition unique_on :: "('a \<Rightarrow> 'k option) \<Rightarrow> 'a list \<Rightarrow> bool" where
  \<comment> \<open>rows whose key is \<open>None\<close> are not in the index\<close>
  "unique_on key xs = distinct (List.map_filter key xs)"

lemma map_filter_Cons [simp]:
  "List.map_filter f (x # xs) =
     (case f x of None \<Rightarrow> List.map_filter f xs | Some y \<Rightarrow> y # List.map_filter f xs)"
  by (simp add: List.map_filter_def split: option.splits)

lemma map_filter_Nil [simp]: "List.map_filter f [] = []"
  by (simp add: List.map_filter_def)

lemma map_filter_append [simp]:
  "List.map_filter f (xs @ ys) = List.map_filter f xs @ List.map_filter f ys"
  by (induction xs) (auto split: option.splits)

lemma set_map_filter_Some:
  "k \<in> set (List.map_filter f xs) \<longleftrightarrow> (\<exists>x \<in> set xs. f x = Some k)"
  by (induction xs) (auto split: option.splits)

lemma map_filter_update_where:
  "(\<And>x. x \<in> set xs \<Longrightarrow> P x \<Longrightarrow> key (f x) = key x) \<Longrightarrow>
     List.map_filter key (update_where P f xs) = List.map_filter key xs"
  by (induction xs) (auto split: option.splits)

lemma unique_on_update_where:
  "unique_on key xs \<Longrightarrow> (\<And>x. x \<in> set xs \<Longrightarrow> P x \<Longrightarrow> key (f x) = key x) \<Longrightarrow>
     unique_on key (update_where P f xs)"
  unfolding unique_on_def
  using map_filter_update_where [of xs P key f] by (simp only:)

lemma unique_on_snoc:
  "unique_on key (xs @ [x]) \<longleftrightarrow>
     unique_on key xs \<and> (\<forall>k. key x = Some k \<longrightarrow> (\<forall>y \<in> set xs. key y \<noteq> Some k))"
  by (auto simp: unique_on_def set_map_filter_Some split: option.splits)

lemma unique_onD:
  "unique_on key xs \<Longrightarrow> x \<in> set xs \<Longrightarrow> y \<in> set xs \<Longrightarrow> key x = Some k \<Longrightarrow> key y = Some k \<Longrightarrow> x = y"
proof (induction xs)
  case Nil
  then show ?case by simp
next
  case (Cons a xs)
  have tail: "unique_on key xs"
    using Cons.prems(1) by (auto simp: unique_on_def split: option.splits)
  have fresh: "\<And>z. z \<in> set xs \<Longrightarrow> key a = Some k \<Longrightarrow> key z \<noteq> Some k"
    using Cons.prems(1) by (auto simp: unique_on_def set_map_filter_Some)
  show ?case
    using Cons.prems(2-5) Cons.IH [OF tail] fresh by auto
qed

lemma unique_find:
  assumes "unique_on key xs" and "x \<in> set xs" and "key x = Some k"
  shows "List.find (\<lambda>y. key y = Some k) xs = Some x"
proof -
  obtain y where y: "List.find (\<lambda>y. key y = Some k) xs = Some y"
    using assms(2,3) by (cases "List.find (\<lambda>y. key y = Some k) xs") (auto simp: find_None_iff)
  then have "y \<in> set xs" and "key y = Some k"
    by (auto simp: find_Some_iff)
  then have "y = x"
    using assms by (auto dest: unique_onD)
  with y show ?thesis by simp
qed

subsection \<open>Searching and sorting\<close>

lemma find_SomeD: "List.find P xs = Some x \<Longrightarrow> x \<in> set xs \<and> P x"
  by (auto simp: find_Some_iff)

lemma find_NoneD: "List.find P xs = None \<Longrightarrow> y \<in> set xs \<Longrightarrow> \<not> P y"
  by (auto simp: find_None_iff)

lemma find_snoc:
  "List.find P (xs @ [x]) =
     (case List.find P xs of Some y \<Rightarrow> Some y | None \<Rightarrow> if P x then Some x else None)"
  by (induction xs) auto

lemma sort_key_Nil_iff [simp]: "sort_key k xs = [] \<longleftrightarrow> xs = []"
proof -
  have "length (sort_key k xs) = length xs" by (rule length_sort)
  then show ?thesis by (cases xs; cases "sort_key k xs") simp_all
qed

lemma sort_key_hd_least:
  "sort_key k xs = y # ys \<Longrightarrow> x \<in> set xs \<Longrightarrow> k y \<le> k x"
proof -
  assume s: "sort_key k xs = y # ys" and x: "x \<in> set xs"
  have "sorted (map k (y # ys))" using sorted_sort_key [of k xs] by (simp only: s)
  moreover have "x \<in> set (y # ys)" using x set_sort [of k xs] by (simp only: s)
  ultimately show "k y \<le> k x" by auto
qed

lemma sort_key_hd_mem: "sort_key k xs = y # ys \<Longrightarrow> y \<in> set xs"
  by (metis list.set_intros(1) set_sort)

end
