(* ===== verification/JobStatus.thy ===== *)
theory JobStatus
  imports Prelude
begin

text \<open>
  The job status: \<^verbatim>\<open>shared/go/store/types.go\<close>.

  \<open>job_status\<close> has one constructor per constant of \<open>JobStatus\<close>; the table's CHECK constraint
  keeps every stored status among them, and \<open>status_string\<close> / \<open>job_status_of_string\<close> are the
  conversions to and from the text the column and the JSON bodies hold (\<open>None\<close> for a text the
  CHECK constraint refuses).

  The type is made a partial order, \<open>s \<le> t\<close> when a job in status \<open>s\<close> can still come to be in
  status \<open>t\<close>: queued below running below the four terminal statuses, which are maximal and
  incomparable.  "A job never goes back" is then monotonicity.
\<close>

datatype job_status = Queued | Running | Succeeded | Failed | Cancelled | Superseded

definition status_string :: "job_status \<Rightarrow> string" where
  "status_string s =
     (case s of
        Queued \<Rightarrow> ''queued''
      | Running \<Rightarrow> ''running''
      | Succeeded \<Rightarrow> ''succeeded''
      | Failed \<Rightarrow> ''failed''
      | Cancelled \<Rightarrow> ''cancelled''
      | Superseded \<Rightarrow> ''superseded'')"

definition job_status_of_string :: "string \<Rightarrow> job_status option" where
  "job_status_of_string t =
     (if t = ''queued'' then Some Queued
      else if t = ''running'' then Some Running
      else if t = ''succeeded'' then Some Succeeded
      else if t = ''failed'' then Some Failed
      else if t = ''cancelled'' then Some Cancelled
      else if t = ''superseded'' then Some Superseded
      else None)"

definition is_terminal :: "job_status \<Rightarrow> bool" where
  "is_terminal s =
     (case s of
        Succeeded \<Rightarrow> True
      | Failed \<Rightarrow> True
      | Cancelled \<Rightarrow> True
      | Superseded \<Rightarrow> True
      | _ \<Rightarrow> False)"

lemma job_status_of_status_string [simp]: "job_status_of_string (status_string s) = Some s"
  by (cases s) (simp_all add: status_string_def job_status_of_string_def)

lemma job_status_of_string_Some:
  "job_status_of_string t = Some s \<longleftrightarrow> t = status_string s"
proof
  show "job_status_of_string t = Some s \<Longrightarrow> t = status_string s"
    by (auto simp: job_status_of_string_def status_string_def split: if_splits)
qed simp

lemma is_terminal_simps [simp]:
  "\<not> is_terminal Queued" "\<not> is_terminal Running" "is_terminal Succeeded"
  "is_terminal Failed" "is_terminal Cancelled" "is_terminal Superseded"
  by (simp_all add: is_terminal_def)

lemma terminal_cases: "is_terminal s \<or> s = Queued \<or> s = Running"
  by (cases s) simp_all

lemma not_terminal_iff: "\<not> is_terminal s \<longleftrightarrow> s = Queued \<or> s = Running"
  by (cases s) simp_all

instantiation job_status :: order
begin

definition less_eq_job_status :: "job_status \<Rightarrow> job_status \<Rightarrow> bool" where
  "less_eq_job_status s t \<longleftrightarrow> s = t \<or> s = Queued \<or> s = Running \<and> is_terminal t"

definition less_job_status :: "job_status \<Rightarrow> job_status \<Rightarrow> bool" where
  "less_job_status s t \<longleftrightarrow> s \<le> t \<and> \<not> t \<le> (s :: job_status)"

instance
  by standard (auto simp: less_eq_job_status_def less_job_status_def)

end

lemma status_le_iff: "s \<le> t \<longleftrightarrow> s = t \<or> s = Queued \<or> s = Running \<and> is_terminal t"
  by (simp add: less_eq_job_status_def)

lemma terminal_maximal: "is_terminal s \<Longrightarrow> s \<le> t \<longleftrightarrow> t = s"
  by (auto simp: status_le_iff)

lemma status_le_simps [simp]:
  "Queued \<le> (t :: job_status)"
  "Running \<le> t \<longleftrightarrow> t = Running \<or> is_terminal t"
  by (auto simp: status_le_iff)

end
