(* ===== verification/Store.thy ===== *)
theory Store
  imports JobStatus
begin

text \<open>
  The relational store: the tables of
  \<^verbatim>\<open>api/internal/db/migrations/000001_initial.up.sql\<close>, the row types of
  \<^verbatim>\<open>shared/go/store/models.go\<close> and the SQL statements of \<^verbatim>\<open>shared/go/store/*.sql.go\<close>.

  A table is the list of its rows in insertion order, the database \<open>db\<close> the record of its
  four tables.  Each \<open>Queries\<close> method is the function computed by the SQL text it sends: it
  returns \<open>Inl\<close> of an error or \<open>Inr\<close> of its result (with the new database when it writes).
  A statement that fails leaves the database as it was.  \<open>now\<close> is SQL's \<open>now ()\<close>, the start
  time of the transaction; \<open>new_id\<close> is the value \<open>gen_random_uuid ()\<close> gives the new row.
  \<open>ORDER BY\<close> is a stable sort: rows with equal keys come in insertion order, which is one of
  the orders SQL allows.  The \<open>BEFORE UPDATE\<close> trigger on \<open>jobs\<close> is \<open>touch\<close>.

  Errors: \<open>NoRows\<close> is \<open>pgx.ErrNoRows\<close>, \<open>PgError c\<close> a \<open>*pgconn.PgError\<close> of code \<open>c\<close>, and
  \<open>OtherErr\<close> any other failure (connection, cancelled context, a text PostgreSQL does not store because it holds a
  zero byte or is not UTF-8, ...), which the handlers take as an argument.  The unique indexes and foreign keys are the
  server's work: the statements that can violate them have them as guards.
\<close>

subsection \<open>Rows, tables, errors\<close>

record organization =
  oid :: uuid
  oclerk_id :: string
  oslug :: string
  oname :: string
  ocreated :: pgtime

record repository =
  rid :: uuid
  rorg :: uuid
  rgithub_id :: int64
  rinstallation :: int64
  rfull_name :: string
  rdefault_branch :: string
  rinstalled :: pgtime

record job =
  jid :: uuid
  jrepo :: uuid
  jbranch :: string
  jcommit :: string
  jdelivery :: "string option"
  jstatus :: job_status
  jerror :: "string option"
  jcreated :: pgtime
  jupdated :: pgtime
  jstarted :: "pgtime option"
  jfinished :: "pgtime option"

record snapshot =
  sid :: uuid
  srepo :: uuid
  sjob :: uuid
  sbranch :: string
  scommit :: string
  sgcs_path :: string
  sversion :: int
  szigzag :: string
  ssize :: int64
  screated :: pgtime

record db =
  organizations :: "organization list"
  repositories :: "repository list"
  jobs :: "job list"
  snapshots :: "snapshot list"

definition empty_db :: db where
  "empty_db = \<lparr>organizations = [], repositories = [], jobs = [], snapshots = []\<rparr>"

datatype pg_error = NoRows | PgError string | OtherErr string

definition unique_violation :: string where
  "unique_violation = ''23505''"

definition foreign_key_violation :: string where
  "foreign_key_violation = ''23503''"

definition is_code :: "pg_error \<Rightarrow> string \<Rightarrow> bool" where
  "is_code err code = (case err of PgError c \<Rightarrow> c = code | _ \<Rightarrow> False)"

definition select_one :: "('a \<Rightarrow> bool) \<Rightarrow> 'a list \<Rightarrow> pg_error + 'a" where
  "select_one P rows = (case List.find P rows of None \<Rightarrow> Inl NoRows | Some r \<Rightarrow> Inr r)"

lemma select_one_Inr: "select_one P rows = Inr r \<Longrightarrow> r \<in> set rows \<and> P r"
  by (auto simp: select_one_def dest: find_SomeD split: option.splits)

lemma select_one_Inl: "select_one P rows = Inl e \<longleftrightarrow> e = NoRows \<and> (\<forall>r \<in> set rows. \<not> P r)"
  by (auto simp: select_one_def dest: find_SomeD find_NoneD split: option.splits)

subsection \<open>Jobs\<close>

definition touch :: "pgtime \<Rightarrow> job \<Rightarrow> job" where
  "touch now j = j\<lparr>jupdated := now\<rparr>"

definition update_jobs :: "pgtime \<Rightarrow> (job \<Rightarrow> bool) \<Rightarrow> (job \<Rightarrow> job) \<Rightarrow> db \<Rightarrow> db" where
  "update_jobs now P f d = d\<lparr>jobs := update_where P (\<lambda>j. touch now (f j)) (jobs d)\<rparr>"

definition get_job_by_id :: "uuid \<Rightarrow> db \<Rightarrow> pg_error + job" where
  "get_job_by_id i d = select_one (\<lambda>j. jid j = i) (jobs d)"

definition get_job_for_update :: "uuid \<Rightarrow> db \<Rightarrow> pg_error + job" where
  \<comment> \<open>the row lock of \<open>FOR UPDATE\<close> is held until the transaction ends\<close>
  "get_job_for_update i d = select_one (\<lambda>j. jid j = i) (jobs d)"

definition get_active_jobs_for_branch :: "uuid \<Rightarrow> string \<Rightarrow> db \<Rightarrow> job list" where
  "get_active_jobs_for_branch repo branch d =
     sort_key jcreated
       (filter (\<lambda>j. jrepo j = repo \<and> jbranch j = branch \<and> (jstatus j = Queued \<or> jstatus j = Running))
          (jobs d))"

definition list_jobs_by_repo :: "uuid \<Rightarrow> pgtime \<Rightarrow> int \<Rightarrow> db \<Rightarrow> job list" where
  "list_jobs_by_repo repo before limit d =
     take (nat limit)
       (sort_key (\<lambda>j. - jcreated j) (filter (\<lambda>j. jrepo j = repo \<and> jcreated j < before) (jobs d)))"

definition claim_job :: "pgtime \<Rightarrow> uuid set \<Rightarrow> db \<Rightarrow> pg_error + (job \<times> db)" where
  \<comment> \<open>\<open>locked\<close>: the rows other transactions hold locked, which \<open>SKIP LOCKED\<close> passes over\<close>
  "claim_job now locked d =
     (case sort_key jcreated (filter (\<lambda>j. jstatus j = Queued \<and> jid j \<notin> locked) (jobs d)) of
        [] \<Rightarrow> Inl NoRows
      | j # _ \<Rightarrow>
          let f = (\<lambda>j. j\<lparr>jstatus := Running, jstarted := Some now\<rparr>)
          in Inr (touch now (f j), update_jobs now (\<lambda>x. jid x = jid j) f d))"

definition create_job ::
  "pgtime \<Rightarrow> uuid \<Rightarrow> uuid \<Rightarrow> string \<Rightarrow> string \<Rightarrow> string \<Rightarrow> db \<Rightarrow> pg_error + (job \<times> db)" where
  "create_job now new_id repo branch commit delivery d =
     (let del = (if delivery = [] then None else Some delivery);
          j = \<lparr>jid = new_id, jrepo = repo, jbranch = branch, jcommit = commit, jdelivery = del,
               jstatus = Queued, jerror = None, jcreated = now, jupdated = now,
               jstarted = None, jfinished = None\<rparr>
      in if (\<exists>x \<in> set (jobs d). jid x = new_id) then Inl (PgError unique_violation)
         else if del \<noteq> None \<and> (\<exists>x \<in> set (jobs d). jdelivery x = del)
           then Inl (PgError unique_violation)
         else if \<not> (\<exists>r \<in> set (repositories d). rid r = repo)
           then Inl (PgError foreign_key_violation)
         else Inr (j, d\<lparr>jobs := jobs d @ [j]\<rparr>))"

record repo_for_job_row =
  rj_id :: uuid
  rj_github_id :: int64
  rj_installation :: int64
  rj_full_name :: string
  rj_default_branch :: string

definition get_repo_for_job :: "uuid \<Rightarrow> db \<Rightarrow> pg_error + repo_for_job_row" where
  "get_repo_for_job i d =
     (case [r. r \<leftarrow> repositories d, j \<leftarrow> jobs d, jrepo j = rid r \<and> jid j = i] of
        [] \<Rightarrow> Inl NoRows
      | r # _ \<Rightarrow> Inr \<lparr>rj_id = rid r, rj_github_id = rgithub_id r, rj_installation = rinstallation r,
                     rj_full_name = rfull_name r, rj_default_branch = rdefault_branch r\<rparr>)"

definition mark_job_superseded :: "pgtime \<Rightarrow> uuid \<Rightarrow> db \<Rightarrow> db" where
  "mark_job_superseded now i d =
     update_jobs now (\<lambda>j. jid j = i \<and> jstatus j = Queued) (\<lambda>j. j\<lparr>jstatus := Superseded\<rparr>) d"

definition overdue :: "pgtime \<Rightarrow> int \<Rightarrow> job \<Rightarrow> bool" where
  \<comment> \<open>\<open>started_at < now () - make_interval (mins => m)\<close>; false when \<open>started_at\<close> is NULL\<close>
  "overdue now mins j \<longleftrightarrow>
     jstatus j = Running \<and>
     (case jstarted j of None \<Rightarrow> False | Some t \<Rightarrow> t < now - mins * 60 * 1000000)"

definition timeout_running_jobs :: "pgtime \<Rightarrow> int \<Rightarrow> db \<Rightarrow> int \<times> db" where
  "timeout_running_jobs now mins d =
     (int (length (filter (overdue now mins) (jobs d))),
      update_jobs now (overdue now mins)
        (\<lambda>j. j\<lparr>jstatus := Failed, jerror := Some ''Job timed out'', jfinished := Some now\<rparr>) d)"

definition update_job_commit_sha :: "pgtime \<Rightarrow> uuid \<Rightarrow> string \<Rightarrow> db \<Rightarrow> db" where
  "update_job_commit_sha now i commit d =
     update_jobs now (\<lambda>j. jid j = i \<and> jstatus j = Queued) (\<lambda>j. j\<lparr>jcommit := commit\<rparr>) d"

definition update_job_status ::
  "pgtime \<Rightarrow> uuid \<Rightarrow> job_status \<Rightarrow> string option \<Rightarrow> db \<Rightarrow> db" where
  "update_job_status now i st msg d =
     update_jobs now (\<lambda>j. jid j = i)
       (\<lambda>j. j\<lparr>jstatus := st, jerror := msg,
              jstarted := (if st = Running then Some now else jstarted j),
              jfinished := (if st = Succeeded \<or> st = Failed \<or> st = Cancelled \<or> st = Superseded
                            then Some now else jfinished j)\<rparr>) d"

subsection \<open>Snapshots\<close>

definition insert_snapshot ::
  "pgtime \<Rightarrow> uuid \<Rightarrow> uuid \<Rightarrow> uuid \<Rightarrow> string \<Rightarrow> string \<Rightarrow> string \<Rightarrow> int \<Rightarrow> string \<Rightarrow> int64 \<Rightarrow> db
     \<Rightarrow> pg_error + (snapshot \<times> db)" where
  "insert_snapshot now new_id repo job_id branch commit path version zigzag size_bytes d =
     (let s = \<lparr>sid = new_id, srepo = repo, sjob = job_id, sbranch = branch, scommit = commit,
               sgcs_path = path, sversion = version, szigzag = zigzag, ssize = size_bytes,
               screated = now\<rparr>
      in if (\<exists>x \<in> set (snapshots d). sid x = new_id) then Inl (PgError unique_violation)
         else if (\<exists>x \<in> set (snapshots d). srepo x = repo \<and> sbranch x = branch \<and> scommit x = commit)
           then Inl (PgError unique_violation)
         else if \<not> (\<exists>r \<in> set (repositories d). rid r = repo)
           then Inl (PgError foreign_key_violation)
         else if \<not> (\<exists>j \<in> set (jobs d). jid j = job_id)
           then Inl (PgError foreign_key_violation)
         else Inr (s, d\<lparr>snapshots := snapshots d @ [s]\<rparr>))"

definition get_snapshots_by_branch :: "uuid \<Rightarrow> string \<Rightarrow> db \<Rightarrow> snapshot list" where
  "get_snapshots_by_branch repo branch d =
     sort_key (\<lambda>s. - screated s) (filter (\<lambda>s. srepo s = repo \<and> sbranch s = branch) (snapshots d))"

definition get_latest_snapshot :: "uuid \<Rightarrow> string \<Rightarrow> db \<Rightarrow> pg_error + snapshot" where
  "get_latest_snapshot repo branch d =
     (case sort_key (\<lambda>s. - screated s)
             (filter (\<lambda>s. srepo s = repo \<and> sbranch s = branch) (snapshots d)) of
        [] \<Rightarrow> Inl NoRows
      | s # _ \<Rightarrow> Inr s)"

definition get_snapshot_by_id :: "uuid \<Rightarrow> db \<Rightarrow> pg_error + snapshot" where
  "get_snapshot_by_id i d = select_one (\<lambda>s. sid s = i) (snapshots d)"

subsection \<open>Organizations and repositories\<close>

definition get_org_by_clerk_id :: "string \<Rightarrow> db \<Rightarrow> pg_error + organization" where
  "get_org_by_clerk_id c d = select_one (\<lambda>x. oclerk_id x = c) (organizations d)"

definition upsert_org ::
  "pgtime \<Rightarrow> uuid \<Rightarrow> string \<Rightarrow> string \<Rightarrow> string \<Rightarrow> db \<Rightarrow> pg_error + (organization \<times> db)" where
  "upsert_org now new_id clerk_id slug name d =
     (case List.find (\<lambda>x. oclerk_id x = clerk_id) (organizations d) of
        Some old \<Rightarrow>
          let f = (\<lambda>x. x\<lparr>oname := name\<rparr>)
          in Inr (f old, d\<lparr>organizations :=
                             update_where (\<lambda>x. oclerk_id x = clerk_id) f (organizations d)\<rparr>)
      | None \<Rightarrow>
          let n = \<lparr>oid = new_id, oclerk_id = clerk_id, oslug = slug, oname = name, ocreated = now\<rparr>
          in if (\<exists>x \<in> set (organizations d). oid x = new_id \<or> oslug x = slug)
             then Inl (PgError unique_violation)
             else Inr (n, d\<lparr>organizations := organizations d @ [n]\<rparr>))"

definition get_repo_by_github_id :: "int64 \<Rightarrow> db \<Rightarrow> pg_error + repository" where
  "get_repo_by_github_id g d = select_one (\<lambda>r. rgithub_id r = g) (repositories d)"

definition get_repo_by_id :: "uuid \<Rightarrow> db \<Rightarrow> pg_error + repository" where
  "get_repo_by_id i d = select_one (\<lambda>r. rid r = i) (repositories d)"

definition list_repos_by_org ::
  "(string \<Rightarrow> 'k::linorder) \<Rightarrow> uuid \<Rightarrow> string \<Rightarrow> int \<Rightarrow> db \<Rightarrow> repository list" where
  \<comment> \<open>\<open>collate\<close>: the sort key of the column's collation\<close>
  "list_repos_by_org collate org after limit d =
     take (nat limit)
       (sort_key (\<lambda>r. collate (rfull_name r))
          (filter (\<lambda>r. rorg r = org \<and> collate after < collate (rfull_name r)) (repositories d)))"

definition upsert_repo ::
  "pgtime \<Rightarrow> uuid \<Rightarrow> uuid \<Rightarrow> int64 \<Rightarrow> int64 \<Rightarrow> string \<Rightarrow> string \<Rightarrow> db
     \<Rightarrow> pg_error + (repository \<times> db)" where
  "upsert_repo now new_id org github_id installation full_name default_branch d =
     (case List.find (\<lambda>r. rgithub_id r = github_id) (repositories d) of
        Some old \<Rightarrow>
          let f = (\<lambda>r. r\<lparr>rinstallation := installation, rfull_name := full_name,
                         rdefault_branch := default_branch\<rparr>)
          in Inr (f old, d\<lparr>repositories :=
                             update_where (\<lambda>r. rgithub_id r = github_id) f (repositories d)\<rparr>)
      | None \<Rightarrow>
          let n = \<lparr>rid = new_id, rorg = org, rgithub_id = github_id, rinstallation = installation,
                   rfull_name = full_name, rdefault_branch = default_branch, rinstalled = now\<rparr>
          in if (\<exists>r \<in> set (repositories d). rid r = new_id)
             then Inl (PgError unique_violation)
             else if \<not> (\<exists>x \<in> set (organizations d). oid x = org)
             then Inl (PgError foreign_key_violation)
             else Inr (n, d\<lparr>repositories := repositories d @ [n]\<rparr>))"

end
