(* ===== verification/StoreInv.thy ===== *)
theory StoreInv
  imports Store
begin

text \<open>
  What the schema promises about the tables (\<open>wf_db\<close>: primary keys, unique indexes, foreign
  keys, and the timestamps that go with a status), the statements as a step relation
  (\<open>store_step\<close>), and the functional behaviour of the statements the job system uses.

  The locale \<open>job_claims\<close> is the interface \<open>JobClaimer\<close> of the poller with the laws its
  \<open>ClaimJob\<close> has to obey; it is interpreted on the statements of \<open>Store\<close>.
\<close>

subsection \<open>The table invariant\<close>

definition job_times_ok :: "job \<Rightarrow> bool" where
  "job_times_ok j \<longleftrightarrow>
     (jstatus j = Running \<longrightarrow> jstarted j \<noteq> None) \<and>
     (jstatus j = Succeeded \<or> jstatus j = Failed \<longrightarrow> jfinished j \<noteq> None)"

definition wf_orgs :: "db \<Rightarrow> bool" where
  "wf_orgs d \<longleftrightarrow>
     unique_on (\<lambda>x. Some (oid x)) (organizations d) \<and>
     unique_on (\<lambda>x. Some (oclerk_id x)) (organizations d) \<and>
     unique_on (\<lambda>x. Some (oslug x)) (organizations d)"

definition wf_repos :: "db \<Rightarrow> bool" where
  "wf_repos d \<longleftrightarrow>
     unique_on (\<lambda>x. Some (rid x)) (repositories d) \<and>
     unique_on (\<lambda>x. Some (rgithub_id x)) (repositories d) \<and>
     rorg ` set (repositories d) \<subseteq> oid ` set (organizations d)"

definition wf_jobs :: "db \<Rightarrow> bool" where
  "wf_jobs d \<longleftrightarrow>
     unique_on (\<lambda>x. Some (jid x)) (jobs d) \<and>
     unique_on jdelivery (jobs d) \<and>
     jrepo ` set (jobs d) \<subseteq> rid ` set (repositories d) \<and>
     (\<forall>j \<in> set (jobs d). job_times_ok j)"

definition wf_snapshots :: "db \<Rightarrow> bool" where
  "wf_snapshots d \<longleftrightarrow>
     unique_on (\<lambda>x. Some (sid x)) (snapshots d) \<and>
     unique_on (\<lambda>x. Some (srepo x, sbranch x, scommit x)) (snapshots d) \<and>
     srepo ` set (snapshots d) \<subseteq> rid ` set (repositories d) \<and>
     sjob ` set (snapshots d) \<subseteq> jid ` set (jobs d)"

definition wf_db :: "db \<Rightarrow> bool" where
  "wf_db d \<longleftrightarrow> wf_orgs d \<and> wf_repos d \<and> wf_jobs d \<and> wf_snapshots d"

lemmas wf_defs = wf_db_def wf_orgs_def wf_repos_def wf_jobs_def wf_snapshots_def

lemma wf_empty_db: "wf_db empty_db"
  by (simp add: wf_defs empty_db_def unique_on_def)

lemma wf_jobs_ids: "wf_db d \<Longrightarrow> unique_on (\<lambda>x. Some (jid x)) (jobs d)"
  by (simp add: wf_defs)

lemma wf_job_unique:
  "wf_db d \<Longrightarrow> x \<in> set (jobs d) \<Longrightarrow> y \<in> set (jobs d) \<Longrightarrow> jid x = jid y \<Longrightarrow> x = y"
  using unique_onD [OF wf_jobs_ids, of d x y "jid y"] by simp

lemma wf_repo_unique:
  "wf_db d \<Longrightarrow> x \<in> set (repositories d) \<Longrightarrow> y \<in> set (repositories d) \<Longrightarrow> rid x = rid y \<Longrightarrow> x = y"
  using unique_onD [of "\<lambda>x. Some (rid x)" "repositories d" x y "rid y"] by (simp add: wf_defs)

lemma wf_get_job:
  assumes "wf_db d" and "j \<in> set (jobs d)"
  shows "select_one (\<lambda>x. jid x = jid j) (jobs d) = Inr j"
  using unique_find [OF wf_jobs_ids, of d j "jid j"] assms by (simp add: select_one_def)

lemma get_repo_for_job_wf:
  assumes "wf_db d" and "job \<in> set (jobs d)" and "repo \<in> set (repositories d)"
    and "rid repo = jrepo job"
  shows "get_repo_for_job (jid job) d =
     Inr \<lparr>rj_id = rid repo, rj_github_id = rgithub_id repo, rj_installation = rinstallation repo,
          rj_full_name = rfull_name repo, rj_default_branch = rdefault_branch repo\<rparr>"
proof -
  let ?rows = "[r. r \<leftarrow> repositories d, j \<leftarrow> jobs d, jrepo j = rid r \<and> jid j = jid job]"
  have all: "r = repo" if "r \<in> set ?rows" for r
  proof -
    from that obtain j where "j \<in> set (jobs d)" "jid j = jid job" "jrepo j = rid r"
      and r: "r \<in> set (repositories d)" by auto
    then have "rid r = rid repo" using wf_job_unique [OF assms(1) _ assms(2), of j] assms(4) by simp
    then show ?thesis by (rule wf_repo_unique [OF assms(1) r assms(3)])
  qed
  have "repo \<in> set ?rows" using assms(2-4) by auto
  then obtain r rs where "?rows = r # rs" by (cases ?rows) auto
  moreover from this have "r = repo" using all [of r] by simp
  ultimately show ?thesis by (simp add: get_repo_for_job_def)
qed

subsection \<open>Updates of jobs\<close>

lemma touch_simps [simp]:
  "jid (touch now j) = jid j" "jrepo (touch now j) = jrepo j" "jbranch (touch now j) = jbranch j"
  "jcommit (touch now j) = jcommit j" "jdelivery (touch now j) = jdelivery j"
  "jstatus (touch now j) = jstatus j" "jerror (touch now j) = jerror j"
  "jcreated (touch now j) = jcreated j" "jstarted (touch now j) = jstarted j"
  "jfinished (touch now j) = jfinished j" "jupdated (touch now j) = now"
  by (simp_all add: touch_def)

lemma update_jobs_frame [simp]:
  "organizations (update_jobs now P f d) = organizations d"
  "repositories (update_jobs now P f d) = repositories d"
  "snapshots (update_jobs now P f d) = snapshots d"
  "length (jobs (update_jobs now P f d)) = length (jobs d)"
  by (simp_all add: update_jobs_def)

lemma jobs_update_jobs:
  "set (jobs (update_jobs now P f d)) =
     (\<lambda>j. if P j then touch now (f j) else j) ` set (jobs d)"
  by (simp add: update_jobs_def set_update_where)

lemma update_jobs_none:
  "(\<And>j. j \<in> set (jobs d) \<Longrightarrow> \<not> P j) \<Longrightarrow> update_jobs now P f d = d"
  by (simp add: update_jobs_def update_where_none)

lemma wf_update_jobs [wf_intros]:
  assumes "wf_db d"
    and "\<And>j. P j \<Longrightarrow> jid (f j) = jid j \<and> jrepo (f j) = jrepo j \<and> jdelivery (f j) = jdelivery j"
    and "\<And>j. j \<in> set (jobs d) \<Longrightarrow> P j \<Longrightarrow> job_times_ok j \<Longrightarrow> job_times_ok (f j)"
  shows "wf_db (update_jobs now P f d)"
proof -
  have "jid ` set (jobs (update_jobs now P f d)) = jid ` set (jobs d)"
    and "jrepo ` set (jobs (update_jobs now P f d)) = jrepo ` set (jobs d)"
    using assms(2) by (simp_all add: update_jobs_def image_update_where)
  moreover have "unique_on (\<lambda>x. Some (jid x)) (jobs (update_jobs now P f d))"
    and "unique_on jdelivery (jobs (update_jobs now P f d))"
    using assms(1,2)
    by (auto simp: wf_defs update_jobs_def intro!: unique_on_update_where)
  moreover have "\<forall>j \<in> set (jobs (update_jobs now P f d)). job_times_ok j"
    using assms(1,3) by (auto simp: wf_defs jobs_update_jobs job_times_ok_def)
  ultimately show ?thesis
    using assms(1) by (simp add: wf_defs)
qed

lemma wf_mark_job_superseded [wf_intros]: "wf_db d \<Longrightarrow> wf_db (mark_job_superseded now i d)"
  unfolding mark_job_superseded_def
  by (rule wf_update_jobs) (auto simp: job_times_ok_def)

lemma wf_update_job_commit_sha [wf_intros]: "wf_db d \<Longrightarrow> wf_db (update_job_commit_sha now i c d)"
  unfolding update_job_commit_sha_def
  by (rule wf_update_jobs) (auto simp: job_times_ok_def)

lemma wf_update_job_status [wf_intros]: "wf_db d \<Longrightarrow> wf_db (update_job_status now i st msg d)"
  unfolding update_job_status_def
  by (rule wf_update_jobs) (auto simp: job_times_ok_def)

lemma wf_timeout_running_jobs [wf_intros]:
  "wf_db d \<Longrightarrow> wf_db (snd (timeout_running_jobs now mins d))"
  unfolding timeout_running_jobs_def snd_conv
  by (rule wf_update_jobs) (auto simp: job_times_ok_def)

lemma wf_claim_job [wf_intros]:
  assumes "wf_db d" and "claim_job now locked d = Inr (j, d')"
  shows "wf_db d'"
proof -
  have "\<exists>P. d' = update_jobs now P (\<lambda>j. j\<lparr>jstatus := Running, jstarted := Some now\<rparr>) d"
    using assms(2) by (auto simp: claim_job_def Let_def split: list.splits)
  then show ?thesis
    using assms(1) by (auto simp: job_times_ok_def intro!: wf_update_jobs)
qed

subsection \<open>Inserts\<close>

lemma create_job_Inr:
  "create_job now i r b c dl d = Inr (j, d') \<longleftrightarrow>
     j = \<lparr>jid = i, jrepo = r, jbranch = b, jcommit = c,
          jdelivery = (if dl = [] then None else Some dl), jstatus = Queued, jerror = None,
          jcreated = now, jupdated = now, jstarted = None, jfinished = None\<rparr> \<and>
     d' = d\<lparr>jobs := jobs d @ [j]\<rparr> \<and>
     (\<forall>x \<in> set (jobs d). jid x \<noteq> i) \<and>
     (dl \<noteq> [] \<longrightarrow> (\<forall>x \<in> set (jobs d). jdelivery x \<noteq> Some dl)) \<and>
     (\<exists>x \<in> set (repositories d). rid x = r)"
  by (auto simp: create_job_def Let_def split: if_splits)

lemma create_job_succeeds:
  assumes "\<forall>x \<in> set (jobs d). jid x \<noteq> i"
    and "dl \<noteq> [] \<longrightarrow> (\<forall>x \<in> set (jobs d). jdelivery x \<noteq> Some dl)"
    and "repo \<in> set (repositories d)"
  obtains j d' where "create_job now i (rid repo) b c dl d = Inr (j, d')"
  using assms by (simp only: create_job_Inr) blast

lemma wf_create_job [wf_intros]:
  "wf_db d \<Longrightarrow> create_job now i r b c dl d = Inr (j, d') \<Longrightarrow> wf_db d'"
  by (auto simp: create_job_Inr wf_defs unique_on_snoc job_times_ok_def split: if_splits)

lemma insert_snapshot_Inr:
  "insert_snapshot now i r jb b c p v z n d = Inr (s, d') \<longleftrightarrow>
     s = \<lparr>sid = i, srepo = r, sjob = jb, sbranch = b, scommit = c, sgcs_path = p, sversion = v,
          szigzag = z, ssize = n, screated = now\<rparr> \<and>
     d' = d\<lparr>snapshots := snapshots d @ [s]\<rparr> \<and>
     (\<forall>x \<in> set (snapshots d). sid x \<noteq> i) \<and>
     (\<forall>x \<in> set (snapshots d). \<not> (srepo x = r \<and> sbranch x = b \<and> scommit x = c)) \<and>
     (\<exists>x \<in> set (repositories d). rid x = r) \<and> (\<exists>x \<in> set (jobs d). jid x = jb)"
  by (auto simp: insert_snapshot_def Let_def split: if_splits)

lemma insert_snapshot_taken:
  "s \<in> set (snapshots d) \<Longrightarrow>
     insert_snapshot now i (srepo s) jb (sbranch s) (scommit s) p v z n d =
       Inl (PgError unique_violation)"
  by (auto simp: insert_snapshot_def Let_def)

lemma wf_insert_snapshot [wf_intros]:
  "wf_db d \<Longrightarrow> insert_snapshot now i r jb b c p v z n d = Inr (s, d') \<Longrightarrow> wf_db d'"
  by (auto simp: insert_snapshot_Inr wf_defs unique_on_snoc)

lemma wf_upsert_org [wf_intros]:
  assumes "wf_db d" and "upsert_org now i c sl n d = Inr (x, d')"
  shows "wf_db d'"
proof (cases "List.find (\<lambda>x. oclerk_id x = c) (organizations d)")
  case None
  note new = find_NoneD [OF None]
  from None assms(2)
  have "d' = d\<lparr>organizations := organizations d @
               [\<lparr>oid = i, oclerk_id = c, oslug = sl, oname = n, ocreated = now\<rparr>]\<rparr>"
    and "\<forall>x \<in> set (organizations d). oid x \<noteq> i \<and> oslug x \<noteq> sl"
    by (auto simp: upsert_org_def Let_def split: if_splits)
  then show ?thesis
    using assms(1) new by (auto simp: wf_defs unique_on_snoc)
next
  case (Some old)
  let ?upd = "update_where (\<lambda>x. oclerk_id x = c) (\<lambda>x. x\<lparr>oname := n\<rparr>) (organizations d)"
  have d': "d' = d\<lparr>organizations := ?upd\<rparr>"
    using assms(2) Some by (simp add: upsert_org_def Let_def)
  have "oid ` set ?upd = oid ` set (organizations d)"
    by (simp add: image_update_where)
  then show ?thesis
    using assms(1) by (auto simp: d' wf_defs intro!: unique_on_update_where)
qed

lemma wf_upsert_repo [wf_intros]:
  assumes "wf_db d" and "upsert_repo now i g gh inst fn br d = Inr (x, d')"
  shows "wf_db d'"
proof (cases "List.find (\<lambda>r. rgithub_id r = gh) (repositories d)")
  case None
  note new = find_NoneD [OF None]
  from None assms(2)
  have "d' = d\<lparr>repositories := repositories d @
               [\<lparr>rid = i, rorg = g, rgithub_id = gh, rinstallation = inst, rfull_name = fn,
                 rdefault_branch = br, rinstalled = now\<rparr>]\<rparr>"
    and "\<forall>r \<in> set (repositories d). rid r \<noteq> i"
    and "\<exists>x \<in> set (organizations d). oid x = g"
    by (auto simp: upsert_repo_def Let_def split: if_splits)
  then show ?thesis
    using assms(1) new by (auto simp: wf_defs unique_on_snoc)
next
  case (Some old)
  let ?upd = "update_where (\<lambda>r. rgithub_id r = gh)
     (\<lambda>r. r\<lparr>rinstallation := inst, rfull_name := fn, rdefault_branch := br\<rparr>) (repositories d)"
  have d': "d' = d\<lparr>repositories := ?upd\<rparr>"
    using assms(2) Some by (simp add: upsert_repo_def Let_def)
  have "rid ` set ?upd = rid ` set (repositories d)"
    and "rorg ` set ?upd = rorg ` set (repositories d)"
    by (simp_all add: image_update_where)
  then show ?thesis
    using assms(1) by (auto simp: d' wf_defs intro!: unique_on_update_where)
qed

subsection \<open>The statements as a step relation\<close>

inductive store_step :: "db \<Rightarrow> db \<Rightarrow> bool" where
  ss_create: "create_job now i r b c dl d = Inr (j, d') \<Longrightarrow> store_step d d'"
| ss_claim: "claim_job now locked d = Inr (j, d') \<Longrightarrow> store_step d d'"
| ss_status: "store_step d (update_job_status now i st msg d)"
| ss_commit_sha: "store_step d (update_job_commit_sha now i c d)"
| ss_superseded: "store_step d (mark_job_superseded now i d)"
| ss_timeout: "store_step d (snd (timeout_running_jobs now mins d))"
| ss_snapshot: "insert_snapshot now i r jb b c p v z n d = Inr (s, d') \<Longrightarrow> store_step d d'"
| ss_org: "upsert_org now i c sl n d = Inr (x, d') \<Longrightarrow> store_step d d'"
| ss_repo: "upsert_repo now i g gh inst fn br d = Inr (y, d') \<Longrightarrow> store_step d d'"

inductive store_reachable :: "db \<Rightarrow> bool" where
  sr_empty: "store_reachable empty_db"
| sr_step: "store_reachable d \<Longrightarrow> store_step d d' \<Longrightarrow> store_reachable d'"

lemma store_step_wf: "store_step d d' \<Longrightarrow> wf_db d \<Longrightarrow> wf_db d'"
  by (induction rule: store_step.induct) (auto intro: wf_intros)

lemma store_reachable_wf: "store_reachable d \<Longrightarrow> wf_db d"
  by (induction rule: store_reachable.induct) (auto intro: wf_empty_db store_step_wf)

subsection \<open>Claiming a job\<close>

definition claimed :: "pgtime \<Rightarrow> job \<Rightarrow> job" where
  "claimed now j = touch now (j\<lparr>jstatus := Running, jstarted := Some now\<rparr>)"

lemma claimed_simps [simp]:
  "jid (claimed now j) = jid j" "jrepo (claimed now j) = jrepo j"
  "jbranch (claimed now j) = jbranch j" "jcommit (claimed now j) = jcommit j"
  "jstatus (claimed now j) = Running" "jcreated (claimed now j) = jcreated j"
  "jstarted (claimed now j) = Some now" "jdelivery (claimed now j) = jdelivery j"
  by (simp_all add: claimed_def)

lemma claim_job_Inl:
  "claim_job now locked d = Inl e \<longleftrightarrow>
     e = NoRows \<and> (\<forall>j \<in> set (jobs d). jstatus j = Queued \<longrightarrow> jid j \<in> locked)"
proof -
  let ?q = "filter (\<lambda>j. jstatus j = Queued \<and> jid j \<notin> locked) (jobs d)"
  have "claim_job now locked d = Inl e \<longleftrightarrow> e = NoRows \<and> sort_key jcreated ?q = []"
    by (auto simp: claim_job_def Let_def split: list.splits)
  then show ?thesis by (auto simp: filter_empty_conv)
qed

lemma claim_job_available:
  assumes "x \<in> set (jobs d)" and "jstatus x = Queued" and "jid x \<notin> locked"
  obtains j d' where "claim_job now locked d = Inr (j, d')"
  using assms claim_job_Inl [of now locked d] by (cases "claim_job now locked d") auto

lemma claim_job_InrE:
  assumes "claim_job now locked d = Inr (j, d')"
  obtains j0 where "j0 \<in> set (jobs d)" and "jstatus j0 = Queued" and "jid j0 \<notin> locked"
    and "\<And>x. x \<in> set (jobs d) \<Longrightarrow> jstatus x = Queued \<Longrightarrow> jid x \<notin> locked \<Longrightarrow> jcreated j0 \<le> jcreated x"
    and "j = claimed now j0"
    and "d' = d\<lparr>jobs := update_where (\<lambda>x. jid x = jid j0) (claimed now) (jobs d)\<rparr>"
proof -
  let ?q = "filter (\<lambda>j. jstatus j = Queued \<and> jid j \<notin> locked) (jobs d)"
  obtain j0 rest where s: "sort_key jcreated ?q = j0 # rest"
    using assms by (auto simp: claim_job_def split: list.splits)
  have "j0 \<in> set ?q" using s by (rule sort_key_hd_mem)
  moreover have "\<And>x. x \<in> set ?q \<Longrightarrow> jcreated j0 \<le> jcreated x"
    using s by (rule sort_key_hd_least)
  moreover have "j = claimed now j0"
    and "d' = d\<lparr>jobs := update_where (\<lambda>x. jid x = jid j0) (claimed now) (jobs d)\<rparr>"
    using assms s by (auto simp: claim_job_def update_jobs_def claimed_def [abs_def])
  ultimately show ?thesis using that by auto
qed

lemma update_by_id:
  assumes "wf_db d" and "j0 \<in> set (jobs d)"
  shows "update_where (\<lambda>x. jid x = jid j0) f (jobs d) =
           map (\<lambda>x. if jid x = jid j0 then f j0 else x) (jobs d)"
  unfolding update_where_def using wf_job_unique [OF assms(1) _ assms(2)] by auto

text \<open>
  The interface \<open>JobClaimer\<close>: what the poller relies on when it claims.  \<open>rows\<close> is the list of
  jobs a store holds, \<open>avail\<close> says that no other transaction holds the row.
\<close>

locale job_claims =
  fixes claim :: "'d \<Rightarrow> pg_error + (job \<times> 'd)"
    and rows :: "'d \<Rightarrow> job list"
    and inv :: "'d \<Rightarrow> bool"
    and avail :: "job \<Rightarrow> bool"
  assumes claim_inv: "inv d \<Longrightarrow> claim d = Inr (j, d') \<Longrightarrow> inv d'"
    and claim_rows:
      "inv d \<Longrightarrow> claim d = Inr (j, d') \<Longrightarrow>
         rows d' = map (\<lambda>x. if jid x = jid j then j else x) (rows d)"
    and claim_queued:
      "inv d \<Longrightarrow> claim d = Inr (j, d') \<Longrightarrow>
         \<exists>j0 \<in> set (rows d). jid j0 = jid j \<and> jstatus j0 = Queued \<and> avail j0"
    and claim_running: "inv d \<Longrightarrow> claim d = Inr (j, d') \<Longrightarrow> jstatus j = Running"
    and claim_none:
      "inv d \<Longrightarrow> claim d = Inl e \<Longrightarrow> e = NoRows \<and> (\<forall>j \<in> set (rows d). jstatus j = Queued \<longrightarrow> \<not> avail j)"
    and rows_unique: "inv d \<Longrightarrow> x \<in> set (rows d) \<Longrightarrow> y \<in> set (rows d) \<Longrightarrow> jid x = jid y \<Longrightarrow> x = y"
begin

lemma claimed_not_queued:
  assumes "inv d" and "claim d = Inr (j, d')" and "x \<in> set (rows d')" and "jid x = jid j"
  shows "jstatus x = Running"
  using assms(3,4) claim_running [OF assms(1,2)] by (auto simp: claim_rows [OF assms(1,2)] split: if_splits)

lemma claims_differ:
  \<comment> \<open>two claims in a row never return the same job\<close>
  assumes "inv d" and "claim d = Inr (j, d')" and "claim d' = Inr (k, d'')"
  shows "jid j \<noteq> jid k"
proof
  assume same: "jid j = jid k"
  obtain k0 where "k0 \<in> set (rows d')" and "jid k0 = jid k" and "jstatus k0 = Queued"
    using claim_queued [OF claim_inv [OF assms(1,2)] assms(3)] by blast
  then show False using claimed_not_queued [OF assms(1,2), of k0] same by simp
qed

lemma queued_after_claim:
  \<comment> \<open>a claim takes exactly its own job out of the queue\<close>
  assumes "inv d" and "claim d = Inr (j, d')"
  shows "{jid x | x. x \<in> set (rows d') \<and> jstatus x = Queued} =
           {jid x | x. x \<in> set (rows d) \<and> jstatus x = Queued} - {jid j}"
  using claim_running [OF assms] by (auto simp: claim_rows [OF assms] split: if_splits)

end

interpretation store_claims:
  job_claims "claim_job now locked" jobs wf_db "\<lambda>j. jid j \<notin> locked" for now locked
proof unfold_locales
  fix d d' :: db and j x y :: job and e
  assume wf: "wf_db d"
  show "x = y" if "x \<in> set (jobs d)" "y \<in> set (jobs d)" "jid x = jid y"
    using wf_job_unique [OF wf that] .
  show "e = NoRows \<and> (\<forall>j \<in> set (jobs d). jstatus j = Queued \<longrightarrow> \<not> jid j \<notin> locked)"
    if "claim_job now locked d = Inl e"
    using that by (simp add: claim_job_Inl)
  assume c: "claim_job now locked d = Inr (j, d')"
  then show "wf_db d'" by (rule wf_claim_job [OF wf])
  from c obtain j0 where j0: "j0 \<in> set (jobs d)" "jstatus j0 = Queued" "jid j0 \<notin> locked"
    and j: "j = claimed now j0"
    and d': "d' = d\<lparr>jobs := update_where (\<lambda>x. jid x = jid j0) (claimed now) (jobs d)\<rparr>"
    by (rule claim_job_InrE)
  show "jobs d' = map (\<lambda>x. if jid x = jid j then j else x) (jobs d)"
    using update_by_id [OF wf j0(1), of "claimed now"] by (simp add: d' j)
  show "\<exists>j0 \<in> set (jobs d). jid j0 = jid j \<and> jstatus j0 = Queued \<and> jid j0 \<notin> locked"
    using j0 j by auto
  show "jstatus j = Running" by (simp add: j)
qed

subsection \<open>The watchdog's statement\<close>

lemma timeout_status:
  "snd (timeout_running_jobs now mins d) =
     d\<lparr>jobs := map (\<lambda>j. if overdue now mins j
                      then touch now (j\<lparr>jstatus := Failed, jerror := Some ''Job timed out'',
                                        jfinished := Some now\<rparr>)
                      else j) (jobs d)\<rparr>"
  by (simp add: timeout_running_jobs_def update_jobs_def update_where_def)

end
