(* ===== verification/Tx.thy ===== *)
theory Tx
  imports StoreInv
begin

text \<open>
  Transactions and faults, shared by the handlers that talk to the database.

  A handler runs its statements on a private copy of the database; \<open>commit_tx\<close> makes the copy
  the new database, and every early return drops it (the deferred \<open>tx.Rollback\<close>).  Each call to
  the database may fail for a reason outside the program: an argument of the handler's model
  names, for every call, the failure that happens there (\<open>None\<close>: it does not fail).  A commit
  can also fail after the server has applied it, when only the answer is lost (\<open>CommitLost\<close>).
\<close>

datatype commit_outcome = Committed | CommitFailed string | CommitLost string

definition commit_tx :: "commit_outcome \<Rightarrow> db \<Rightarrow> db \<Rightarrow> string option \<times> db" where
  "commit_tx c before after =
     (case c of
        Committed \<Rightarrow> (None, after)
      | CommitFailed m \<Rightarrow> (Some m, before)
      | CommitLost m \<Rightarrow> (Some m, after))"

definition with_fault :: "string option \<Rightarrow> pg_error + 'a \<Rightarrow> pg_error + 'a" where
  "with_fault f r = (case f of None \<Rightarrow> r | Some m \<Rightarrow> Inl (OtherErr m))"

lemma with_fault_None [simp]: "with_fault None r = r"
  by (simp add: with_fault_def)

lemma with_fault_Inr: "with_fault f r = Inr x \<longleftrightarrow> f = None \<and> r = Inr x"
  by (simp add: with_fault_def split: option.splits)

lemma with_fault_Inl:
  "with_fault f r = Inl e \<longleftrightarrow> (f = None \<and> r = Inl e) \<or> (\<exists>m. f = Some m \<and> e = OtherErr m)"
  by (auto simp: with_fault_def split: option.splits)

lemma commit_tx_simps [simp]:
  "commit_tx Committed a b = (None, b)"
  "commit_tx (CommitFailed m) a b = (Some m, a)"
  "commit_tx (CommitLost m) a b = (Some m, b)"
  by (simp_all add: commit_tx_def)

lemma commit_tx_db: "snd (commit_tx c a b) = a \<or> snd (commit_tx c a b) = b"
  by (cases c) simp_all

lemma commit_tx_None: "commit_tx c a b = (None, d) \<longleftrightarrow> c = Committed \<and> d = b"
  by (cases c) auto

lemma commit_tx_cases:
  obtains (ok) "c = Committed" and "commit_tx c a b = (None, b)"
  | (failed) m where "c = CommitFailed m" and "commit_tx c a b = (Some m, a)"
  | (lost) m where "c = CommitLost m" and "commit_tx c a b = (Some m, b)"
  by (cases c) auto

subsection \<open>Queued jobs of a branch\<close>

text \<open>
  The job system's own view of the jobs table: what waits to be built on each branch.
\<close>

definition queued_on :: "uuid \<Rightarrow> string \<Rightarrow> job \<Rightarrow> bool" where
  "queued_on r b j \<longleftrightarrow> jrepo j = r \<and> jbranch j = b \<and> jstatus j = Queued"

definition one_queued :: "db \<Rightarrow> bool" where
  "one_queued d \<longleftrightarrow> (\<forall>r b. length (filter (queued_on r b) (jobs d)) \<le> 1)"

definition pending :: "db \<Rightarrow> uuid \<times> string \<Rightarrow> string option" where
  "pending d = (\<lambda>(r, b). map_option jcommit (List.find (queued_on r b) (jobs d)))"

lemma one_queuedD:
  assumes "one_queued d" and "x \<in> set (jobs d)" and "y \<in> set (jobs d)"
    and "queued_on r b x" and "queued_on r b y"
  shows "x = y"
proof -
  have "length (filter (queued_on r b) (jobs d)) \<le> 1"
    using assms(1) by (simp add: one_queued_def)
  moreover have "x \<in> set (filter (queued_on r b) (jobs d))" "y \<in> set (filter (queued_on r b) (jobs d))"
    using assms by simp_all
  ultimately show ?thesis
    by (cases "filter (queued_on r b) (jobs d)" rule: list.exhaust [case_names Nil Cons]) auto
qed

lemma one_queued_update_jobs:
  assumes "one_queued d"
    and "\<And>j. P j \<Longrightarrow> jrepo (f j) = jrepo j \<and> jbranch (f j) = jbranch j"
    and "\<And>j. j \<in> set (jobs d) \<Longrightarrow> P j \<Longrightarrow> jstatus (f j) = Queued \<Longrightarrow> jstatus j = Queued"
  shows "one_queued (update_jobs now P f d)"
  unfolding one_queued_def
proof (intro allI)
  fix r b
  have "length (filter (queued_on r b) (jobs (update_jobs now P f d)))
          \<le> length (filter (queued_on r b) (jobs d))"
    unfolding update_jobs_def using assms(2,3)
    by (auto simp: queued_on_def intro!: filter_update_where_length_le)
  also have "\<dots> \<le> 1" using assms(1) by (simp add: one_queued_def)
  finally show "length (filter (queued_on r b) (jobs (update_jobs now P f d))) \<le> 1" .
qed

lemma one_queued_jobs_cong: "jobs d' = jobs d \<Longrightarrow> one_queued d' = one_queued d"
  by (simp add: one_queued_def)

lemma one_queued_create:
  assumes "one_queued d" and "create_job now i r b c dl d = Inr (j, d')"
    and "\<And>x. x \<in> set (jobs d) \<Longrightarrow> \<not> queued_on r b x"
  shows "one_queued d'"
  using assms by (auto simp: create_job_Inr one_queued_def queued_on_def filter_empty_conv)

lemma find_queued_Some:
  assumes "one_queued d" and "j \<in> set (jobs d)" and "queued_on r b j"
  shows "List.find (queued_on r b) (jobs d) = Some j"
proof (cases "List.find (queued_on r b) (jobs d)")
  case None
  then show ?thesis using assms by (auto dest: find_NoneD)
next
  case (Some x)
  then show ?thesis using one_queuedD [OF assms(1) _ assms(2) _ assms(3), of x] by (auto dest: find_SomeD)
qed

lemma pending_None: "pending d (r, b) = None \<longleftrightarrow> (\<forall>j \<in> set (jobs d). \<not> queued_on r b j)"
  by (auto simp: pending_def find_None_iff)

lemma pending_Some:
  assumes "one_queued d"
  shows "pending d (r, b) = Some c \<longleftrightarrow> (\<exists>j \<in> set (jobs d). queued_on r b j \<and> jcommit j = c)"
  by (auto simp: pending_def find_queued_Some [OF assms] dest: find_SomeD)

lemma pending_commit_sha:
  assumes wf: "wf_db d" and one: "one_queued d" and j: "j \<in> set (jobs d)" "queued_on r b j"
  shows "pending (update_job_commit_sha now (jid j) c d) = (pending d)((r, b) \<mapsto> c)"
proof
  fix key :: "uuid \<times> string"
  obtain r' b' where key: "key = (r', b')" by (cases key)
  let ?P = "\<lambda>x. jid x = jid j \<and> jstatus x = Queued"
  let ?f = "\<lambda>x. touch now (x\<lparr>jcommit := c\<rparr>)"
  have find: "List.find (queued_on r' b') (jobs (update_job_commit_sha now (jid j) c d)) =
          map_option (\<lambda>x. if ?P x then ?f x else x) (List.find (queued_on r' b') (jobs d))"
    unfolding update_job_commit_sha_def update_jobs_def
    by (simp add: find_update_where queued_on_def)
  show "pending (update_job_commit_sha now (jid j) c d) key = ((pending d)((r, b) \<mapsto> c)) key"
  proof (cases "key = (r, b)")
    case True
    then show ?thesis
      using find find_queued_Some [OF one j] j(2) key by (simp add: pending_def queued_on_def)
  next
    case False
    have "\<not> ?P x" if "List.find (queued_on r' b') (jobs d) = Some x" for x
      using find_SomeD [OF that] wf_job_unique [OF wf _ j(1), of x] j(2) False key
      by (auto simp: queued_on_def)
    with find False show ?thesis
      by (cases "List.find (queued_on r' b') (jobs d)") (auto simp: pending_def key)
  qed
qed

lemma pending_create:
  assumes "create_job now i r b c dl d = Inr (j, d')"
    and "\<And>x. x \<in> set (jobs d) \<Longrightarrow> \<not> queued_on r b x"
  shows "pending d' = (pending d)((r, b) \<mapsto> c)"
proof
  fix key :: "uuid \<times> string"
  obtain r' b' where key: "key = (r', b')" by (cases key)
  have "List.find (queued_on r b) (jobs d) = None"
    using assms(2) by (auto simp: find_None_iff)
  then show "pending d' key = ((pending d)((r, b) \<mapsto> c)) key"
    using assms(1)
    by (auto simp: create_job_Inr pending_def key find_snoc queued_on_def split: option.splits)
qed

end
