(* ===== verification/GoStrings.thy ===== *)
theory GoStrings
  imports Prelude
begin

text \<open>
  The parts of Go's \<open>strings\<close>, \<open>strconv\<close> and \<open>encoding/hex\<close> packages the program uses.
  A Go string (and a \<open>[]byte\<close>) is a list of bytes, here HOL's \<open>string\<close>.

  \<^item> \<open>cut_prefix\<close>, \<open>trim_prefix\<close>, \<open>split_n2\<close>: \<open>strings.CutPrefix\<close>, \<open>strings.TrimPrefix\<close>,
    \<open>strings.SplitN (s, sep, 2)\<close> for a one-byte separator.
  \<^item> \<open>format_int64\<close>, \<open>parse_int64\<close>: \<open>fmt\<close>'s \<open>%d\<close> on an \<open>int64\<close> and
    \<open>strconv.ParseInt (s, 10, 64)\<close> (also \<open>strconv.Atoi\<close> on a 64-bit machine), with the
    optional sign, the syntax errors and the range errors.
  \<^item> \<open>hex_encode\<close>: \<open>hex.EncodeToString\<close>.

  The lemmas show that parsing inverts formatting on every \<open>int64\<close>, that formatted numbers
  and hex digests hold no separator, and that splitting at the first separator inverts
  joining.
\<close>

abbreviation byte :: "char \<Rightarrow> nat" where
  "byte c \<equiv> of_char c"

subsection \<open>Prefixes and splitting\<close>

fun cut_prefix :: "string \<Rightarrow> string \<Rightarrow> string \<times> bool" where
  "cut_prefix s pre =
     (if take (length pre) s = pre then (drop (length pre) s, True) else (s, False))"

definition trim_prefix :: "string \<Rightarrow> string \<Rightarrow> string" where
  "trim_prefix s pre = fst (cut_prefix s pre)"

lemma cut_prefix_append [simp]: "cut_prefix (pre @ s) pre = (s, True)"
  by simp

lemma cut_prefix_found: "cut_prefix s pre = (t, True) \<longleftrightarrow> s = pre @ t"
  by (auto simp del: append_take_drop_id split: if_splits)
     (metis append_take_drop_id)

lemma cut_prefix_not_found: "cut_prefix s pre = (t, False) \<longleftrightarrow> t = s \<and> (\<forall>r. s \<noteq> pre @ r)"
  by (auto split: if_splits) (metis append_take_drop_id)

lemma trim_prefix_append [simp]: "trim_prefix (pre @ s) pre = s"
  by (simp add: trim_prefix_def)

lemma trim_prefix_other: "(\<And>r. s \<noteq> pre @ r) \<Longrightarrow> trim_prefix s pre = s"
  by (simp add: trim_prefix_def) (metis append_take_drop_id)

fun split_n2 :: "char \<Rightarrow> string \<Rightarrow> string list" where
  "split_n2 c [] = [[]]"
| "split_n2 c (x # xs) =
     (if x = c then [[], xs]
      else case split_n2 c xs of
        [] \<Rightarrow> [[x]]
      | p # ps \<Rightarrow> (x # p) # ps)"

lemma split_n2_join: "c \<notin> set a \<Longrightarrow> split_n2 c (a @ c # b) = [a, b]"
  by (induction a) auto

lemma split_n2_none: "c \<notin> set a \<Longrightarrow> split_n2 c a = [a]"
  by (induction a) auto

lemma split_n2_two: "split_n2 c s = [a, b] \<longleftrightarrow> s = a @ c # b \<and> c \<notin> set a"
proof
  show "split_n2 c s = [a, b] \<Longrightarrow> s = a @ c # b \<and> c \<notin> set a"
    by (induction s arbitrary: a) (auto split: if_splits list.splits)
next
  assume "s = a @ c # b \<and> c \<notin> set a"
  then show "split_n2 c s = [a, b]" by (auto intro: split_n2_join)
qed

lemma split_n2_cases:
  obtains (one) "split_n2 c s = [s]" and "c \<notin> set s"
  | (two) a b where "split_n2 c s = [a, b]" and "s = a @ c # b" and "c \<notin> set a"
proof (cases "c \<in> set s")
  case True
  then obtain a b where "s = a @ c # b" and "c \<notin> set a"
    by (auto dest: split_list_first)
  then show ?thesis using split_n2_join two by blast
next
  case False
  then show ?thesis using split_n2_none one by blast
qed

lemma last_separator_inj:
  assumes "a @ c # x = b @ c # (y :: string)" and "c \<notin> set x" and "c \<notin> set y"
  shows "a = b \<and> x = y"
proof -
  have "rev x @ c # rev a = rev y @ c # rev b"
    using arg_cong [where f = rev, OF assms(1)] by simp
  then have "split_n2 c (rev x @ c # rev a) = split_n2 c (rev y @ c # rev b)" by (rule arg_cong)
  then show ?thesis using assms(2,3) by (simp add: split_n2_join)
qed

subsection \<open>Decimal numbers\<close>

definition digit_char :: "nat \<Rightarrow> char" where
  "digit_char n = char_of (48 + n)"

definition is_digit :: "char \<Rightarrow> bool" where
  "is_digit c \<longleftrightarrow> 48 \<le> (of_char c :: nat) \<and> (of_char c :: nat) \<le> 57"

definition digit_value :: "char \<Rightarrow> nat" where
  "digit_value c = of_char c - 48"

fun show_nat :: "nat \<Rightarrow> string" where
  "show_nat n =
     (if n < 10 then [digit_char n] else show_nat (n div 10) @ [digit_char (n mod 10)])"

declare show_nat.simps [simp del]

definition digits_value :: "string \<Rightarrow> nat" where
  "digits_value s = foldl (\<lambda>a c. 10 * a + digit_value c) 0 s"

definition parse_digits :: "string \<Rightarrow> nat option" where
  "parse_digits s = (if s \<noteq> [] \<and> list_all is_digit s then Some (digits_value s) else None)"

lemma of_char_digit: "n < 10 \<Longrightarrow> (of_char (digit_char n) :: nat) = 48 + n"
  by (simp add: digit_char_def of_char_of)

lemma is_digit_digit_char [simp]: "n < 10 \<Longrightarrow> is_digit (digit_char n)"
  by (simp add: is_digit_def of_char_digit)

lemma digit_value_digit_char [simp]: "n < 10 \<Longrightarrow> digit_value (digit_char n) = n"
  by (simp add: digit_value_def of_char_digit)

lemma digit_char_digit_value [simp]: "is_digit c \<Longrightarrow> digit_char (digit_value c) = c"
  by (simp add: is_digit_def digit_char_def digit_value_def)

lemma show_nat_digits: "list_all is_digit (show_nat n)"
  by (induction n rule: show_nat.induct) (subst show_nat.simps, auto)

lemma show_nat_not_Nil [simp]: "show_nat n \<noteq> []"
  by (subst show_nat.simps) simp

lemma digits_value_snoc: "digits_value (s @ [c]) = 10 * digits_value s + digit_value c"
  by (simp add: digits_value_def)

lemma digits_value_show_nat [simp]: "digits_value (show_nat n) = n"
proof (induction n rule: show_nat.induct)
  case (1 n)
  show ?case
  proof (cases "n < 10")
    case True
    then show ?thesis by (subst show_nat.simps) (simp add: digits_value_def)
  next
    case False
    with 1 have "digits_value (show_nat (n div 10)) = n div 10" by simp
    with False show ?thesis by (subst show_nat.simps) (simp add: digits_value_snoc)
  qed
qed

lemma parse_digits_show_nat [simp]: "parse_digits (show_nat n) = Some n"
  by (simp add: parse_digits_def show_nat_digits)

lemma not_digit_not_in_show_nat: "\<not> is_digit c \<Longrightarrow> c \<notin> set (show_nat n)"
  using show_nat_digits [of n] by (auto simp: list_all_iff)

lemma length_show_nat: "n < 10 ^ Suc k \<Longrightarrow> length (show_nat n) \<le> Suc k"
proof (induction k arbitrary: n)
  case 0
  then show ?case by (subst show_nat.simps) simp
next
  case (Suc k)
  show ?case
  proof (cases "n < 10")
    case False
    have "n div 10 < 10 ^ Suc k" using Suc.prems by (simp add: less_mult_imp_div_less mult.commute)
    then show ?thesis using Suc.IH [of "n div 10"] False by (subst show_nat.simps) simp
  qed (subst show_nat.simps, simp)
qed

subsection \<open>Formatting and parsing \<open>int64\<close>\<close>

definition format_int64 :: "int64 \<Rightarrow> string" where
  "format_int64 w =
     (if sint w < 0 then CHR ''-'' # show_nat (nat (- sint w)) else show_nat (nat (sint w)))"

definition strip_sign :: "string \<Rightarrow> bool \<times> string" where
  \<comment> \<open>the optional sign of \<open>strconv.ParseInt\<close>; \<open>True\<close> for a minus sign\<close>
  "strip_sign s =
     (case s of
        [] \<Rightarrow> (False, [])
      | c # cs \<Rightarrow>
          if c = CHR ''+'' then (False, cs)
          else if c = CHR ''-'' then (True, cs)
          else (False, s))"

definition parse_int64 :: "string \<Rightarrow> int64 option" where
  "parse_int64 s =
     (case strip_sign s of (neg, ds) \<Rightarrow>
        (case parse_digits ds of
           None \<Rightarrow> None
         | Some n \<Rightarrow>
             if neg then (if n \<le> 2 ^ 63 then Some (word_of_int (- int n)) else None)
             else (if n < 2 ^ 63 then Some (word_of_int (int n)) else None)))"

lemma sint_int64_bounds: "- (2 ^ 63) \<le> sint (w :: int64) \<and> sint w < 2 ^ 63"
  using sint_greater_eq [of w] sint_lt [of w] by simp

lemma strip_sign_show_nat [simp]: "strip_sign (show_nat n) = (False, show_nat n)"
proof (cases "show_nat n")
  case Nil
  then show ?thesis by simp
next
  case (Cons c cs)
  then have "is_digit c" using show_nat_digits [of n] by simp
  then have "c \<noteq> CHR ''+''" and "c \<noteq> CHR ''-''" by (auto simp: is_digit_def)
  then show ?thesis by (simp add: Cons strip_sign_def)
qed

lemma parse_int64_format_int64 [simp]: "parse_int64 (format_int64 w) = Some w"
proof (cases "sint w < 0")
  case True
  then have "nat (- sint w) \<le> 2 ^ 63" using sint_int64_bounds [of w] by simp
  with True show ?thesis
    by (simp add: format_int64_def parse_int64_def strip_sign_def del: One_nat_def)
next
  case False
  then have "nat (sint w) < 2 ^ 63" using sint_int64_bounds [of w] by simp
  with False show ?thesis
    by (simp add: format_int64_def parse_int64_def)
qed

lemma format_int64_inj [simp]: "format_int64 v = format_int64 w \<longleftrightarrow> v = w"
  by (metis option.inject parse_int64_format_int64)

lemma format_int64_no_colon [simp]: "CHR '':'' \<notin> set (format_int64 w)"
  by (auto simp: format_int64_def not_digit_not_in_show_nat is_digit_def)

lemma format_int64_not_Nil [simp]: "format_int64 w \<noteq> []"
  by (simp add: format_int64_def)

subsection \<open>Hexadecimal digests\<close>

definition hex_digit :: "nat \<Rightarrow> char" where
  "hex_digit n = ''0123456789abcdef'' ! n"

fun hex_encode :: "string \<Rightarrow> string" where
  "hex_encode [] = []"
| "hex_encode (c # cs) =
     hex_digit (of_char c div 16) # hex_digit (of_char c mod 16) # hex_encode cs"

lemma hex_digit_cases:
  "n < 16 \<Longrightarrow> hex_digit n \<in> set ''0123456789abcdef''"
  unfolding hex_digit_def by (rule nth_mem) simp

lemma of_char_div_16: "(of_char c :: nat) div 16 < 16"
  by (rule less_mult_imp_div_less) simp

lemma hex_encode_chars: "set (hex_encode s) \<subseteq> set ''0123456789abcdef''"
proof (induction s)
  case Nil
  show ?case by simp
next
  case (Cons c s)
  have "hex_digit (of_char c div 16) \<in> set ''0123456789abcdef''"
    and "hex_digit (of_char c mod 16) \<in> set ''0123456789abcdef''"
    by (rule hex_digit_cases, rule of_char_div_16) (rule hex_digit_cases, simp)
  with Cons show ?case by (simp only: hex_encode.simps list.set(2) insert_subset simp_thms)
qed

lemma hex_encode_no_colon [simp]: "CHR '':'' \<notin> set (hex_encode s)"
  using hex_encode_chars [of s] by auto

lemma length_hex_encode [simp]: "length (hex_encode s) = 2 * length s"
  by (induction s) simp_all

lemma hex_digit_inj: "m < 16 \<Longrightarrow> n < 16 \<Longrightarrow> hex_digit m = hex_digit n \<longleftrightarrow> m = n"
  unfolding hex_digit_def by (rule nth_eq_iff_index_eq) simp_all

lemma hex_encode_inj [simp]: "hex_encode a = hex_encode b \<longleftrightarrow> a = b"
proof
  show "hex_encode a = hex_encode b \<Longrightarrow> a = b"
  proof (induction a arbitrary: b)
    case Nil
    then show ?case by (cases b) auto
  next
    case (Cons c cs)
    then obtain d ds where b: "b = d # ds" by (cases b) auto
    with Cons have tl: "cs = ds" by auto
    have "(of_char c :: nat) div 16 = of_char d div 16"
      and "(of_char c :: nat) mod 16 = of_char d mod 16"
      using Cons.prems b of_char_div_16 by (auto simp: hex_digit_inj)
    then have "(of_char c :: nat) = of_char d" by (metis div_mult_mod_eq)
    with tl b show ?case by simp
  qed
qed simp

end
