(* ===== verification/JsonText.thy ===== *)
theory JsonText
  imports GoStrings
begin

text \<open>
  JSON strings as Go's \<open>encoding/json\<close> writes and reads them, with the part of \<open>unicode/utf8\<close> they need.

  \<^item> \<open>rune_size\<close>: the size \<open>utf8.DecodeRune\<close> returns for the code point at the start of a byte string, 0
    where it returns \<open>RuneError\<close>.  \<open>clean_utf8\<close> puts U+FFFD in the place of every byte that belongs to no
    code point; \<open>valid_utf8\<close> holds where there is none.  \<open>encode_rune\<close> is \<open>utf8.AppendRune\<close>.
  \<^item> \<open>quote_json\<close>: the encoding of a string with the HTML escapes that \<open>Marshal\<close> and \<open>Encode\<close> use.
    \<open>unquote\<close>: the string whose opening quote has been read, and the input after its closing quote.

  \<open>unquote_quote\<close>: reading what was written gives the string back, cleaned.
\<close>

subsection \<open>UTF-8\<close>

definition replacement :: string where
  \<comment> \<open>U+FFFD\<close>
  "replacement = [char_of (239 :: nat), char_of (191 :: nat), char_of (189 :: nat)]"

definition lead_size :: "nat \<Rightarrow> nat" where
  "lead_size b =
     (if b < 128 then 1 else if b < 194 then 0 else if b < 224 then 2 else if b < 240 then 3
      else if b < 245 then 4 else 0)"

definition second_ok :: "nat \<Rightarrow> nat \<Rightarrow> bool" where
  \<comment> \<open>the table \<open>acceptRanges\<close>: no overlong forms, no surrogates, nothing above U+10FFFF\<close>
  "second_ok b c \<longleftrightarrow>
     (if b = 224 then 160 \<le> c else if b = 237 then c \<le> 159 else if b = 240 then 144 \<le> c
      else if b = 244 then c \<le> 143 else True)"

definition is_cont :: "char \<Rightarrow> bool" where
  "is_cont c \<longleftrightarrow> 128 \<le> byte c \<and> byte c < 192"

fun rune_size :: "string \<Rightarrow> nat" where
  "rune_size [] = 0"
| "rune_size (c # cs) =
     (let n = lead_size (byte c) in
      if n - 1 \<le> length cs \<and> list_all is_cont (take (n - 1) cs) \<and>
         (1 < n \<longrightarrow> second_ok (byte c) (byte (hd cs)))
      then n else 0)"

lemma rune_size_le: "rune_size s \<le> length s"
  by (cases s) (auto simp: Let_def lead_size_def)

lemma rune_size_ascii [simp]: "byte c < 128 \<Longrightarrow> rune_size (c # cs) = 1"
  by (simp add: lead_size_def)

lemma rune_size_high: "\<not> byte c < 128 \<Longrightarrow> rune_size (c # cs) \<noteq> 1"
  by (simp add: lead_size_def)

lemma rune_size_append:
  assumes "rune_size s = n" and "n \<noteq> 0"
  shows "rune_size (take n s @ t) = n"
proof (cases s)
  case Nil
  with assms show ?thesis by simp
next
  case (Cons c cs)
  have n: "lead_size (byte c) = n" "n - 1 \<le> length cs" "list_all is_cont (take (n - 1) cs)"
      "1 < n \<longrightarrow> second_ok (byte c) (byte (hd cs))"
    using assms by (simp_all add: Cons Let_def split: if_splits)
  obtain m where m: "n = Suc m" using assms(2) by (cases n) auto
  have "hd (take m cs @ t) = hd cs" if "0 < m"
    using that n(2) by (cases cs; cases m) (simp_all add: m)
  with n show ?thesis by (simp add: Cons Let_def m)
qed

function clean_utf8 :: "string \<Rightarrow> string" where
  "clean_utf8 [] = []"
| "clean_utf8 (c # cs) =
     (case rune_size (c # cs) of
        0 \<Rightarrow> replacement @ clean_utf8 cs
      | Suc n \<Rightarrow> c # take n cs @ clean_utf8 (drop n cs))"
  by pat_completeness auto
termination by (relation "measure length") auto

function valid_utf8 :: "string \<Rightarrow> bool" where
  "valid_utf8 [] = True"
| "valid_utf8 (c # cs) =
     (case rune_size (c # cs) of 0 \<Rightarrow> False | Suc n \<Rightarrow> valid_utf8 (drop n cs))"
  by pat_completeness auto
termination by (relation "measure length") auto

declare rune_size.simps(2) [simp del] clean_utf8.simps(2) [simp del] valid_utf8.simps(2) [simp del]

lemma clean_valid: "valid_utf8 s \<Longrightarrow> clean_utf8 s = s"
  by (induction s rule: clean_utf8.induct)
     (auto simp: clean_utf8.simps(2) valid_utf8.simps(2) split: nat.splits)

lemma ascii_valid: "list_all (\<lambda>c. byte c < 128) s \<Longrightarrow> valid_utf8 s"
  by (induction s) (auto simp: valid_utf8.simps(2))

definition encode_rune :: "nat \<Rightarrow> string" where
  "encode_rune r =
     (if r < 128 then [char_of r]
      else if r < 2048 then [char_of (192 + r div 64), char_of (128 + r mod 64)]
      else if 55296 \<le> r \<and> r < 57344 \<or> 1114112 \<le> r then replacement
      else if r < 65536
        then [char_of (224 + r div 4096), char_of (128 + r div 64 mod 64), char_of (128 + r mod 64)]
      else [char_of (240 + r div 262144), char_of (128 + r div 4096 mod 64), char_of (128 + r div 64 mod 64),
            char_of (128 + r mod 64)])"

subsection \<open>Writing a string\<close>

definition escape_ascii :: "char \<Rightarrow> string" where
  "escape_ascii c =
     (if c = CHR 0x22 \<or> c = CHR 0x5C then [CHR 0x5C, c]
      else if byte c = 8 then [CHR 0x5C, CHR ''b'']
      else if byte c = 12 then [CHR 0x5C, CHR ''f'']
      else if byte c = 10 then [CHR 0x5C, CHR ''n'']
      else if byte c = 13 then [CHR 0x5C, CHR ''r'']
      else if byte c = 9 then [CHR 0x5C, CHR ''t'']
      else if byte c < 32 \<or> c = CHR ''<'' \<or> c = CHR ''>'' \<or> c = CHR ''&''
        then CHR 0x5C # ''u00'' @ [hex_digit (byte c div 16), hex_digit (byte c mod 16)]
      else [c])"

function quote_body :: "string \<Rightarrow> string" where
  "quote_body [] = []"
| "quote_body (c # cs) =
     (if byte c < 128 then escape_ascii c @ quote_body cs
      else case rune_size (c # cs) of
        0 \<Rightarrow> CHR 0x5C # ''ufffd'' @ quote_body cs
      | Suc n \<Rightarrow>
          if c # take n cs = encode_rune 8232 then CHR 0x5C # ''u2028'' @ quote_body (drop n cs)
          else if c # take n cs = encode_rune 8233 then CHR 0x5C # ''u2029'' @ quote_body (drop n cs)
          else c # take n cs @ quote_body (drop n cs))"
  by pat_completeness auto
termination by (relation "measure length") auto

definition quote_json :: "string \<Rightarrow> string" where
  "quote_json s = CHR 0x22 # quote_body s @ [CHR 0x22]"

subsection \<open>Reading a string\<close>

definition hex_value :: "char \<Rightarrow> nat option" where
  "hex_value c =
     (let b = byte c in
      if is_digit c then Some (b - 48)
      else if 97 \<le> b \<and> b \<le> 102 then Some (b - 87)
      else if 65 \<le> b \<and> b \<le> 70 then Some (b - 55)
      else None)"

fun hex4 :: "string \<Rightarrow> (nat \<times> string) option" where
  \<comment> \<open>four hexadecimal digits\<close>
  "hex4 (a # b # c # d # rest) =
     (case (hex_value a, hex_value b, hex_value c, hex_value d) of
        (Some i, Some j, Some k, Some l) \<Rightarrow> Some (4096 * i + 256 * j + 16 * k + l, rest)
      | _ \<Rightarrow> None)"
| "hex4 _ = None"

definition low_surrogate :: "string \<Rightarrow> (nat \<times> string) option" where
  "low_surrogate s =
     (if take 2 s = [CHR 0x5C, CHR ''u'']
      then (case hex4 (drop 2 s) of
              Some (r, rest) \<Rightarrow> if 56320 \<le> r \<and> r < 57344 then Some (r, rest) else None
            | None \<Rightarrow> None)
      else None)"

definition unescape :: "string \<Rightarrow> (string \<times> string) option" where
  \<comment> \<open>the bytes an escape stands for, its backslash read, and the input after it\<close>
  "unescape s =
     (case s of
        [] \<Rightarrow> None
      | e # es \<Rightarrow>
          if e = CHR ''u'' then
            (case hex4 es of
               None \<Rightarrow> None
             | Some (r, rest) \<Rightarrow>
                 if 55296 \<le> r \<and> r < 56320 then
                   (case low_surrogate rest of
                      Some (r', rest') \<Rightarrow> Some (encode_rune ((r - 55296) * 1024 + (r' - 56320) + 65536), rest')
                    | None \<Rightarrow> Some (replacement, rest))
                 else Some (encode_rune r, rest))
          else if e = CHR 0x22 \<or> e = CHR 0x5C \<or> e = CHR ''/'' then Some ([e], es)
          else if e = CHR ''b'' then Some ([char_of (8 :: nat)], es)
          else if e = CHR ''f'' then Some ([char_of (12 :: nat)], es)
          else if e = CHR ''n'' then Some ([char_of (10 :: nat)], es)
          else if e = CHR ''r'' then Some ([char_of (13 :: nat)], es)
          else if e = CHR ''t'' then Some ([char_of (9 :: nat)], es)
          else None)"

lemma hex4_length: "hex4 s = Some (r, rest) \<Longrightarrow> length rest < length s"
  by (induction s rule: hex4.induct) (auto split: option.splits)

lemma low_surrogate_length: "low_surrogate s = Some (r, rest) \<Longrightarrow> length rest < length s"
  by (auto simp: low_surrogate_def dest!: hex4_length split: option.splits if_splits)

lemma unescape_length: "unescape s = Some (t, rest) \<Longrightarrow> length rest < length s"
  by (auto simp: unescape_def dest!: hex4_length low_surrogate_length
        split: list.splits option.splits if_splits)

definition after :: "string \<Rightarrow> (string \<times> string) option \<Rightarrow> (string \<times> string) option" where
  "after p res = map_option (\<lambda>(t, rest). (p @ t, rest)) res"

lemma after_simps [simp]: "after p None = None" "after p (Some (t, rest)) = Some (p @ t, rest)"
  by (simp_all add: after_def)

function unquote :: "string \<Rightarrow> (string \<times> string) option" where
  "unquote [] = None"
| "unquote (c # cs) =
     (if c = CHR 0x22 then Some ([], cs)
      else if c = CHR 0x5C then
        (case unescape cs of None \<Rightarrow> None | Some (t, rest) \<Rightarrow> after t (unquote rest))
      else if byte c < 32 then None
      else case rune_size (c # cs) of
        0 \<Rightarrow> after replacement (unquote cs)
      | Suc n \<Rightarrow> after (c # take n cs) (unquote (drop n cs)))"
  by pat_completeness auto
termination by (relation "measure length") (auto dest: unescape_length)

declare quote_body.simps(2) [simp del] unquote.simps(2) [simp del]

subsection \<open>Reading what was written\<close>

lemma hex_value_hex_digit: "n < 16 \<Longrightarrow> hex_value (hex_digit n) = Some n"
proof -
  assume "n < 16"
  moreover have "list_all (\<lambda>n. hex_value (hex_digit n) = Some n) [0..<16]" by code_simp
  ultimately show ?thesis by (simp only: list_all_iff set_upt atLeastLessThan_iff) simp
qed

lemma hex_value_0 [simp]: "hex_value (CHR ''0'') = Some 0"
  by (simp add: hex_value_def is_digit_def)

lemma hex4_byte: "hex4 (''00'' @ [hex_digit (byte c div 16), hex_digit (byte c mod 16)] @ t) = Some (byte c, t)"
  by (simp add: hex_value_hex_digit of_char_div_16)

lemma encode_rune_ascii: "byte c < 128 \<Longrightarrow> encode_rune (byte c) = [c]"
  by (simp add: encode_rune_def)

lemma unquote_backslash:
  "unquote (CHR 0x5C # cs) = (case unescape cs of None \<Rightarrow> None | Some (t, rest) \<Rightarrow> after t (unquote rest))"
  by (simp add: unquote.simps(2))

lemma unescape_u_byte:
  assumes "byte c < 128"
  shows "unescape (''u00'' @ [hex_digit (byte c div 16), hex_digit (byte c mod 16)] @ t) = Some ([c], t)"
proof -
  have "hex4 (''00'' @ [hex_digit (byte c div 16), hex_digit (byte c mod 16)] @ t) = Some (byte c, t)"
    by (rule hex4_byte)
  then show ?thesis
    using assms by (simp add: unescape_def encode_rune_ascii del: hex4.simps)
qed

lemma char_eqI: "byte c = n \<Longrightarrow> c = char_of n"
  by (metis char_of_char)

lemma unquote_escape_ascii:
  assumes "byte c < 128"
  shows "unquote (escape_ascii c @ t) = after [c] (unquote t)"
proof -
  consider "c = CHR 0x22 \<or> c = CHR 0x5C" | "byte c = 8" | "byte c = 12" | "byte c = 10" | "byte c = 13" | "byte c = 9"
    | "escape_ascii c = CHR 0x5C # ''u00'' @ [hex_digit (byte c div 16), hex_digit (byte c mod 16)]"
    | "escape_ascii c = [c]" "32 \<le> byte c" "c \<noteq> CHR 0x22" "c \<noteq> CHR 0x5C"
    using escape_ascii_def [of c] by (metis not_le)
  then show ?thesis
  proof cases
    case 7
    then show ?thesis using unescape_u_byte [OF assms, of t] by (simp add: unquote_backslash)
  next
    case 8
    then show ?thesis using assms by (simp add: unquote.simps(2))
  qed (auto simp: escape_ascii_def unquote_backslash unescape_def dest!: char_eqI)
qed

lemma unquote_u_high:
  assumes "hex4 (u @ t) = Some (r, t)" and "\<not> (55296 \<le> r \<and> r < 56320)"
  shows "unquote (CHR 0x5C # CHR ''u'' # u @ t) = after (encode_rune r) (unquote t)"
  using assms by (auto simp: unquote_backslash unescape_def simp del: hex4.simps)

lemma unquote_escaped_runes:
  "unquote (CHR 0x5C # ''ufffd'' @ t) = after replacement (unquote t)"
  "unquote (CHR 0x5C # ''u2028'' @ t) = after (encode_rune 8232) (unquote t)"
  "unquote (CHR 0x5C # ''u2029'' @ t) = after (encode_rune 8233) (unquote t)"
proof -
  have h: "hex4 (''fffd'' @ t) = Some (65533, t)" "hex4 (''2028'' @ t) = Some (8232, t)"
      "hex4 (''2029'' @ t) = Some (8233, t)"
    by (simp_all add: hex_value_def is_digit_def Let_def)
  have r: "encode_rune 65533 = replacement"
    by (simp add: encode_rune_def replacement_def)
  show "unquote (CHR 0x5C # ''ufffd'' @ t) = after replacement (unquote t)"
    using unquote_u_high [OF h(1)] by (simp add: r)
  show "unquote (CHR 0x5C # ''u2028'' @ t) = after (encode_rune 8232) (unquote t)"
    using unquote_u_high [OF h(2)] by simp
  show "unquote (CHR 0x5C # ''u2029'' @ t) = after (encode_rune 8233) (unquote t)"
    using unquote_u_high [OF h(3)] by simp
qed

lemma unquote_rune:
  assumes "rune_size (c # cs) = Suc n" and "\<not> byte c < 128"
  shows "unquote (c # take n cs @ t) = after (c # take n cs) (unquote t)"
proof -
  have "rune_size (c # take n cs @ t) = Suc n"
    using rune_size_append [OF assms(1), of t] by simp
  moreover have "n \<le> length cs"
    using rune_size_le [of "c # cs"] assms(1) by simp
  moreover have "c \<noteq> CHR 0x22" and "c \<noteq> CHR 0x5C" and "\<not> byte c < 32"
    using assms(2) by auto
  ultimately show ?thesis by (simp add: unquote.simps(2))
qed

lemma after_after: "after p (after q res) = after (p @ q) res"
  by (cases res) auto

lemma unquote_quote_body: "unquote (quote_body s @ CHR 0x22 # rest) = Some (clean_utf8 s, rest)"
proof (induction s rule: quote_body.induct)
  case 1
  show ?case by (simp add: unquote.simps(2))
next
  case (2 c cs)
  show ?case
  proof (cases "byte c < 128")
    case True
    then show ?thesis
      using 2(1) by (simp add: quote_body.simps(2) clean_utf8.simps(2) unquote_escape_ascii)
  next
    case False
    show ?thesis
    proof (cases "rune_size (c # cs)")
      case 0
      then show ?thesis
        using 2(2) [OF False 0] False unquote_escaped_runes(1) [of "quote_body cs @ CHR 0x22 # rest"]
        by (simp add: quote_body.simps(2) clean_utf8.simps(2))
    next
      case (Suc n)
      let ?t = "quote_body (drop n cs) @ CHR 0x22 # rest"
      have IH: "unquote ?t = Some (clean_utf8 (drop n cs), rest)"
        using 2(3-5) [OF False Suc] by blast
      show ?thesis
        using False Suc IH unquote_escaped_runes(2,3) [of ?t] unquote_rune [OF Suc False, of ?t]
        by (simp add: quote_body.simps(2) clean_utf8.simps(2))
    qed
  qed
qed

lemma unquote_quote: "\<exists>t. quote_json s = CHR 0x22 # t \<and> unquote (t @ rest) = Some (clean_utf8 s, rest)"
  by (simp add: quote_json_def unquote_quote_body)

lemma unquote_length: "unquote s = Some (t, rest) \<Longrightarrow> length rest < length s"
proof (induction s arbitrary: t rest rule: unquote.induct)
  case 1
  then show ?case by simp
next
  case (2 c cs)
  show ?case
    using 2 by (auto simp: unquote.simps(2) after_def less_Suc_eq dest: unescape_length
        split: if_splits option.splits nat.splits prod.splits) (fastforce dest: unescape_length)+
qed

lemma length_escape_ascii: "length (escape_ascii c) \<le> 6"
  by (simp add: escape_ascii_def)

lemma length_quote_body: "length (quote_body s) \<le> 6 * length s"
proof (induction s rule: quote_body.induct)
  case (2 c cs)
  have n: "n \<le> length cs" if "rune_size (c # cs) = Suc n" for n
    using rune_size_le [of "c # cs"] that by simp
  show ?case
    using 2 length_escape_ascii [of c] n by (fastforce simp: quote_body.simps(2) split: nat.splits)
qed simp

lemma length_quote: "length (quote_json s) \<le> 6 * length s + 2"
  using length_quote_body [of s] by (simp add: quote_json_def)

lemma quote_body_plain: "list_all (\<lambda>c. byte c < 128 \<and> escape_ascii c = [c]) s \<Longrightarrow> quote_body s = s"
  by (induction s) (simp_all add: quote_body.simps(2))

lemma quote_plain:
  "list_all (\<lambda>c. byte c < 128 \<and> escape_ascii c = [c]) s \<Longrightarrow> quote_json s = CHR 0x22 # s @ [CHR 0x22]"
  by (simp add: quote_json_def quote_body_plain)

end
