(* ===== verification/Json.thy ===== *)
theory Json
  imports JsonText
begin

text \<open>
  JSON values as Go's \<open>encoding/json\<close> reads and writes them.

  \<open>parse_value\<close> is the scanner: the value at the start of the input and the input after it, with the limit
  of 10000 nested objects and arrays.  \<open>render\<close> writes a value; \<open>parse_render\<close> reads it back, with the
  strings cleaned.  \<open>unmarshal\<close> reads a whole input (\<open>json.Unmarshal\<close>), \<open>decode_stream\<close> the first value of
  one, whatever follows it (\<open>json.NewDecoder (_).Decode\<close>).

  \<open>member\<close> is a field of a Go struct: its tag, and what storing a value into it does.  \<open>decode_struct\<close> stores
  the members of an object one after the other: an exact name first, then a name that is equal up to
  case; unknown names are ignored, a later member overwrites an earlier one, \<open>null\<close> leaves a field as it
  is, and a value of another type is an error.
\<close>

datatype json =
    JNull
  | JBool bool
  | JNumber string
  | JString string
  | JArray "json list"
  | JObject "(string \<times> json) list"

subsection \<open>Reading a value\<close>

definition is_space :: "char \<Rightarrow> bool" where
  "is_space c \<longleftrightarrow> byte c \<in> {9, 10, 13, 32}"

definition skip_space :: "string \<Rightarrow> string" where
  "skip_space s = dropWhile is_space s"

definition digits1 :: "string \<Rightarrow> (string \<times> string) option" where
  \<comment> \<open>one or more digits\<close>
  "digits1 s = (let ds = takeWhile is_digit s in if ds = [] then None else Some (ds, dropWhile is_digit s))"

definition int_part :: "string \<Rightarrow> (string \<times> string) option" where
  "int_part s =
     (case s of
        [] \<Rightarrow> None
      | c # cs \<Rightarrow> if c = CHR ''0'' then Some ([c], cs) else digits1 s)"

definition frac_part :: "string \<Rightarrow> (string \<times> string) option" where
  "frac_part s =
     (case s of
        [] \<Rightarrow> Some ([], s)
      | c # cs \<Rightarrow> if c = CHR ''.'' then after [c] (digits1 cs) else Some ([], s))"

definition exp_part :: "string \<Rightarrow> (string \<times> string) option" where
  "exp_part s =
     (case s of
        [] \<Rightarrow> Some ([], s)
      | c # cs \<Rightarrow>
          if c = CHR ''e'' \<or> c = CHR ''E'' then
            (case cs of
               [] \<Rightarrow> None
             | d # ds \<Rightarrow> if d = CHR ''+'' \<or> d = CHR ''-'' then after [c, d] (digits1 ds) else after [c] (digits1 cs))
          else Some ([], s))"

definition unsigned :: "string \<Rightarrow> (string \<times> string) option" where
  "unsigned s =
     (case int_part s of
        None \<Rightarrow> None
      | Some (i, s1) \<Rightarrow>
          (case frac_part s1 of
             None \<Rightarrow> None
           | Some (f, s2) \<Rightarrow> after i (after f (exp_part s2))))"

definition number :: "string \<Rightarrow> (string \<times> string) option" where
  "number s =
     (case s of
        [] \<Rightarrow> None
      | c # cs \<Rightarrow> if c = CHR ''-'' then after [c] (unsigned cs) else unsigned s)"

definition literal :: "string \<Rightarrow> json \<Rightarrow> string \<Rightarrow> (json \<times> string) option" where
  "literal word v s = (case cut_prefix s word of (rest, found) \<Rightarrow> if found then Some (v, rest) else None)"

lemma skip_space_length: "length (skip_space s) \<le> length s"
  by (simp add: skip_space_def length_dropWhile_le)

lemma skip_space_Cons: "skip_space s = x # xs \<Longrightarrow> length xs < length s"
  using skip_space_length [of s] by simp

definition key_colon :: "string \<Rightarrow> (string \<times> string) option" where
  \<comment> \<open>the name of a member, and the input at its value\<close>
  "key_colon s =
     (case s of
        [] \<Rightarrow> None
      | q # cs \<Rightarrow>
          if q = CHR 0x22 then
            (case unquote cs of
               None \<Rightarrow> None
             | Some (k, rest) \<Rightarrow>
                 (case skip_space rest of
                    [] \<Rightarrow> None
                  | x # xs \<Rightarrow> if x = CHR '':'' then Some (k, skip_space xs) else None))
          else None)"

lemma key_colon_length:
  assumes "key_colon s = Some (k, rest)"
  shows "length rest < length s"
proof -
  obtain q cs r x xs where s: "s = q # cs" and u: "unquote cs = Some (k, r)"
      and r: "skip_space r = x # xs" and rest: "rest = skip_space xs"
    using assms by (auto simp: key_colon_def split: list.splits option.splits if_splits)
  from skip_space_Cons [OF r] unquote_length [OF u] skip_space_length [of xs] s rest show ?thesis by simp
qed

function (sequential)
  parse_value :: "nat \<Rightarrow> string \<Rightarrow> (json \<times> string) option" and
  parse_elements :: "nat \<Rightarrow> string \<Rightarrow> (json list \<times> string) option" and
  parse_members :: "nat \<Rightarrow> string \<Rightarrow> ((string \<times> json) list \<times> string) option"
where
  \<comment> \<open>the first argument is how many more objects and arrays may be opened; no list that is passed on is
    longer than the input, so the comparisons of lengths always hold (\<open>parse_lengths\<close>)\<close>
  "parse_value d [] = None"
| "parse_value d (c # cs) =
     (if c = CHR ''{'' then
        (if d = 0 then None
         else case skip_space cs of
           [] \<Rightarrow> None
         | x # xs \<Rightarrow>
             if x = CHR ''}'' then Some (JObject [], xs)
             else map_option (\<lambda>(ms, rest). (JObject ms, rest)) (parse_members (d - 1) (skip_space cs)))
      else if c = CHR ''['' then
        (if d = 0 then None
         else case skip_space cs of
           [] \<Rightarrow> None
         | x # xs \<Rightarrow>
             if x = CHR '']'' then Some (JArray [], xs)
             else map_option (\<lambda>(vs, rest). (JArray vs, rest)) (parse_elements (d - 1) (skip_space cs)))
      else if c = CHR 0x22 then map_option (\<lambda>(t, rest). (JString t, rest)) (unquote cs)
      else if c = CHR ''t'' then literal ''true'' (JBool True) (c # cs)
      else if c = CHR ''f'' then literal ''false'' (JBool False) (c # cs)
      else if c = CHR ''n'' then literal ''null'' JNull (c # cs)
      else map_option (\<lambda>(t, rest). (JNumber t, rest)) (number (c # cs)))"
| "parse_elements d s =
     (case parse_value d s of
        None \<Rightarrow> None
      | Some (v, rest) \<Rightarrow>
          (case skip_space rest of
             [] \<Rightarrow> None
           | x # xs \<Rightarrow>
               if x = CHR '']'' then Some ([v], xs)
               else if x = CHR '','' \<and> length xs < length s
                 then map_option (\<lambda>(vs, rest'). (v # vs, rest')) (parse_elements d (skip_space xs))
               else None))"
| "parse_members d s =
     (case key_colon s of
        None \<Rightarrow> None
      | Some (k, s1) \<Rightarrow>
          (case parse_value d s1 of
             None \<Rightarrow> None
           | Some (v, rest) \<Rightarrow>
               (case skip_space rest of
                  [] \<Rightarrow> None
                | x # xs \<Rightarrow>
                    if x = CHR ''}'' then Some ([(k, v)], xs)
                    else if x = CHR '','' \<and> length xs < length s
                      then map_option (\<lambda>(ms, rest'). ((k, v) # ms, rest')) (parse_members d (skip_space xs))
                    else None)))"
  by pat_completeness auto
termination
  by (relation "measure (\<lambda>x. case x of Inl (d, s) \<Rightarrow> 2 * length s
                          | Inr (Inl (d, s)) \<Rightarrow> 2 * length s + 1 | Inr (Inr (d, s)) \<Rightarrow> 2 * length s + 1)")
     (auto dest!: key_colon_length skip_space_Cons intro!: le_less_trans [OF skip_space_length])

declare parse_value.simps [simp del] parse_elements.simps [simp del] parse_members.simps [simp del]

subsection \<open>Writing a value\<close>

fun render :: "json \<Rightarrow> string"
and render_elements :: "json list \<Rightarrow> string"
and render_members :: "(string \<times> json) list \<Rightarrow> string" where
  "render JNull = ''null''"
| "render (JBool b) = (if b then ''true'' else ''false'')"
| "render (JNumber t) = t"
| "render (JString s) = quote_json s"
| "render (JArray vs) = CHR ''['' # render_elements vs @ '']''"
| "render (JObject ms) = CHR ''{'' # render_members ms @ ''}''"
| "render_elements [] = []"
| "render_elements (v # vs) = render v @ (if vs = [] then [] else CHR '','' # render_elements vs)"
| "render_members [] = []"
| "render_members ((k, v) # ms) =
     quote_json k @ CHR '':'' # render v @ (if ms = [] then [] else CHR '','' # render_members ms)"

fun clean_json :: "json \<Rightarrow> json"
and clean_elements :: "json list \<Rightarrow> json list"
and clean_members :: "(string \<times> json) list \<Rightarrow> (string \<times> json) list" where
  "clean_json (JString s) = JString (clean_utf8 s)"
| "clean_json (JArray vs) = JArray (clean_elements vs)"
| "clean_json (JObject ms) = JObject (clean_members ms)"
| "clean_json v = v"
| "clean_elements [] = []"
| "clean_elements (v # vs) = clean_json v # clean_elements vs"
| "clean_members [] = []"
| "clean_members ((k, v) # ms) = (clean_utf8 k, clean_json v) # clean_members ms"

fun renderable :: "nat \<Rightarrow> json \<Rightarrow> bool"
and renderable_elements :: "nat \<Rightarrow> json list \<Rightarrow> bool"
and renderable_members :: "nat \<Rightarrow> (string \<times> json) list \<Rightarrow> bool" where
  \<comment> \<open>numbers follow the grammar and the nesting is at most the first argument\<close>
  "renderable d (JNumber t) \<longleftrightarrow> number t = Some (t, [])"
| "renderable d (JArray vs) \<longleftrightarrow> 0 < d \<and> renderable_elements (d - 1) vs"
| "renderable d (JObject ms) \<longleftrightarrow> 0 < d \<and> renderable_members (d - 1) ms"
| "renderable d _ \<longleftrightarrow> True"
| "renderable_elements d [] \<longleftrightarrow> True"
| "renderable_elements d (v # vs) \<longleftrightarrow> renderable d v \<and> renderable_elements d vs"
| "renderable_members d [] \<longleftrightarrow> True"
| "renderable_members d ((k, v) # ms) \<longleftrightarrow> renderable d v \<and> renderable_members d ms"

subsection \<open>Numbers\<close>

definition number_end :: "string \<Rightarrow> bool" where
  \<comment> \<open>what a number can be followed by\<close>
  "number_end s \<longleftrightarrow> (case s of [] \<Rightarrow> True | c # _ \<Rightarrow> \<not> is_digit c \<and> c \<noteq> CHR ''.'' \<and> c \<noteq> CHR ''e'' \<and> c \<noteq> CHR ''E'')"

lemma number_end_simps [simp]:
  "number_end []" "number_end (CHR 0x0A # s)" "number_end (CHR '','' # s)" "number_end (CHR '']'' # s)" "number_end (CHR ''}'' # s)"
  by (simp_all add: number_end_def is_digit_def)

lemma digits1_append: "digits1 s = Some (ds, r) \<Longrightarrow> number_end rest \<Longrightarrow> digits1 (s @ rest) = Some (ds, r @ rest)"
  by (cases rest)
     (auto simp: digits1_def Let_def number_end_def takeWhile_append dropWhile_append split: if_splits
       intro!: takeWhile_eq_all_conv [THEN iffD2, symmetric])

lemma digits1_append_Cons:
  "digits1 (c # s) = Some (ds, r) \<Longrightarrow> number_end rest \<Longrightarrow> digits1 (c # s @ rest) = Some (ds, r @ rest)"
  using digits1_append [of "c # s"] by simp

lemma int_part_append: "int_part s = Some (t, r) \<Longrightarrow> number_end rest \<Longrightarrow> int_part (s @ rest) = Some (t, r @ rest)"
  using digits1_append [of s] by (auto simp: int_part_def split: list.splits if_splits)

lemma after_Some: "after p res = Some (t, r) \<longleftrightarrow> (\<exists>q. res = Some (q, r) \<and> t = p @ q)"
  by (cases res) auto

lemma frac_part_append: "frac_part s = Some (t, r) \<Longrightarrow> number_end rest \<Longrightarrow> frac_part (s @ rest) = Some (t, r @ rest)"
  using digits1_append
  by (auto simp: frac_part_def after_Some number_end_def split: list.splits if_splits)

lemma exp_part_append:
  assumes "exp_part s = Some (t, r)" and "number_end rest"
  shows "exp_part (s @ rest) = Some (t, r @ rest)"
proof (cases s)
  case Nil
  with assms show ?thesis by (auto simp: exp_part_def number_end_def split: list.splits)
next
  case (Cons c cs)
  with assms show ?thesis
    by (auto simp: exp_part_def after_Some digits1_append digits1_append_Cons split: list.splits if_splits)
qed

lemma unsigned_append: "unsigned s = Some (t, r) \<Longrightarrow> number_end rest \<Longrightarrow> unsigned (s @ rest) = Some (t, r @ rest)"
  by (auto simp: unsigned_def after_Some int_part_append frac_part_append exp_part_append split: option.splits)

lemma number_append:
  assumes "number s = Some (t, r)" and "number_end rest"
  shows "number (s @ rest) = Some (t, r @ rest)"
proof (cases s)
  case (Cons c cs)
  with assms unsigned_append [of s] unsigned_append [of cs] show ?thesis
    by (auto simp: number_def after_Some split: if_splits)
qed (use assms in \<open>simp add: number_def\<close>)

lemma show_nat_head: "0 < n \<Longrightarrow> \<exists>c cs. show_nat n = c # cs \<and> c \<noteq> CHR ''0''"
proof (induction n rule: show_nat.induct)
  case (1 n)
  show ?case
  proof (cases "n < 10")
    case True
    have "digit_char n \<noteq> CHR ''0''"
    proof
      assume "digit_char n = CHR ''0''"
      then have "byte (digit_char n) = 48" by simp
      then show False using True 1 by (simp add: of_char_digit)
    qed
    with True show ?thesis by (subst show_nat.simps) simp
  next
    case False
    then have "0 < n div 10" by (simp add: div_greater_zero_iff)
    with 1 False obtain c cs where "show_nat (n div 10) = c # cs" "c \<noteq> CHR ''0''" by auto
    with False show ?thesis by (subst show_nat.simps) simp
  qed
qed

lemma number_parts_Nil [simp]: "frac_part [] = Some ([], [])" "exp_part [] = Some ([], [])"
  by (simp_all add: frac_part_def exp_part_def)

lemma unsigned_show_nat: "unsigned (show_nat n) = Some (show_nat n, [])"
proof (cases "n = 0")
  case True
  have "char_of (48 :: nat) = CHR ''0''" by (rule char_eqI [symmetric]) simp
  then have "show_nat 0 = ''0''" by (subst show_nat.simps) (simp add: digit_char_def)
  with True show ?thesis by (simp add: unsigned_def int_part_def)
next
  case False
  then obtain c cs where s: "show_nat n = c # cs" "c \<noteq> CHR ''0''" using show_nat_head [of n] by auto
  have all: "\<forall>x \<in> set (c # cs). is_digit x" using show_nat_digits [of n] by (simp only: s list_all_iff)
  then have "takeWhile is_digit cs = cs" "dropWhile is_digit cs = []"
    by (simp_all only: takeWhile_eq_all_conv dropWhile_eq_Nil_conv) simp_all
  with all have "int_part (show_nat n) = Some (show_nat n, [])"
    using s(2) by (simp add: int_part_def digits1_def Let_def s(1))
  then show ?thesis by (simp add: unsigned_def)
qed

lemma number_format_int64: "number (format_int64 w) = Some (format_int64 w, [])"
proof -
  have "\<not> (\<exists>cs. show_nat n = CHR ''-'' # cs)" for n
    using not_digit_not_in_show_nat [of "CHR ''-''" n] by (auto simp: is_digit_def)
  then have "number (show_nat n) = unsigned (show_nat n)" for n
    by (auto simp: number_def split: list.splits)
  then show ?thesis
    by (simp add: format_int64_def unsigned_show_nat) (simp add: number_def unsigned_show_nat)
qed

subsection \<open>Reading what was written\<close>

lemma skip_space_id [simp]: "\<not> is_space c \<Longrightarrow> skip_space (c # s) = c # s"
  by (simp add: skip_space_def)

lemma is_space_simps [simp]:
  "\<not> is_space (CHR 0x22)" "\<not> is_space (CHR '','')" "\<not> is_space (CHR '']'')" "\<not> is_space (CHR ''}'')"
  "\<not> is_space (CHR '':'')" "\<not> is_space (CHR ''['')" "\<not> is_space (CHR ''{'')"
  "is_space (CHR '' '')" "is_space (CHR 0x0A)"
  by (simp_all add: is_space_def)

lemma number_head: "number s = Some r \<Longrightarrow> \<exists>c cs. s = c # cs \<and> (c = CHR ''-'' \<or> is_digit c)"
  by (auto simp: number_def unsigned_def int_part_def digits1_def is_digit_def Let_def
        split: list.splits if_splits option.splits)

lemma parse_number:
  assumes "number s = Some (t, r)"
  shows "parse_value d s = Some (JNumber t, r)"
proof -
  obtain c cs where "s = c # cs" and "c = CHR ''-'' \<or> is_digit c" using number_head [OF assms] by blast
  moreover from this(2)
  have "c \<noteq> CHR ''{''" "c \<noteq> CHR ''[''" "c \<noteq> CHR 0x22" "c \<noteq> CHR ''t''" "c \<noteq> CHR ''f''" "c \<noteq> CHR ''n''"
    by (auto simp: is_digit_def)
  ultimately show ?thesis using assms by (simp add: parse_value.simps(2))
qed

lemma parse_value_simps:
  "parse_value d (CHR 0x22 # cs) = map_option (\<lambda>(t, rest). (JString t, rest)) (unquote cs)"
  "parse_value d (''true'' @ cs) = Some (JBool True, cs)"
  "parse_value d (''false'' @ cs) = Some (JBool False, cs)"
  "parse_value d (''null'' @ cs) = Some (JNull, cs)"
  "parse_value (Suc d) (''{}'' @ cs) = Some (JObject [], cs)"
  "parse_value (Suc d) (''[]'' @ cs) = Some (JArray [], cs)"
  by (simp_all add: parse_value.simps(2) literal_def)

lemma parse_object:
  "x \<noteq> CHR ''}'' \<Longrightarrow> \<not> is_space x \<Longrightarrow>
     parse_value (Suc d) (CHR ''{'' # x # xs) = map_option (\<lambda>(ms, rest). (JObject ms, rest)) (parse_members d (x # xs))"
  by (simp add: parse_value.simps(2))

lemma parse_array:
  "x \<noteq> CHR '']'' \<Longrightarrow> \<not> is_space x \<Longrightarrow>
     parse_value (Suc d) (CHR ''['' # x # xs) = map_option (\<lambda>(vs, rest). (JArray vs, rest)) (parse_elements d (x # xs))"
  by (simp add: parse_value.simps(2))

lemma render_head:
  "renderable d v \<Longrightarrow> \<exists>c cs. render v = c # cs \<and> \<not> is_space c \<and> c \<noteq> CHR '']''"
proof (cases v)
  case (JNumber t)
  assume "renderable d v"
  then obtain c cs where "t = c # cs" "c = CHR ''-'' \<or> is_digit c"
    using number_head [of t] JNumber by auto
  with JNumber show ?thesis by (auto simp: is_space_def is_digit_def)
qed (auto simp: quote_json_def is_space_def)

lemma key_colon_quote:
  "\<not> is_space c \<Longrightarrow> key_colon (quote_json k @ CHR '':'' # c # cs) = Some (clean_utf8 k, c # cs)"
  by (simp add: key_colon_def quote_json_def unquote_quote_body)

lemma parse_elements_last:
  "parse_value d s = Some (v, CHR '']'' # rest) \<Longrightarrow> parse_elements d s = Some ([v], rest)"
  by (simp add: parse_elements.simps)

lemma parse_elements_more:
  assumes "parse_value d s = Some (v, CHR '','' # c # cs)" and "\<not> is_space c" and "length cs + 1 < length s"
  shows "parse_elements d s = map_option (\<lambda>(vs, rest). (v # vs, rest)) (parse_elements d (c # cs))"
  by (subst parse_elements.simps) (use assms in simp)

lemma parse_members_last:
  assumes "key_colon s = Some (k, s1)" and "parse_value d s1 = Some (v, CHR ''}'' # rest)"
  shows "parse_members d s = Some ([(k, v)], rest)"
  using assms by (simp add: parse_members.simps)

lemma parse_members_more:
  assumes "key_colon s = Some (k, s1)" and "parse_value d s1 = Some (v, CHR '','' # c # cs)" and "\<not> is_space c"
    and "length cs + 1 < length s"
  shows "parse_members d s = map_option (\<lambda>(ms, rest). ((k, v) # ms, rest)) (parse_members d (c # cs))"
  by (subst parse_members.simps) (use assms in simp)

lemma render_elements_head:
  "renderable_elements d vs \<Longrightarrow> vs \<noteq> [] \<Longrightarrow> \<exists>c cs. render_elements vs = c # cs \<and> \<not> is_space c \<and> c \<noteq> CHR '']''"
  using render_head by (cases vs) fastforce+

lemma render_members_head: "ms \<noteq> [] \<Longrightarrow> \<exists>cs. render_members ms = CHR 0x22 # cs"
  by (cases ms) (auto simp: quote_json_def)

lemma parse_render:
  "renderable d v \<Longrightarrow> number_end rest \<Longrightarrow> parse_value d (render v @ rest) = Some (clean_json v, rest)"
  "renderable_elements d vs \<Longrightarrow> vs \<noteq> [] \<Longrightarrow>
     parse_elements d (render_elements vs @ CHR '']'' # rest) = Some (clean_elements vs, rest)"
  "renderable_members d ms \<Longrightarrow> ms \<noteq> [] \<Longrightarrow>
     parse_members d (render_members ms @ CHR ''}'' # rest) = Some (clean_members ms, rest)"
proof (induction v and vs and ms arbitrary: d rest and d rest and d rest
    rule: render_render_elements_render_members.induct)
  case (5 vs)
  then obtain e where d: "d = Suc e" by (cases d) auto
  show ?case
  proof (cases "vs = []")
    case True
    then show ?thesis using parse_value_simps(6) by (simp add: d)
  next
    case False
    then obtain c cs where "render_elements vs = c # cs" "\<not> is_space c" "c \<noteq> CHR '']''"
      using 5 render_elements_head [of e vs] by (auto simp: d)
    then show ?thesis using 5 False parse_array [of c e] by (auto simp: d)
  qed
next
  case (6 ms)
  then obtain e where d: "d = Suc e" by (cases d) auto
  show ?case
  proof (cases "ms = []")
    case True
    then show ?thesis using parse_value_simps(5) by (simp add: d)
  next
    case False
    then obtain cs where "render_members ms = CHR 0x22 # cs" using render_members_head by blast
    then show ?thesis using 6 False parse_object [of "CHR 0x22" e] by (auto simp: d)
  qed
next
  case (8 v vs)
  show ?case
  proof (cases "vs = []")
    case True
    then show ?thesis using 8 by (simp add: parse_elements_last)
  next
    case False
    then obtain c cs where c: "render_elements vs = c # cs" "\<not> is_space c"
      using 8(3) render_elements_head [of d vs] by auto
    have "parse_value d (render v @ CHR '','' # render_elements vs @ CHR '']'' # rest) =
        Some (clean_json v, CHR '','' # render_elements vs @ CHR '']'' # rest)"
      using 8 by simp
    from parse_elements_more [OF this [unfolded c append_Cons] c(2)] show ?thesis
      using 8 False by (simp add: c)
  qed
next
  case (10 k v ms)
  have v: "renderable d v" using 10(3) by simp
  obtain c cs where c: "render v = c # cs" "\<not> is_space c" using render_head [OF v] by blast
  show ?case
  proof (cases "ms = []")
    case True
    then show ?thesis
      using 10(1) [OF v, of "CHR ''}'' # rest"]
      by (auto simp: c intro!: parse_members_last [OF key_colon_quote [OF c(2)]])
  next
    case False
    obtain x where x: "render_members ms = CHR 0x22 # x" using render_members_head [OF False] by blast
    have "parse_value d (c # cs @ CHR '','' # CHR 0x22 # x @ CHR ''}'' # rest) =
        Some (clean_json v, CHR '','' # CHR 0x22 # x @ CHR ''}'' # rest)"
      using 10(1) [OF v, of "CHR '','' # CHR 0x22 # x @ CHR ''}'' # rest"] by (simp add: c)
    from parse_members_more [OF key_colon_quote [OF c(2), of k] this] show ?thesis
      using 10 False by (simp add: c x)
  qed
qed (use parse_value_simps in \<open>auto simp: quote_json_def unquote_quote_body number_append parse_number\<close>)

subsection \<open>The scanner ends\<close>

lemma number_parts_length:
  "digits1 s = Some (t, r) \<Longrightarrow> length r < length s"
  "int_part s = Some (t, r) \<Longrightarrow> length r < length s"
  "frac_part s = Some (t, r) \<Longrightarrow> length r \<le> length s"
  "exp_part s = Some (t, r) \<Longrightarrow> length r \<le> length s"
proof -
  show d: "digits1 s = Some (t, r) \<Longrightarrow> length r < length s" for s t r
    by (cases s) (auto simp: digits1_def Let_def length_dropWhile_le less_Suc_eq_le split: if_splits)
  show "int_part s = Some (t, r) \<Longrightarrow> length r < length s"
    by (auto simp: int_part_def dest: d split: list.splits if_splits)
  show "frac_part s = Some (t, r) \<Longrightarrow> length r \<le> length s"
    by (auto simp: frac_part_def after_Some dest: d split: list.splits if_splits)
  show "exp_part s = Some (t, r) \<Longrightarrow> length r \<le> length s"
    by (auto simp: exp_part_def after_Some dest!: d split: list.splits if_splits)
qed

lemma number_length: "number s = Some (t, r) \<Longrightarrow> length r < length s"
proof -
  have u: "unsigned s = Some (t, r) \<Longrightarrow> length r < length s" for s t r
    by (auto simp: unsigned_def after_Some dest!: number_parts_length split: option.splits)
  assume "number s = Some (t, r)"
  then show ?thesis by (auto simp: number_def after_Some dest!: u split: list.splits if_splits)
qed

lemma literal_length: "literal (w # ws) v s = Some (v', r) \<Longrightarrow> length r < length s"
  by (cases s) (auto simp: literal_def split: if_splits)

lemma parse_lengths:
  "parse_value d s = Some (v, rest) \<Longrightarrow> length rest < length s"
  "parse_elements d s = Some (vs, rest) \<Longrightarrow> length rest < length s"
  "parse_members d s = Some (ms, rest) \<Longrightarrow> length rest < length s"
proof (induction d s and d s and d s arbitrary: v rest and vs rest and ms rest
    rule: parse_value_parse_elements_parse_members.induct)
  case (1 d)
  then show ?case by (simp add: parse_value.simps)
next
  case (2 d c cs)
  note skip = skip_space_length [of cs]
  from 2 skip show ?case
    by (auto simp: parse_value.simps(2) dest!: unquote_length skip_space_Cons number_length literal_length
          split: if_splits list.splits) fastforce+
next
  case (3 d s)
  from 3(3) obtain v r x xs where v: "parse_value d s = Some (v, r)" and r: "skip_space r = x # xs"
      and "rest = xs \<or> (\<exists>vs'. x = CHR '','' \<and> length xs < length s \<and> parse_elements d (skip_space xs) = Some (vs', rest))"
    by (auto simp: parse_elements.simps [of d s] split: option.splits list.splits if_splits)
  then show ?case
    using 3(1) [OF v] 3(2) [OF v _ r] skip_space_Cons [OF r] skip_space_length [of xs] by fastforce
next
  case (4 d s)
  from 4(3) obtain k s1 v r x xs where k: "key_colon s = Some (k, s1)" and v: "parse_value d s1 = Some (v, r)"
      and r: "skip_space r = x # xs"
      and "rest = xs \<or> (\<exists>ms'. x = CHR '','' \<and> length xs < length s \<and> parse_members d (skip_space xs) = Some (ms', rest))"
    by (auto simp: parse_members.simps [of d s] split: option.splits list.splits if_splits)
  then show ?case
    using 4(1) [OF k _ v] 4(2) [OF k _ v _ r] key_colon_length [OF k] skip_space_Cons [OF r] skip_space_length [of xs]
    by fastforce
qed

lemma parse_elements_eq:
  "parse_elements d s =
     (case parse_value d s of
        None \<Rightarrow> None
      | Some (v, rest) \<Rightarrow>
          (case skip_space rest of
             [] \<Rightarrow> None
           | x # xs \<Rightarrow>
               if x = CHR '']'' then Some ([v], xs)
               else if x = CHR '','' then map_option (\<lambda>(vs, rest'). (v # vs, rest')) (parse_elements d (skip_space xs))
               else None))"
  using parse_lengths(1) [of d s]
  by (auto simp: parse_elements.simps [of d s] dest!: skip_space_Cons split: option.split list.split)

lemma parse_members_eq:
  "parse_members d s =
     (case key_colon s of
        None \<Rightarrow> None
      | Some (k, s1) \<Rightarrow>
          (case parse_value d s1 of
             None \<Rightarrow> None
           | Some (v, rest) \<Rightarrow>
               (case skip_space rest of
                  [] \<Rightarrow> None
                | x # xs \<Rightarrow>
                    if x = CHR ''}'' then Some ([(k, v)], xs)
                    else if x = CHR '',''
                      then map_option (\<lambda>(ms, rest'). ((k, v) # ms, rest')) (parse_members d (skip_space xs))
                    else None)))"
  using parse_lengths(1) [of d] key_colon_length [of s]
  by (auto simp: parse_members.simps [of d s] dest!: skip_space_Cons split: option.split list.split) fastforce

subsection \<open>Structs\<close>

datatype 'a slot =
    StringSlot "string \<Rightarrow> 'a \<Rightarrow> 'a"
  | Int64Slot "int64 \<Rightarrow> 'a \<Rightarrow> 'a"
  | StructSlot "(string \<times> json) list \<Rightarrow> 'a \<Rightarrow> 'a option"
  | SliceSlot "json list \<Rightarrow> 'a \<Rightarrow> 'a option" "'a \<Rightarrow> 'a"

primrec store_value :: "'a slot \<Rightarrow> json \<Rightarrow> 'a \<Rightarrow> 'a option" where
  \<comment> \<open>\<open>None\<close>: an \<open>UnmarshalTypeError\<close>\<close>
  "store_value (StringSlot f) v a =
     (case v of JNull \<Rightarrow> Some a | JString s \<Rightarrow> Some (f s a) | _ \<Rightarrow> None)"
| "store_value (Int64Slot f) v a =
     (case v of JNull \<Rightarrow> Some a | JNumber t \<Rightarrow> map_option (\<lambda>n. f n a) (parse_int64 t) | _ \<Rightarrow> None)"
| "store_value (StructSlot g) v a =
     (case v of JNull \<Rightarrow> Some a | JObject ms \<Rightarrow> g ms a | _ \<Rightarrow> None)"
| "store_value (SliceSlot g none) v a =
     (case v of JNull \<Rightarrow> Some (none a) | JArray vs \<Rightarrow> g vs a | _ \<Rightarrow> None)"

type_synonym 'a members = "(string \<times> 'a slot) list"

definition upper :: "nat \<Rightarrow> nat" where
  "upper b = (if 97 \<le> b \<and> b \<le> 122 then b - 32 else b)"

function fold_bytes :: "nat list \<Rightarrow> nat list" where
  "fold_bytes [] = []"
| "fold_bytes (b # bs) =
     (if b = 197 \<and> take 1 bs = [191] then 83 # fold_bytes (drop 1 bs)
      else if b = 226 \<and> take 2 bs = [132, 170] then 75 # fold_bytes (drop 2 bs)
      else upper b # fold_bytes bs)"
  by pat_completeness auto
termination by (relation "measure length") auto

definition fold_name :: "string \<Rightarrow> nat list" where
  \<comment> \<open>\<open>foldName\<close>, on names of UTF-8, as far as its result can be that of a name in ASCII: besides the ASCII
    letters, U+017F is folded to S and U+212A to K\<close>
  "fold_name s = fold_bytes (map of_char s)"

definition find_slot :: "'a members \<Rightarrow> string \<Rightarrow> 'a slot option" where
  "find_slot fields key =
     (case map_of fields key of
        Some sl \<Rightarrow> Some sl
      | None \<Rightarrow> map_option snd (List.find (\<lambda>(name, _). fold_name name = fold_name key) fields))"

fun store_members :: "'a members \<Rightarrow> (string \<times> json) list \<Rightarrow> 'a \<Rightarrow> 'a option" where
  "store_members fields [] a = Some a"
| "store_members fields ((k, v) # ms) a =
     (case find_slot fields k of
        None \<Rightarrow> store_members fields ms a
      | Some sl \<Rightarrow> (case store_value sl v a of None \<Rightarrow> None | Some b \<Rightarrow> store_members fields ms b))"

fun store_elements :: "'a members \<Rightarrow> 'a \<Rightarrow> json list \<Rightarrow> 'a list \<Rightarrow> 'a list option" where
  \<comment> \<open>an array of structs is decoded over the elements the memory of the slice already holds\<close>
  "store_elements fields zero [] old = Some []"
| "store_elements fields zero (v # vs) old =
     (case store_value (StructSlot (store_members fields)) v (case old of [] \<Rightarrow> zero | x # _ \<Rightarrow> x) of
        None \<Rightarrow> None
      | Some x \<Rightarrow> map_option (Cons x) (store_elements fields zero vs (tl old)))"

definition store_slice ::
  "'a members \<Rightarrow> 'a \<Rightarrow> json list \<Rightarrow> 'a list \<times> 'a list \<Rightarrow> ('a list \<times> 'a list) option" where
  \<comment> \<open>a slice is its elements, and what its memory holds behind them from an earlier, longer array; an empty
    array makes a new slice\<close>
  "store_slice fields zero vs sl =
     (let old = fst sl @ snd sl
      in map_option (\<lambda>xs. (xs, if xs = [] then [] else drop (length xs) old)) (store_elements fields zero vs old))"

definition decode_struct :: "'a members \<Rightarrow> 'a \<Rightarrow> json \<Rightarrow> 'a option" where
  "decode_struct fields zero v = store_value (StructSlot (store_members fields)) v zero"

definition max_nesting :: nat where
  "max_nesting = 10000"

definition decode_stream :: "'a members \<Rightarrow> 'a \<Rightarrow> string \<Rightarrow> 'a option" where
  \<comment> \<open>\<open>json.NewDecoder (r).Decode (&v)\<close> of a new \<open>v\<close>\<close>
  "decode_stream fields zero s =
     (case parse_value max_nesting (skip_space s) of
        None \<Rightarrow> None
      | Some (v, _) \<Rightarrow> decode_struct fields zero v)"

definition unmarshal :: "'a members \<Rightarrow> 'a \<Rightarrow> string \<Rightarrow> 'a option" where
  \<comment> \<open>\<open>json.Unmarshal (s, &v)\<close> of a new \<open>v\<close>\<close>
  "unmarshal fields zero s =
     (case parse_value max_nesting (skip_space s) of
        None \<Rightarrow> None
      | Some (v, rest) \<Rightarrow> if skip_space rest = [] then decode_struct fields zero v else None)"

definition omit_empty :: "string \<Rightarrow> string \<Rightarrow> (string \<times> json) list" where
  \<comment> \<open>a string field tagged \<open>omitempty\<close>\<close>
  "omit_empty name s = (if s = [] then [] else [(name, JString s)])"

definition omit_zero :: "string \<Rightarrow> int64 \<Rightarrow> (string \<times> json) list" where
  \<comment> \<open>an integer field tagged \<open>omitempty\<close>\<close>
  "omit_zero name n = (if n = 0 then [] else [(name, JNumber (format_int64 n))])"

lemma decode_rendered:
  assumes "renderable_members (max_nesting - 1) ms" and "number_end rest"
  shows "decode_stream fields zero (render (JObject ms) @ rest) = store_members fields (clean_members ms) zero"
    and "skip_space rest = [] \<Longrightarrow>
           unmarshal fields zero (render (JObject ms) @ rest) = store_members fields (clean_members ms) zero"
proof -
  have "renderable max_nesting (JObject ms)" using assms(1) by (simp add: max_nesting_def)
  from parse_render(1) [OF this assms(2)]
  have "parse_value max_nesting (skip_space (render (JObject ms) @ rest)) = Some (JObject (clean_members ms), rest)"
    by simp
  then show "decode_stream fields zero (render (JObject ms) @ rest) = store_members fields (clean_members ms) zero"
    and "skip_space rest = [] \<Longrightarrow>
           unmarshal fields zero (render (JObject ms) @ rest) = store_members fields (clean_members ms) zero"
    by (simp_all add: decode_stream_def unmarshal_def decode_struct_def)
qed

lemma unmarshal_decodes: "unmarshal fields zero s = Some a \<Longrightarrow> decode_stream fields zero s = Some a"
  by (auto simp: unmarshal_def decode_stream_def split: option.splits if_splits)

subsection \<open>A struct with fewer fields\<close>

locale fewer_fields =
  fixes few :: "'b members" and many :: "'a members" and proj :: "'a \<Rightarrow> 'b"
  assumes shared: "find_slot many k = Some sl \<Longrightarrow> store_value sl v a = Some a' \<Longrightarrow>
      (case find_slot few k of None \<Rightarrow> proj a' = proj a | Some sl' \<Rightarrow> store_value sl' v (proj a) = Some (proj a'))"
    and other: "find_slot many k = None \<Longrightarrow> find_slot few k = None"
begin

lemma store_fewer: "store_members many ms a = Some a' \<Longrightarrow> store_members few ms (proj a) = Some (proj a')"
proof (induction ms arbitrary: a)
  case (Cons m ms)
  obtain k v where m: "m = (k, v)" by (cases m)
  show ?case
  proof (cases "find_slot many k")
    case None
    with Cons other show ?thesis by (simp add: m)
  next
    case (Some sl)
    with Cons.prems obtain b where b: "store_value sl v a = Some b" "store_members many ms b = Some a'"
      by (auto simp: m split: option.splits)
    show ?thesis
      using Cons.IH [OF b(2)] shared [OF Some b(1)] by (cases "find_slot few k") (simp_all add: m)
  qed
qed simp

lemma decode_fewer:
  "decode_stream many zero s = Some a \<Longrightarrow> decode_stream few (proj zero) s = Some (proj a)"
  using store_fewer by (auto simp: decode_stream_def decode_struct_def split: option.splits json.splits)

end

end
