(* ===== verification/Provider.thy ===== *)
theory Provider
  imports Json
begin

text \<open>
  The GitHub provider: \<^verbatim>\<open>shared/go/provider/github\<close> (webhook validation).

  \<open>webhook_event\<close> and \<open>push_payload\<close> are the structs \<open>WebhookEvent\<close> and \<open>PushPayload\<close> (the
  latter with its nested structs flattened).  \<open>validate_webhook\<close> is the method
  \<open>ClientHandler.ValidateWebhook\<close>; the keyed hash is an argument.  \<open>parse_payload\<close> is \<open>ParsePayload\<close>;
  the texts of its errors, which only the log shows, are not modelled.
\<close>

record webhook_event =
  ev_event_type :: string
  ev_action :: string
  ev_repo_id :: int64
  ev_repo_name :: string
  ev_clone_url :: string
  ev_branch :: string
  ev_commit :: string
  ev_installation :: int64

record push_payload =
  pp_ref :: string
  pp_after :: string
  pp_action :: string
  pp_repo_id :: int64
  pp_repo_full_name :: string
  pp_repo_clone_url :: string
  pp_installation_id :: int64

datatype webhook_error = ErrInvalidSignature | ErrParsePayload

definition repository_members :: "push_payload members" where
  \<comment> \<open>the struct \<open>ClonedRepo\<close>\<close>
  "repository_members =
     [(''id'', Int64Slot (\<lambda>n p. p\<lparr>pp_repo_id := n\<rparr>)),
      (''full_name'', StringSlot (\<lambda>s p. p\<lparr>pp_repo_full_name := s\<rparr>)),
      (''clone_url'', StringSlot (\<lambda>s p. p\<lparr>pp_repo_clone_url := s\<rparr>))]"

definition installation_members :: "push_payload members" where
  \<comment> \<open>the struct \<open>Installation\<close>\<close>
  "installation_members = [(''id'', Int64Slot (\<lambda>n p. p\<lparr>pp_installation_id := n\<rparr>))]"

definition push_members :: "push_payload members" where
  "push_members =
     [(''ref'', StringSlot (\<lambda>s p. p\<lparr>pp_ref := s\<rparr>)),
      (''after'', StringSlot (\<lambda>s p. p\<lparr>pp_after := s\<rparr>)),
      (''action'', StringSlot (\<lambda>s p. p\<lparr>pp_action := s\<rparr>)),
      (''repository'', StructSlot (store_members repository_members)),
      (''installation'', StructSlot (store_members installation_members))]"

definition parse_payload :: "string \<Rightarrow> push_payload option" where
  "parse_payload payload =
     unmarshal push_members
       \<lparr>pp_ref = [], pp_after = [], pp_action = [], pp_repo_id = 0, pp_repo_full_name = [],
        pp_repo_clone_url = [], pp_installation_id = 0\<rparr>
       payload"

definition branch_from_ref :: "string \<Rightarrow> string" where
  "branch_from_ref ref = trim_prefix ref ''refs/heads/''"

definition expected_signature :: "(string \<Rightarrow> string \<Rightarrow> string) \<Rightarrow> string \<Rightarrow> string \<Rightarrow> string" where
  "expected_signature hmac secret payload = ''sha256='' @ hex_encode (hmac secret payload)"

definition validate_webhook ::
  "(string \<Rightarrow> string \<Rightarrow> string) \<Rightarrow> string \<Rightarrow> string \<Rightarrow> string \<Rightarrow> string \<Rightarrow> webhook_error + webhook_event" where
  "validate_webhook hmac secret payload signature event_type =
     (if expected_signature hmac secret payload \<noteq> signature then Inl ErrInvalidSignature
      else case parse_payload payload of
        None \<Rightarrow> Inl ErrParsePayload
      | Some p \<Rightarrow>
          Inr \<lparr>ev_event_type = event_type, ev_action = pp_action p, ev_repo_id = pp_repo_id p,
               ev_repo_name = pp_repo_full_name p, ev_clone_url = pp_repo_clone_url p,
               ev_branch = branch_from_ref (pp_ref p), ev_commit = pp_after p,
               ev_installation = pp_installation_id p\<rparr>)"

lemma validate_webhook_Inr:
  "validate_webhook hmac secret payload sig et = Inr ev \<Longrightarrow>
     sig = expected_signature hmac secret payload \<and> ev_event_type ev = et \<and>
     (\<exists>p. parse_payload payload = Some p \<and> ev_branch ev = branch_from_ref (pp_ref p) \<and>
          ev_commit ev = pp_after p \<and> ev_repo_id ev = pp_repo_id p)"
  by (auto simp: validate_webhook_def split: if_splits option.splits)

lemma validate_webhook_bad_signature:
  "validate_webhook hmac secret payload sig et = Inl ErrInvalidSignature \<longleftrightarrow>
     sig \<noteq> expected_signature hmac secret payload"
  by (auto simp: validate_webhook_def split: option.splits)

end
