(* ===== verification/Engine.thy ===== *)
theory Engine
  imports Json
begin

text \<open>
  Task dispatch: \<^verbatim>\<open>api/internal/engine\<close>.

  \<open>enqueuer\<close> has one constructor per implementation of the interface \<open>TaskEnqueuer\<close>; \<open>enqueue\<close>
  is the method \<open>Enqueue\<close> of each.  The Cloud Tasks queue is the list of the tasks created in
  it; the argument \<open>fault\<close> is the error of the \<open>CreateTask\<close> call, if it fails.  The locale
  \<open>task_enqueuer\<close> is what \<open>HandlePush\<close> may rely on whichever of them it holds.
\<close>

record cloud_tasks_config =
  ct_project :: string
  ct_location :: string
  ct_queue :: string
  ct_worker_url :: string
  ct_service_account :: string

record cloud_task =
  task_parent :: string
  task_deadline_minutes :: nat
  task_url :: string
  task_content_type :: string
  task_job_id :: string
  task_job_token :: string
  task_account :: string
  task_audience :: string

datatype enqueuer = NoopEnqueuer | CloudTasksEnqueuer cloud_tasks_config

definition queue_path :: "cloud_tasks_config \<Rightarrow> string" where
  "queue_path cfg =
     ''projects/'' @ ct_project cfg @ ''/locations/'' @ ct_location cfg @ ''/queues/'' @ ct_queue cfg"

definition task_body :: "cloud_task \<Rightarrow> string" where
  \<comment> \<open>the body of the task's request: \<open>json.Marshal\<close> of a map with these two keys\<close>
  "task_body t = render (JObject [(''job_id'', JString (task_job_id t)), (''job_token'', JString (task_job_token t))])"

definition new_cloud_tasks_enqueuer :: "cloud_tasks_config \<Rightarrow> string option \<Rightarrow> string + enqueuer" where
  \<comment> \<open>\<open>fault\<close>: the failure of creating the service's client\<close>
  [simp]: "new_cloud_tasks_enqueuer cfg fault =
     (case fault of
        Some e \<Rightarrow> Inl (''create cloud tasks client: '' @ e)
      | None \<Rightarrow> Inr (CloudTasksEnqueuer cfg))"

definition create_task_request :: "cloud_tasks_config \<Rightarrow> string \<Rightarrow> string \<Rightarrow> cloud_task" where
  "create_task_request cfg job_id job_token =
     \<lparr>task_parent = queue_path cfg,
      task_deadline_minutes = 20,
      task_url = ct_worker_url cfg @ ''/run'',
      task_content_type = ''application/json'',
      task_job_id = job_id,
      task_job_token = job_token,
      task_account = ct_service_account cfg,
      task_audience = ct_worker_url cfg\<rparr>"

definition noop_enqueue :: "string \<Rightarrow> string \<Rightarrow> cloud_task list \<Rightarrow> string option \<times> cloud_task list" where
  "noop_enqueue job_id job_token queue = (None, queue)"

definition cloud_tasks_enqueue ::
  "cloud_tasks_config \<Rightarrow> string option \<Rightarrow> string \<Rightarrow> string \<Rightarrow> cloud_task list \<Rightarrow> string option \<times> cloud_task list"
where
  "cloud_tasks_enqueue cfg fault job_id job_token queue =
     (case fault of
        Some m \<Rightarrow> (Some (''create cloud task: '' @ m), queue)
      | None \<Rightarrow> (None, queue @ [create_task_request cfg job_id job_token]))"

definition enqueue ::
  "enqueuer \<Rightarrow> string option \<Rightarrow> string \<Rightarrow> string \<Rightarrow> cloud_task list \<Rightarrow> string option \<times> cloud_task list"
where
  \<comment> \<open>the call through the interface\<close>
  "enqueue e fault job_id job_token queue =
     (case e of
        NoopEnqueuer \<Rightarrow> noop_enqueue job_id job_token queue
      | CloudTasksEnqueuer cfg \<Rightarrow> cloud_tasks_enqueue cfg fault job_id job_token queue)"

lemmas enqueue_defs = enqueue_def noop_enqueue_def cloud_tasks_enqueue_def

lemma create_task_request_simps [simp]:
  "task_job_id (create_task_request cfg i t) = i"
  "task_job_token (create_task_request cfg i t) = t"
  by (simp_all add: create_task_request_def)

text \<open>
  The contract of the interface \<open>TaskEnqueuer\<close>: a call adds at most one task, for this job and with this
  token, and none if it fails.
\<close>

locale task_enqueuer =
  fixes enq :: "string \<Rightarrow> string \<Rightarrow> cloud_task list \<Rightarrow> string option \<times> cloud_task list"
  assumes enq_adds:
      "enq i t q = (res, q') \<Longrightarrow>
         \<exists>ts. q' = q @ ts \<and> length ts \<le> 1 \<and> (\<forall>x \<in> set ts. task_job_id x = i \<and> task_job_token x = t)"
    and enq_failed: "enq i t q = (Some e, q') \<Longrightarrow> q' = q"
begin

lemma enq_mono: "set q \<subseteq> set (snd (enq i t q))"
  using enq_adds [of i t q "fst (enq i t q)" "snd (enq i t q)"] by auto

lemma enq_task:
  "x \<in> set (snd (enq i t q)) \<Longrightarrow> x \<in> set q \<or> task_job_id x = i \<and> task_job_token x = t"
  using enq_adds [of i t q "fst (enq i t q)" "snd (enq i t q)"] by auto

lemma enq_length: "length (snd (enq i t q)) \<le> Suc (length q)"
  using enq_adds [of i t q "fst (enq i t q)" "snd (enq i t q)"] by auto

end

interpretation noop: task_enqueuer noop_enqueue
  by unfold_locales (simp_all add: noop_enqueue_def)

interpretation cloud: task_enqueuer "cloud_tasks_enqueue cfg fault" for cfg fault
  by unfold_locales (auto simp: cloud_tasks_enqueue_def split: option.splits)

interpretation tasks: task_enqueuer "enqueue e fault" for e fault
  by unfold_locales
     (use noop.enq_adds cloud.enq_adds noop.enq_failed cloud.enq_failed
       in \<open>auto simp: enqueue_def split: enqueuer.splits\<close>)

end
