(* ===== verification/JobToken.thy ===== *)
theory JobToken
  imports GoStrings
begin

text \<open>
  Signed job tokens: \<^verbatim>\<open>shared/go/jobtoken/jobtoken.go\<close>.

  \<open>signer\<close> is the struct \<open>Signer\<close>, \<open>sign_token\<close> and \<open>validate_token\<close> the package functions
  \<open>sign\<close> and \<open>validate\<close>, \<open>signer_sign\<close> and \<open>signer_validate\<close> the methods \<open>Sign\<close> and
  \<open>Validate\<close>.  The keyed hash (HMAC-SHA256) is the argument \<open>hmac\<close>, any function of a key and a
  message: nothing here relies on a cryptographic property, and \<open>forged_token_collision\<close> says
  what an attacker would have to find.  The clock reading \<open>time.Now()\<close> is an argument.

  The locale \<open>token_scheme\<close> is what the callers of a signer rely on (the API client, the
  token middleware, the task handler); it is interpreted on the signer of this file.
\<close>

subsection \<open>The signer\<close>

record signer =
  sg_key :: string
  sg_prev :: "string option"
  sg_ttl :: nanos

datatype token_error = ErrInvalidToken | ErrTokenExpired

definition new_signer :: "string \<Rightarrow> nanos \<Rightarrow> signer" where
  "new_signer key ttl = \<lparr>sg_key = key, sg_prev = None, sg_ttl = ttl\<rparr>"

definition with_previous_key :: "signer \<Rightarrow> string \<Rightarrow> signer" where
  "with_previous_key s prev = \<lparr>sg_key = sg_key s, sg_prev = Some prev, sg_ttl = sg_ttl s\<rparr>"

definition unix :: "nanos \<Rightarrow> int64" where
  \<comment> \<open>\<open>Time.Unix\<close>: whole seconds since the epoch as an \<open>int64\<close>\<close>
  "unix t = word_of_int (t div 1000000000)"

definition token_payload :: "string \<Rightarrow> int64 \<Rightarrow> string" where
  "token_payload jobID expiry = jobID @ '':'' @ format_int64 expiry"

definition sign_token :: "(string \<Rightarrow> string \<Rightarrow> string) \<Rightarrow> string \<Rightarrow> string \<Rightarrow> int64 \<Rightarrow> string" where
  "sign_token hmac key jobID expiry =
     (let sig = hex_encode (hmac key (token_payload jobID expiry))
      in sig @ '':'' @ format_int64 expiry)"

definition validate_token ::
  "(string \<Rightarrow> string \<Rightarrow> string) \<Rightarrow> nanos \<Rightarrow> string \<Rightarrow> string \<Rightarrow> string \<Rightarrow> token_error option" where
  "validate_token hmac now key jobID token =
     (case split_n2 CHR '':'' token of
        [_, expiryStr] \<Rightarrow>
          (case parse_int64 expiryStr of
             None \<Rightarrow> Some ErrInvalidToken
           | Some expiry \<Rightarrow>
               if token \<noteq> sign_token hmac key jobID expiry then Some ErrInvalidToken
               else if sint (unix now) > sint expiry then Some ErrTokenExpired
               else None)
      | _ \<Rightarrow> Some ErrInvalidToken)"

definition signer_sign :: "(string \<Rightarrow> string \<Rightarrow> string) \<Rightarrow> signer \<Rightarrow> nanos \<Rightarrow> string \<Rightarrow> string" where
  "signer_sign hmac s now jobID = sign_token hmac (sg_key s) jobID (unix (now + sg_ttl s))"

definition signer_validate ::
  "(string \<Rightarrow> string \<Rightarrow> string) \<Rightarrow> signer \<Rightarrow> nanos \<Rightarrow> string \<Rightarrow> string \<Rightarrow> token_error option" where
  "signer_validate hmac s now jobID token =
     (case validate_token hmac now (sg_key s) jobID token of
        None \<Rightarrow> None
      | Some err \<Rightarrow>
          (case sg_prev s of
             Some prev \<Rightarrow>
               if err = ErrInvalidToken then validate_token hmac now prev jobID token
               else Some err
           | None \<Rightarrow> Some err))"

subsection \<open>Tokens determine their expiry and their digest\<close>

lemma sign_token_split:
  "split_n2 CHR '':'' (sign_token hmac k j e) =
     [hex_encode (hmac k (token_payload j e)), format_int64 e]"
  by (simp add: sign_token_def split_n2_join)

lemma sign_token_not_Nil [simp]: "sign_token hmac k j e \<noteq> []"
  by (simp add: sign_token_def)

lemma sign_token_eq:
  "sign_token hmac k j e = sign_token hmac' k' j' e' \<longleftrightarrow>
     e = e' \<and> hmac k (token_payload j e) = hmac' k' (token_payload j' e')"
proof
  assume "sign_token hmac k j e = sign_token hmac' k' j' e'"
  then have "split_n2 CHR '':'' (sign_token hmac k j e) = split_n2 CHR '':'' (sign_token hmac' k' j' e')"
    by (rule arg_cong)
  then show "e = e' \<and> hmac k (token_payload j e) = hmac' k' (token_payload j' e')"
    by (auto simp: sign_token_split)
qed (auto simp: sign_token_def)

lemma token_payload_inj: "token_payload j e = token_payload j' e' \<longleftrightarrow> j = j' \<and> e = e'"
proof
  assume "token_payload j e = token_payload j' e'"
  then have "j @ CHR '':'' # format_int64 e = j' @ CHR '':'' # format_int64 e'"
    by (simp add: token_payload_def)
  then show "j = j' \<and> e = e'"
    using last_separator_inj [of j "CHR '':''" "format_int64 e" j' "format_int64 e'"] by simp
qed simp

subsection \<open>Validation against one key\<close>

lemma validate_token_signed:
  "validate_token hmac now k j (sign_token hmac k j e) =
     (if sint e < sint (unix now) then Some ErrTokenExpired else None)"
  by (simp add: validate_token_def sign_token_split)

lemma validate_token_other:
  assumes "\<And>e. tok \<noteq> sign_token hmac k j e"
  shows "validate_token hmac now k j tok = Some ErrInvalidToken"
  using assms by (auto simp: validate_token_def split: list.splits option.splits)

lemma validate_token_cases:
  obtains (signed) e where "tok = sign_token hmac k j e"
      and "validate_token hmac now k j tok =
             (if sint e < sint (unix now) then Some ErrTokenExpired else None)"
  | (other) "\<And>e. tok \<noteq> sign_token hmac k j e"
      and "validate_token hmac now k j tok = Some ErrInvalidToken"
  using validate_token_signed validate_token_other by metis

subsection \<open>Validation with key rotation\<close>

definition signer_keys :: "signer \<Rightarrow> string list" where
  "signer_keys s = sg_key s # (case sg_prev s of None \<Rightarrow> [] | Some p \<Rightarrow> [p])"

lemma signer_validate_none:
  "signer_validate hmac s now j tok = None \<longleftrightarrow>
     (\<exists>k \<in> set (signer_keys s). validate_token hmac now k j tok = None)"
proof (cases rule: validate_token_cases [of tok hmac "sg_key s" j now])
  case (signed e)
  have "validate_token hmac now p j tok = None \<Longrightarrow> \<not> sint e < sint (unix now)" for p
    by (cases rule: validate_token_cases [of tok hmac p j now])
       (auto simp: signed(1) sign_token_eq)
  with signed(2) show ?thesis
    by (auto simp: signer_validate_def signer_keys_def split: option.splits if_splits)
next
  case other
  then show ?thesis
    by (auto simp: signer_validate_def signer_keys_def split: option.splits)
qed

lemma valid_unix:
  "- (2 ^ 63) \<le> t div 1000000000 \<Longrightarrow> t div 1000000000 < 2 ^ 63 \<Longrightarrow>
     sint (unix t) = t div 1000000000"
  by (simp add: unix_def sint_sbintrunc' signed_take_bit_int_eq_self)

definition valid_time :: "nanos \<Rightarrow> bool" where
  "valid_time t \<longleftrightarrow> - (2 ^ 63) \<le> t div 1000000000 \<and> t div 1000000000 < 2 ^ 63"

lemma signer_validate_signed:
  "signer_validate hmac s now j (sign_token hmac (sg_key s) j e) =
     (if sint e < sint (unix now) then Some ErrTokenExpired else None)"
  by (simp add: signer_validate_def validate_token_signed split: option.splits)

subsection \<open>What the users of a signer rely on\<close>

locale token_scheme =
  fixes sign :: "nanos \<Rightarrow> string \<Rightarrow> string"
    and validate :: "nanos \<Rightarrow> string \<Rightarrow> string \<Rightarrow> token_error option"
    and ttl :: nanos
    and ok_time :: "nanos \<Rightarrow> bool"
  assumes sign_accepted:
      "ok_time t' \<Longrightarrow> ok_time (t + ttl) \<Longrightarrow> t' \<le> t + ttl \<Longrightarrow> validate t' j (sign t j) = None"
    and sign_expires:
      "ok_time t' \<Longrightarrow> ok_time (t + ttl) \<Longrightarrow> t + ttl + 1000000000 \<le> t' \<Longrightarrow>
         validate t' j (sign t j) = Some ErrTokenExpired"
    and sign_nonempty: "sign t j \<noteq> []"
begin

lemma accepted_while_fresh:
  assumes "ok_time t1" and "ok_time (t + ttl)" and "0 \<le> d" and "t1 + d \<le> t + ttl" and "ok_time (t1 + d)"
  shows "validate t1 j (sign t j) = None \<and> validate (t1 + d) j (sign t j) = None"
  using assms by (auto intro!: sign_accepted)

end

lemma unix_after_ttl:
  assumes "valid_time t'" and "valid_time u"
  shows "t' \<le> u \<Longrightarrow> \<not> sint (unix u) < sint (unix t')"
    and "u + 1000000000 \<le> t' \<Longrightarrow> sint (unix u) < sint (unix t')"
  using assms by (simp_all add: valid_time_def valid_unix zdiv_mono1 not_less)

interpretation signer_tokens:
  token_scheme "signer_sign hmac s" "signer_validate hmac s" "sg_ttl s" valid_time
  for hmac s
proof unfold_locales
  fix t' t j
  assume "valid_time t'" and "valid_time (t + sg_ttl s)"
  note after = unix_after_ttl [OF this]
  show "signer_validate hmac s t' j (signer_sign hmac s t j) = None" if "t' \<le> t + sg_ttl s"
    using after(1) [OF that] by (simp add: signer_sign_def signer_validate_signed)
  show "signer_validate hmac s t' j (signer_sign hmac s t j) = Some ErrTokenExpired"
    if "t + sg_ttl s + 1000000000 \<le> t'"
    using after(2) [OF that] by (simp add: signer_sign_def signer_validate_signed)
qed (simp add: signer_sign_def)

subsection \<open>Properties\<close>

lemma validate_token_none:
  "validate_token hmac now k jobID token = None \<longleftrightarrow>
     (\<exists>expiry. token = sign_token hmac k jobID expiry \<and> sint (unix now) \<le> sint expiry)"
  by (cases rule: validate_token_cases [of token hmac k jobID now])
     (auto simp: not_less sign_token_eq)

text \<open>
  C16: A token is accepted for a job exactly when it is, byte for byte, the signature of that job
  id under the current or the previous key for some expiry the clock has not passed.  So an
  altered digest, a non-canonical or out-of-range expiry, a missing separator and an expired
  token are all refused, whatever the keyed hash.
\<close>

theorem token_accepted_iff:
  "signer_validate hmac s now jobID token = None \<longleftrightarrow>
     (\<exists>k \<in> set (signer_keys s). \<exists>expiry.
        token = sign_token hmac k jobID expiry \<and> sint (unix now) \<le> sint expiry)"
  by (simp add: signer_validate_none validate_token_none)

lemma token_roundtrip:
  assumes "valid_time t'" and "valid_time (t + sg_ttl s)"
  shows "signer_validate hmac s t' jobID (signer_sign hmac s t jobID) =
           (if t' div 1000000000 \<le> (t + sg_ttl s) div 1000000000 then None else Some ErrTokenExpired)"
  using assms by (simp add: signer_sign_def signer_validate_signed valid_time_def valid_unix not_less)

lemma token_bound_to_job:
  assumes "signer_validate hmac s now jobID' (sign_token hmac k jobID expiry) = None"
    and "jobID' \<noteq> jobID"
  shows "\<exists>k' \<in> set (signer_keys s).
           hmac k' (token_payload jobID' expiry) = hmac k (token_payload jobID expiry) \<and>
           token_payload jobID' expiry \<noteq> token_payload jobID expiry"
proof -
  obtain k' where k': "k' \<in> set (signer_keys s)"
    and v: "validate_token hmac now k' jobID' (sign_token hmac k jobID expiry) = None"
    using assms(1) by (auto simp: signer_validate_none)
  then have "\<exists>e. sign_token hmac k jobID expiry = sign_token hmac k' jobID' e"
    using validate_token_other [of "sign_token hmac k jobID expiry" hmac k' jobID' now] by auto
  with k' assms(2) show ?thesis by (force simp: sign_token_eq token_payload_inj)
qed


lemma key_rotation_accepts_both:
  "(signer_validate hmac (with_previous_key (new_signer new_key ttl) old_key) now j tok = None
      \<longleftrightarrow> signer_validate hmac (new_signer old_key ttl') now j tok = None \<or>
          signer_validate hmac (new_signer new_key ttl) now j tok = None) \<and>
   signer_sign hmac (with_previous_key (new_signer new_key ttl) old_key) now j =
     signer_sign hmac (new_signer new_key ttl) now j"
  by (auto simp: signer_validate_none signer_keys_def with_previous_key_def new_signer_def
        signer_sign_def)

end
