(* ===== verification/JobService.thy ===== *)
theory JobService
  imports Tx Provider Engine JobToken
begin

text \<open>
  Job creation with deduplication: \<^verbatim>\<open>api/internal/service/job.go\<close>.

  \<open>handle_push\<close> is the method \<open>JobService.HandlePush\<close>.  Its state is \<open>world\<close>, the database and
  the task queue; \<open>push_io\<close> holds what the outside decides during one call: the failure of each
  database call, the transaction's start time, the id of a new row, the clock read by \<open>Sign\<close>,
  and the failure of the enqueue call.  The result is the returned error (\<open>None\<close> for \<open>nil\<close>)
  and the new state.
\<close>

record world =
  w_db :: db
  w_queue :: "cloud_task list"

record push_io =
  pio_begin :: "string option"
  pio_get_repo :: "string option"
  pio_lock :: "string option"
  pio_active :: "string option"
  pio_update :: "string option"
  pio_create :: "string option"
  pio_commit :: commit_outcome
  pio_now :: pgtime
  pio_new_id :: uuid
  pio_clock :: nanos
  pio_enqueue :: "string option"

datatype push_error =
    BeginTx string
  | GetRepo pg_error
  | AcquireLock string
  | GetActiveJobs pg_error
  | UpdateCommitSha pg_error
  | CreateJobFailed pg_error
  | CommitTx string

definition handle_push ::
  "(string \<Rightarrow> string \<Rightarrow> string) \<Rightarrow> (uuid \<Rightarrow> string) \<Rightarrow> signer \<Rightarrow> enqueuer \<Rightarrow> push_io
     \<Rightarrow> webhook_event \<Rightarrow> string \<Rightarrow> world \<Rightarrow> push_error option \<times> world" where
  "handle_push hmac uuid_string signer enq io event delivery_id w =
     (let d = w_db w; now = pio_now io in
      case pio_begin io of Some m \<Rightarrow> (Some (BeginTx m), w) | None \<Rightarrow>
      (case with_fault (pio_get_repo io) (get_repo_by_github_id (ev_repo_id event) d) of
         Inl err \<Rightarrow> if err = NoRows then (None, w) else (Some (GetRepo err), w)
       | Inr repo \<Rightarrow>
      (case pio_lock io of Some m \<Rightarrow> (Some (AcquireLock m), w) | None \<Rightarrow>
      (case with_fault (pio_active io) (Inr (get_active_jobs_for_branch (rid repo) (ev_branch event) d)) of
         Inl err \<Rightarrow> (Some (GetActiveJobs err), w)
       | Inr active \<Rightarrow>
      (case List.find (\<lambda>j. jstatus j = Queued) active of
         Some j \<Rightarrow>
           (case with_fault (pio_update io) (Inr (update_job_commit_sha now (jid j) (ev_commit event) d)) of
              Inl err \<Rightarrow> (Some (UpdateCommitSha err), w)
            | Inr d' \<Rightarrow>
                (case commit_tx (pio_commit io) d d' of
                   (Some m, d'') \<Rightarrow> (Some (CommitTx m), w\<lparr>w_db := d''\<rparr>)
                 | (None, d'') \<Rightarrow> (None, w\<lparr>w_db := d''\<rparr>)))
       | None \<Rightarrow>
           (case with_fault (pio_create io)
                   (create_job now (pio_new_id io) (rid repo) (ev_branch event) (ev_commit event)
                      delivery_id d) of
              Inl err \<Rightarrow>
                if is_code err unique_violation then (None, w)
                else (Some (CreateJobFailed err), w)
            | Inr (job, d') \<Rightarrow>
                (case commit_tx (pio_commit io) d d' of
                   (Some m, d'') \<Rightarrow> (Some (CommitTx m), w\<lparr>w_db := d''\<rparr>)
                 | (None, d'') \<Rightarrow>
                     let job_id = uuid_string (jid job);
                         token = signer_sign hmac signer (pio_clock io) job_id;
                         q = snd (enqueue enq (pio_enqueue io) job_id token (w_queue w))
                     in (None, w\<lparr>w_db := d'', w_queue := q\<rparr>))))))))"

subsection \<open>Which queued job a push finds\<close>

lemma active_jobs_mem:
  "j \<in> set (get_active_jobs_for_branch r b d) \<longleftrightarrow>
     j \<in> set (jobs d) \<and> jrepo j = r \<and> jbranch j = b \<and> (jstatus j = Queued \<or> jstatus j = Running)"
  by (auto simp: get_active_jobs_for_branch_def)

lemma find_active_None:
  "List.find (\<lambda>j. jstatus j = Queued) (get_active_jobs_for_branch r b d) = None \<longleftrightarrow>
     (\<forall>j \<in> set (jobs d). \<not> queued_on r b j)"
  by (auto simp: find_None_iff active_jobs_mem queued_on_def)

lemma find_active_Some:
  "List.find (\<lambda>j. jstatus j = Queued) (get_active_jobs_for_branch r b d) = Some j \<Longrightarrow>
     j \<in> set (jobs d) \<and> queued_on r b j"
  by (drule find_SomeD) (auto simp: active_jobs_mem queued_on_def)

subsection \<open>The outcomes of a push\<close>

definition push_setup :: "push_io \<Rightarrow> webhook_event \<Rightarrow> world \<Rightarrow> repository option" where
  \<comment> \<open>the repository, when every call before the branch on the queued job succeeds\<close>
  "push_setup io ev w =
     (if pio_begin io = None \<and> pio_lock io = None \<and> pio_active io = None \<and> pio_get_repo io = None
      then case get_repo_by_github_id (ev_repo_id ev) (w_db w) of
             Inl _ \<Rightarrow> None | Inr repo \<Rightarrow> Some repo
      else None)"

lemma push_setup_Some:
  "push_setup io ev w = Some repo \<Longrightarrow>
     repo \<in> set (repositories (w_db w)) \<and> rgithub_id repo = ev_repo_id ev"
  by (auto simp: push_setup_def get_repo_by_github_id_def dest: select_one_Inr
           split: if_splits sum.splits)

lemma handle_push_no_setup:
  "push_setup io ev w = None \<Longrightarrow> snd (handle_push hmac us sg enq io ev dl w) = w"
  by (cases "pio_get_repo io"; cases "get_repo_by_github_id (ev_repo_id ev) (w_db w)")
     (auto simp: push_setup_def handle_push_def Let_def with_fault_def split: option.splits)

lemma handle_push_found:
  assumes "push_setup io ev w = Some repo"
    and "List.find (\<lambda>j. jstatus j = Queued)
           (get_active_jobs_for_branch (rid repo) (ev_branch ev) (w_db w)) = Some j"
  shows "handle_push hmac us sg enq io ev dl w =
    (case pio_update io of
       Some m \<Rightarrow> (Some (UpdateCommitSha (OtherErr m)), w)
     | None \<Rightarrow>
         (let d' = update_job_commit_sha (pio_now io) (jid j) (ev_commit ev) (w_db w) in
          case pio_commit io of
            Committed \<Rightarrow> (None, w\<lparr>w_db := d'\<rparr>)
          | CommitFailed m \<Rightarrow> (Some (CommitTx m), w)
          | CommitLost m \<Rightarrow> (Some (CommitTx m), w\<lparr>w_db := d'\<rparr>)))"
  using assms
  by (cases "pio_commit io"; cases "pio_update io")
     (auto simp: handle_push_def Let_def push_setup_def with_fault_def split: if_splits sum.splits)

lemma handle_push_fresh:
  assumes "push_setup io ev w = Some repo"
    and "List.find (\<lambda>j. jstatus j = Queued)
           (get_active_jobs_for_branch (rid repo) (ev_branch ev) (w_db w)) = None"
  shows "handle_push hmac us sg enq io ev dl w =
    (case with_fault (pio_create io) (create_job (pio_now io) (pio_new_id io) (rid repo)
            (ev_branch ev) (ev_commit ev) dl (w_db w)) of
       Inl e \<Rightarrow> if is_code e unique_violation then (None, w) else (Some (CreateJobFailed e), w)
     | Inr (j, d') \<Rightarrow>
         (case pio_commit io of
            Committed \<Rightarrow>
              (None, w\<lparr>w_db := d', w_queue := snd (enqueue enq (pio_enqueue io) (us (jid j))
                 (signer_sign hmac sg (pio_clock io) (us (jid j))) (w_queue w))\<rparr>)
          | CommitFailed m \<Rightarrow> (Some (CommitTx m), w)
          | CommitLost m \<Rightarrow> (Some (CommitTx m), w\<lparr>w_db := d'\<rparr>)))"
  using assms
  by (cases "pio_commit io")
     (auto simp: handle_push_def Let_def push_setup_def split: if_splits sum.splits)

lemma handle_push_outcomes:
  assumes "handle_push hmac us sg enq io ev dl w = (res, w')"
  obtains (unchanged) "w' = w"
  | (updated) repo j where
      "repo \<in> set (repositories (w_db w))" "rgithub_id repo = ev_repo_id ev"
      "j \<in> set (jobs (w_db w))" "queued_on (rid repo) (ev_branch ev) j"
      "w' = w\<lparr>w_db := update_job_commit_sha (pio_now io) (jid j) (ev_commit ev) (w_db w)\<rparr>"
      "res = None \<and> pio_commit io = Committed \<or> res \<noteq> None \<and> (\<exists>m. pio_commit io = CommitLost m)"
  | (created) repo j d' where
      "repo \<in> set (repositories (w_db w))" "rgithub_id repo = ev_repo_id ev"
      "\<And>x. x \<in> set (jobs (w_db w)) \<Longrightarrow> \<not> queued_on (rid repo) (ev_branch ev) x"
      "create_job (pio_now io) (pio_new_id io) (rid repo) (ev_branch ev) (ev_commit ev) dl (w_db w)
         = Inr (j, d')"
      "w' = w\<lparr>w_db := d', w_queue := snd (enqueue enq (pio_enqueue io) (us (jid j))
              (signer_sign hmac sg (pio_clock io) (us (jid j))) (w_queue w))\<rparr>"
      "res = None" "pio_commit io = Committed"
  | (created_lost) repo j d' m where
      "repo \<in> set (repositories (w_db w))" "rgithub_id repo = ev_repo_id ev"
      "\<And>x. x \<in> set (jobs (w_db w)) \<Longrightarrow> \<not> queued_on (rid repo) (ev_branch ev) x"
      "create_job (pio_now io) (pio_new_id io) (rid repo) (ev_branch ev) (ev_commit ev) dl (w_db w)
         = Inr (j, d')"
      "w' = w\<lparr>w_db := d'\<rparr>" "res \<noteq> None" "pio_commit io = CommitLost m"
proof (cases "push_setup io ev w")
  case None
  then show ?thesis using handle_push_no_setup [OF None, of hmac us sg enq dl] assms unchanged by simp
next
  case (Some repo)
  note repo = push_setup_Some [OF Some, THEN conjunct1] push_setup_Some [OF Some, THEN conjunct2]
  let ?act = "get_active_jobs_for_branch (rid repo) (ev_branch ev) (w_db w)"
  show ?thesis
  proof (cases "List.find (\<lambda>j. jstatus j = Queued) ?act")
    case found: (Some j)
    note j = find_active_Some [OF found, THEN conjunct1] find_active_Some [OF found, THEN conjunct2]
    show ?thesis
      using assms handle_push_found [OF Some found, of hmac us sg enq dl] unchanged updated [OF repo j]
      by (cases "pio_commit io") (auto simp: Let_def split: option.splits)
  next
    case None
    then have none: "\<And>x. x \<in> set (jobs (w_db w)) \<Longrightarrow> \<not> queued_on (rid repo) (ev_branch ev) x"
      by (simp add: find_active_None)
    note eq = handle_push_fresh [OF Some None, of hmac us sg enq dl, unfolded assms]
    show ?thesis
    proof (cases "with_fault (pio_create io) (create_job (pio_now io) (pio_new_id io) (rid repo)
                    (ev_branch ev) (ev_commit ev) dl (w_db w))")
      case (Inl e)
      with eq have "w' = w" by (simp split: if_splits)
      then show ?thesis by (rule unchanged)
    next
      case (Inr jd)
      obtain j d' where jd: "jd = (j, d')" by (cases jd)
      have cr: "create_job (pio_now io) (pio_new_id io) (rid repo) (ev_branch ev) (ev_commit ev) dl
                  (w_db w) = Inr (j, d')"
        using Inr jd by (simp add: with_fault_Inr)
      show ?thesis
        using eq unchanged created [OF repo none cr] created_lost [OF repo none cr]
        by (cases "pio_commit io") (simp_all add: Inr jd)
    qed
  qed
qed

subsection \<open>What every push keeps\<close>

lemma one_queued_commit_sha: "one_queued d \<Longrightarrow> one_queued (update_job_commit_sha now i c d)"
  unfolding update_job_commit_sha_def by (rule one_queued_update_jobs) auto

lemma handle_push_keeps:
  assumes "handle_push hmac us sg enq io ev dl w = (res, w')"
    and "wf_db (w_db w)" and "one_queued (w_db w)"
  shows "wf_db (w_db w') \<and> one_queued (w_db w')"
  using assms(1)
proof (cases rule: handle_push_outcomes)
  case unchanged
  then show ?thesis using assms(2,3) by simp
next
  case (updated repo j)
  then show ?thesis
    using assms(2,3) by (simp add: wf_update_job_commit_sha one_queued_commit_sha)
next
  case (created repo j d')
  then show ?thesis
    using wf_create_job [OF assms(2)] one_queued_create [OF assms(3) created(4,3)] by simp
next
  case (created_lost repo j d' m)
  then show ?thesis
    using wf_create_job [OF assms(2)] one_queued_create [OF assms(3) created_lost(4,3)] by simp
qed

lemma handle_push_queue:
  assumes "handle_push hmac us sg enq io ev dl w = (res, w')" and "t \<in> set (w_queue w')"
    and "t \<notin> set (w_queue w)"
  shows "\<exists>j \<in> set (jobs (w_db w')). jstatus j = Queued \<and> jcommit j = ev_commit ev \<and>
           jbranch j = ev_branch ev \<and> task_job_id t = us (jid j) \<and>
           task_job_token t = signer_sign hmac sg (pio_clock io) (us (jid j)) \<and> res = None"
  using assms(1)
proof (cases rule: handle_push_outcomes)
  case (created repo j d')
  have "task_job_id t = us (jid j)" and "task_job_token t = signer_sign hmac sg (pio_clock io) (us (jid j))"
    using assms(2,3) created(5) tasks.enq_task by fastforce+
  then show ?thesis using created(4-6) by (auto simp: create_job_Inr)
qed (use assms(2,3) in auto)

subsection \<open>The push as an operation on the pending commits\<close>

definition no_push_faults :: "push_io \<Rightarrow> bool" where
  "no_push_faults io \<longleftrightarrow>
     pio_begin io = None \<and> pio_get_repo io = None \<and> pio_lock io = None \<and> pio_active io = None \<and>
     pio_update io = None \<and> pio_create io = None \<and> pio_commit io = Committed"

definition new_job_ok :: "push_io \<Rightarrow> string \<Rightarrow> db \<Rightarrow> bool" where
  \<comment> \<open>the new row's id and the delivery id are not in the table yet\<close>
  "new_job_ok io dl d \<longleftrightarrow>
     (\<forall>x \<in> set (jobs d). jid x \<noteq> pio_new_id io) \<and>
     (dl \<noteq> [] \<longrightarrow> (\<forall>x \<in> set (jobs d). jdelivery x \<noteq> Some dl))"

lemma push_setup_ok:
  "no_push_faults io \<Longrightarrow> get_repo_by_github_id (ev_repo_id ev) (w_db w) = Inr repo \<Longrightarrow>
     push_setup io ev w = Some repo"
  by (simp add: push_setup_def no_push_faults_def)

lemma handle_push_pending_Some:
  assumes inv: "wf_db (w_db w)" "one_queued (w_db w)" and ok: "no_push_faults io"
    and repo: "get_repo_by_github_id (ev_repo_id ev) (w_db w) = Inr repo"
    and p: "pending (w_db w) (rid repo, ev_branch ev) \<noteq> None"
  obtains d' where "handle_push hmac us sg enq io ev dl w = (None, w\<lparr>w_db := d'\<rparr>)"
    and "pending d' = (pending (w_db w))((rid repo, ev_branch ev) \<mapsto> ev_commit ev)"
    and "length (jobs d') = length (jobs (w_db w))" and "repositories d' = repositories (w_db w)"
proof -
  note ready = push_setup_ok [OF ok repo]
  obtain j where f: "List.find (\<lambda>j. jstatus j = Queued)
      (get_active_jobs_for_branch (rid repo) (ev_branch ev) (w_db w)) = Some j"
    using p by (metis find_active_None not_None_eq pending_None)
  note j = find_active_Some [OF f]
  have "handle_push hmac us sg enq io ev dl w =
          (None, w\<lparr>w_db := update_job_commit_sha (pio_now io) (jid j) (ev_commit ev) (w_db w)\<rparr>)"
    using ok by (simp add: handle_push_found [OF ready f] no_push_faults_def Let_def)
  then show ?thesis
    using that pending_commit_sha [OF inv, of j] j by (simp add: update_job_commit_sha_def)
qed

lemma handle_push_pending_None:
  assumes ok: "no_push_faults io"
    and repo: "get_repo_by_github_id (ev_repo_id ev) (w_db w) = Inr repo"
    and p: "pending (w_db w) (rid repo, ev_branch ev) = None"
    and new: "new_job_ok io dl (w_db w)"
  obtains j d' where
    "handle_push hmac us sg enq io ev dl w =
       (None, w\<lparr>w_db := d', w_queue := snd (enqueue enq (pio_enqueue io) (us (pio_new_id io))
          (signer_sign hmac sg (pio_clock io) (us (pio_new_id io))) (w_queue w))\<rparr>)"
    and "create_job (pio_now io) (pio_new_id io) (rid repo) (ev_branch ev) (ev_commit ev) dl (w_db w)
           = Inr (j, d')"
    and "pending d' = (pending (w_db w))((rid repo, ev_branch ev) \<mapsto> ev_commit ev)"
proof -
  note ready = push_setup_ok [OF ok repo]
  have none: "\<And>x. x \<in> set (jobs (w_db w)) \<Longrightarrow> \<not> queued_on (rid repo) (ev_branch ev) x"
    using p by (simp add: pending_None)
  then have f: "List.find (\<lambda>j. jstatus j = Queued)
      (get_active_jobs_for_branch (rid repo) (ev_branch ev) (w_db w)) = None"
    by (simp add: find_active_None)
  have "repo \<in> set (repositories (w_db w))"
    using push_setup_Some [OF ready] by simp
  then obtain j d' where c: "create_job (pio_now io) (pio_new_id io) (rid repo) (ev_branch ev)
      (ev_commit ev) dl (w_db w) = Inr (j, d')"
    using create_job_succeeds [of "w_db w" "pio_new_id io" dl repo "pio_now io" "ev_branch ev" "ev_commit ev"]
      new unfolding new_job_ok_def by blast
  then have "jid j = pio_new_id io" by (simp add: create_job_Inr)
  then show ?thesis
    using that [OF _ c pending_create [OF c none]] ok c
    by (simp add: handle_push_fresh [OF ready f] no_push_faults_def)
qed

lemma push_repo_stable:
  assumes "handle_push hmac us sg enq io ev dl w = (res, w')"
  shows "repositories (w_db w') = repositories (w_db w)"
  using assms by (cases rule: handle_push_outcomes)
    (auto simp: update_job_commit_sha_def create_job_Inr)

subsection \<open>A burst of pushes\<close>

fun push_all ::
  "(string \<Rightarrow> string \<Rightarrow> string) \<Rightarrow> (uuid \<Rightarrow> string) \<Rightarrow> signer \<Rightarrow> enqueuer
     \<Rightarrow> (push_io \<times> webhook_event \<times> string) list \<Rightarrow> world \<Rightarrow> world" where
  "push_all hmac us sg enq [] w = w"
| "push_all hmac us sg enq ((io, ev, dl) # reqs) w =
     push_all hmac us sg enq reqs (snd (handle_push hmac us sg enq io ev dl w))"

lemma push_all_pending:
  \<comment> \<open>with a queued job in place, every further push only moves its commit\<close>
  assumes "wf_db (w_db w)" and "one_queued (w_db w)"
    and "get_repo_by_github_id g (w_db w) = Inr repo"
    and "pending (w_db w) (rid repo, b) = Some c"
    and "\<And>io ev dl. (io, ev, dl) \<in> set reqs \<Longrightarrow>
           no_push_faults io \<and> ev_repo_id ev = g \<and> ev_branch ev = b"
  shows "let w' = push_all hmac us sg enq reqs w in
           pending (w_db w') = (pending (w_db w))
             ((rid repo, b) \<mapsto> last (c # map (\<lambda>(io, ev, dl). ev_commit ev) reqs)) \<and>
           length (jobs (w_db w')) = length (jobs (w_db w)) \<and> w_queue w' = w_queue w"
  using assms
proof (induction reqs arbitrary: w c)
  case Nil
  then show ?case by (simp add: fun_upd_idem)
next
  case (Cons r reqs)
  obtain io ev dl where r: "r = (io, ev, dl)" by (cases r)
  have io: "no_push_faults io" "ev_repo_id ev = g" "ev_branch ev = b"
    using Cons.prems(5) [of io ev dl] r by auto
  obtain d' where h: "handle_push hmac us sg enq io ev dl w = (None, w\<lparr>w_db := d'\<rparr>)"
    and p: "pending d' = (pending (w_db w))((rid repo, b) \<mapsto> ev_commit ev)"
    and l: "length (jobs d') = length (jobs (w_db w))" "repositories d' = repositories (w_db w)"
    using handle_push_pending_Some [OF Cons.prems(1,2) io(1), of ev repo hmac us sg enq dl]
      Cons.prems(3,4) io(2,3) by auto
  have keep: "wf_db d'" "one_queued d'"
    using handle_push_keeps [OF h Cons.prems(1,2)] by simp_all
  have "get_repo_by_github_id g d' = Inr repo"
    using Cons.prems(3) l(2) by (simp add: get_repo_by_github_id_def)
  moreover have "\<And>io ev dl. (io, ev, dl) \<in> set reqs \<Longrightarrow>
      no_push_faults io \<and> ev_repo_id ev = g \<and> ev_branch ev = b"
    using Cons.prems(5) by auto
  ultimately show ?case
    using Cons.IH [of "w\<lparr>w_db := d'\<rparr>" "ev_commit ev"] keep p
    by (simp add: r h l Let_def) (simp add: fun_eq_iff)
qed

end
