(* ===== verification/GoTime.thy ===== *)
theory GoTime
  imports GoStrings "HOL-Library.Monad_Syntax"
begin

text \<open>
  Go's \<open>time\<close> with the layout \<open>RFC3339Nano\<close>: \<open>format_rfc3339\<close> is \<open>Format\<close>, \<open>parse_rfc3339\<close> is \<open>Parse\<close>.

  An instant is a number of nanoseconds since the Unix epoch, and a location the offset from UTC in
  seconds it has at an instant.  \<open>Parse\<close> is given as its general path: the fast path in front of it
  accepts fewer texts and agrees on those.
\<close>

subsection \<open>The Gregorian calendar\<close>

definition leap_year :: "int \<Rightarrow> bool" where
  "leap_year y \<longleftrightarrow> 4 dvd y \<and> (\<not> 100 dvd y \<or> 400 dvd y)"

definition year_start :: "int \<Rightarrow> int" where
  \<comment> \<open>the days from the epoch to the first of January\<close>
  "year_start y = 365 * y + (y - 1) div 4 - (y - 1) div 100 + (y - 1) div 400 - 719527"

definition month_days :: "int \<Rightarrow> int \<Rightarrow> int" where
  "month_days y m =
     (if m = 2 then (if leap_year y then 29 else 28) else if m \<in> {4, 6, 9, 11} then 30 else 31)"

definition month_start :: "int \<Rightarrow> int \<Rightarrow> int" where
  "month_start y m = (\<Sum>k \<leftarrow> [1..m - 1]. month_days y k)"

definition date_days :: "int \<Rightarrow> int \<Rightarrow> int \<Rightarrow> int" where
  "date_days y m d = year_start y + month_start y m + (d - 1)"

definition year_of :: "int \<Rightarrow> int" where
  "year_of n =
     (let y = 400 * (n + 719528) div 146097
      in if n < year_start y then y - 1 else if year_start (y + 1) \<le> n then y + 1 else y)"

definition month_of :: "int \<Rightarrow> int \<Rightarrow> int" where
  "month_of y r = (case List.find (\<lambda>m. r < month_start y (m + 1)) [1..12] of None \<Rightarrow> 12 | Some m \<Rightarrow> m)"

lemma year_start_epoch: "year_start 1970 = 0"
  by (simp add: year_start_def)

lemma year_start_Suc: "year_start (y + 1) = year_start y + (if leap_year y then 366 else 365)"
proof -
  have step: "y div k = (y - 1) div k + (if k dvd y then 1 else 0)" if "0 < k" for k :: int
  proof (cases "k dvd y")
    case True
    then obtain q where q: "y = k * q" by blast
    have "(y - 1) div k = q - 1"
      by (rule int_div_pos_eq [where r = "k - 1"]) (use that in \<open>simp_all add: q algebra_simps\<close>)
    then show ?thesis using True that by (simp add: q)
  next
    case False
    then have "1 \<le> y mod k" using pos_mod_sign [OF that, of y] by (simp add: dvd_eq_mod_eq_0)
    moreover have "y - 1 = k * (y div k) + (y mod k - 1)" using mult_div_mod_eq [of k y] by linarith
    ultimately have "(y - 1) div k = y div k"
      using int_div_pos_eq [of "y - 1" k "y div k" "y mod k - 1"] pos_mod_bound [OF that, of y] by linarith
    then show ?thesis using False by simp
  qed
  have split: "S' = S + (if p \<and> (\<not> q \<or> r) then 366 else 365)"
    if "q \<Longrightarrow> p" "r \<Longrightarrow> q" "S = 365 * y + a - b + c - 719527"
      "S' = 365 * (y + 1) + (a + (if p then 1 else 0)) - (b + (if q then 1 else 0)) + (c + (if r then 1 else 0)) - 719527"
    for p q r and S S' a b c :: int
    using that by (cases p; cases q; cases r) simp_all
  show ?thesis
    unfolding leap_year_def
  proof (rule split)
    show "4 dvd y" if "100 dvd y" using that by (rule dvd_trans [rotated]) simp
    show "100 dvd y" if "400 dvd y" using that by (rule dvd_trans [rotated]) simp
    show "year_start y = 365 * y + (y - 1) div 4 - (y - 1) div 100 + (y - 1) div 400 - 719527"
      by (rule year_start_def)
    show "year_start (y + 1) = 365 * (y + 1) + ((y - 1) div 4 + (if 4 dvd y then 1 else 0)) -
        ((y - 1) div 100 + (if 100 dvd y then 1 else 0)) + ((y - 1) div 400 + (if 400 dvd y then 1 else 0)) - 719527"
      by (simp only: year_start_def add_diff_cancel step [of 4] step [of 100] step [of 400] zero_less_numeral)
  qed
qed

lemma year_of: "year_start (year_of n) \<le> n \<and> n < year_start (year_of n + 1)"
proof -
  define y where "y = 400 * (n + 719528) div 146097"
  have "146097 * y \<le> 400 * (n + 719528)" "400 * (n + 719528) < 146097 * (y + 1)"
    by (simp_all add: y_def)
  moreover have b: "4 * (k div 4) \<le> k \<and> k < 4 * (k div 4) + 4" "100 * (k div 100) \<le> k \<and> k < 100 * (k div 100) + 100"
    "400 * (k div 400) \<le> k \<and> k < 400 * (k div 400) + 400" for k :: int
    by linarith+
  ultimately have "year_start (y - 1) \<le> n" "n < year_start (y + 2)"
    using b [of "y - 2"] b [of "y + 1"] by (auto simp: year_start_def)
  moreover have "year_of n = (if n < year_start y then y - 1 else if year_start (y + 1) \<le> n then y + 1 else y)"
    by (simp only: year_of_def Let_def y_def)
  ultimately show ?thesis by (simp add: not_less not_le add.commute)
qed

lemma month_start_values:
  "month_start y 1 = 0" "month_start y 2 = 31" "month_start y 3 = 59 + (if leap_year y then 1 else 0)"
  "month_start y 4 = 90 + (if leap_year y then 1 else 0)" "month_start y 5 = 120 + (if leap_year y then 1 else 0)"
  "month_start y 6 = 151 + (if leap_year y then 1 else 0)" "month_start y 7 = 181 + (if leap_year y then 1 else 0)"
  "month_start y 8 = 212 + (if leap_year y then 1 else 0)" "month_start y 9 = 243 + (if leap_year y then 1 else 0)"
  "month_start y 10 = 273 + (if leap_year y then 1 else 0)" "month_start y 11 = 304 + (if leap_year y then 1 else 0)"
  "month_start y 12 = 334 + (if leap_year y then 1 else 0)" "month_start y 13 = 365 + (if leap_year y then 1 else 0)"
  by (simp_all add: month_start_def month_days_def upto.simps)

lemma month_of:
  assumes "0 \<le> r" and "r < month_start y 13"
  shows "1 \<le> month_of y r \<and> month_of y r \<le> 12 \<and> month_start y (month_of y r) \<le> r \<and>
         r - month_start y (month_of y r) < month_days y (month_of y r)"
  using assms
  by (cases "leap_year y") (simp_all add: month_of_def upto.simps month_start_values month_days_def)

subsection \<open>Format\<close>

definition pad :: "nat \<Rightarrow> nat \<Rightarrow> string" where
  "pad width n = replicate (width - length (show_nat n)) CHR ''0'' @ show_nat n"

definition append_int :: "int \<Rightarrow> nat \<Rightarrow> string" where
  "append_int x width = (if x < 0 then CHR ''-'' # pad width (nat (- x)) else pad width (nat x))"

definition append_nano :: "nat \<Rightarrow> string" where
  \<comment> \<open>the fraction without its trailing zeros; nothing, not even the point, for a whole second\<close>
  "append_nano ns =
     (let ds = rev (dropWhile (\<lambda>c. c = CHR ''0'') (rev (pad 9 ns)))
      in if ds = [] then [] else CHR ''.'' # ds)"

definition append_zone :: "int \<Rightarrow> string" where
  "append_zone offset =
     (if offset = 0 then ''Z''
      else let zone = \<bar>offset\<bar> div 60
        in (if offset < 0 then CHR ''-'' else CHR ''+'') #
           append_int (zone div 60) 2 @ '':'' @ append_int (zone mod 60) 2)"

definition format_rfc3339 :: "(nanos \<Rightarrow> int) \<Rightarrow> nanos \<Rightarrow> string" where
  "format_rfc3339 loc t =
     (let offset = loc t;
          secs = t div 1000000000 + offset;
          days = secs div 86400;
          s = secs mod 86400;
          y = year_of days;
          r = days - year_start y;
          m = month_of y r
      in append_int y 4 @ ''-'' @ append_int m 2 @ ''-'' @ append_int (r - month_start y m + 1) 2 @ ''T'' @
         append_int (s div 3600) 2 @ '':'' @ append_int (s mod 3600 div 60) 2 @ '':'' @ append_int (s mod 60) 2 @
         append_nano (nat (t mod 1000000000)) @ append_zone offset)"

subsection \<open>Parse\<close>

definition expect :: "char \<Rightarrow> string \<Rightarrow> string option" where
  "expect c v = (case v of [] \<Rightarrow> None | x # rest \<Rightarrow> if x = c then Some rest else None)"

definition getnum :: "bool \<Rightarrow> string \<Rightarrow> (int \<times> string) option" where
  \<comment> \<open>two digits, or one if \<open>fixed\<close> does not hold\<close>
  "getnum fixed v =
     (case v of
        [] \<Rightarrow> None
      | a # rest \<Rightarrow>
          if \<not> is_digit a then None
          else (case rest of
             b # rest' \<Rightarrow>
               if is_digit b then Some (int (10 * digit_value a + digit_value b), rest')
               else if fixed then None else Some (int (digit_value a), rest)
           | [] \<Rightarrow> if fixed then None else Some (int (digit_value a), [])))"

definition get_year :: "string \<Rightarrow> (int \<times> string) option" where
  "get_year v =
     (if length v < 4 \<or> \<not> list_all is_digit (take 4 v) then None
      else Some (int (digits_value (take 4 v)), drop 4 v))"

definition within :: "int \<Rightarrow> int \<Rightarrow> int \<times> string \<Rightarrow> (int \<times> string) option" where
  "within lo hi x = (if lo \<le> fst x \<and> fst x \<le> hi then Some x else None)"

definition get_fraction :: "string \<Rightarrow> int \<times> string" where
  \<comment> \<open>a fraction may be missing; after nine digits the rest is dropped\<close>
  "get_fraction v =
     (case v of
        c # rest \<Rightarrow>
          (let ds = takeWhile is_digit rest; ds9 = take 9 ds
           in if (c = CHR ''.'' \<or> c = CHR '','') \<and> ds \<noteq> []
              then (int (digits_value ds9 * 10 ^ (9 - length ds9)), drop (length ds) rest)
              else (0, v))
      | [] \<Rightarrow> (0, v))"

definition get_zone :: "string \<Rightarrow> (int \<times> string) option" where
  "get_zone v =
     (if v \<noteq> [] \<and> hd v = CHR ''Z'' then Some (0, tl v)
      else if length v < 6 \<or> v ! 3 \<noteq> CHR '':'' then None
      else do {
        (hr, _) \<leftarrow> Option.bind (getnum True (take 2 (drop 1 v))) (within 0 24);
        (mm, _) \<leftarrow> Option.bind (getnum True (take 2 (drop 4 v))) (within 0 60);
        if hd v = CHR ''+'' then Some ((hr * 60 + mm) * 60, drop 6 v)
        else if hd v = CHR ''-'' then Some (- ((hr * 60 + mm) * 60), drop 6 v)
        else None
      })"

definition parse_rfc3339 :: "string \<Rightarrow> nanos option" where
  "parse_rfc3339 v =
     do {
       (year, v) \<leftarrow> get_year v;
       v \<leftarrow> expect CHR ''-'' v;
       (month, v) \<leftarrow> Option.bind (getnum True v) (within 1 12);
       v \<leftarrow> expect CHR ''-'' v;
       (day, v) \<leftarrow> getnum True v;
       v \<leftarrow> expect CHR ''T'' v;
       (hour, v) \<leftarrow> Option.bind (getnum False v) (within 0 23);
       v \<leftarrow> expect CHR '':'' v;
       (min, v) \<leftarrow> Option.bind (getnum True v) (within 0 59);
       v \<leftarrow> expect CHR '':'' v;
       (sec, v) \<leftarrow> Option.bind (getnum True v) (within 0 59);
       let (ns, v) = get_fraction v;
       (offset, v) \<leftarrow> get_zone v;
       if v \<noteq> [] \<or> day < 1 \<or> month_days year month < day then None
       else Some ((date_days year month day * 86400 + hour * 3600 + min * 60 + sec - offset) * 1000000000 + ns)
     }"

subsection \<open>What is formatted is parsed\<close>

lemma digit_char_zero [simp]: "digit_char 0 = CHR ''0''"
  by code_simp

lemma pad2: "n < 100 \<Longrightarrow> pad 2 n = [digit_char (n div 10), digit_char (n mod 10)]"
  by (subst pad_def, subst (1 2) show_nat.simps, subst (1 2) show_nat.simps) auto

lemma digits_value_zeros: "digits_value (replicate k CHR ''0'' @ s) = digits_value s"
  by (induction k) (simp_all add: digits_value_def digit_value_def)

lemma digits_value_append_zeros: "digits_value (s @ replicate k CHR ''0'') = digits_value s * 10 ^ k"
proof (induction k)
  case (Suc k)
  have "s @ replicate (Suc k) CHR ''0'' = (s @ replicate k CHR ''0'') @ [CHR ''0'']"
    by (simp add: replicate_append_same)
  then show ?case by (simp only: digits_value_snoc Suc) (simp add: digit_value_def)
qed simp

lemma pad_digits [simp]: "list_all is_digit (pad w n)"
  using show_nat_digits [of n] by (auto simp: pad_def list_all_iff is_digit_def)

lemma digits_value_pad [simp]: "digits_value (pad w n) = n"
  by (simp add: pad_def digits_value_zeros)

lemma length_pad: "n < 10 ^ Suc k \<Longrightarrow> length (pad (Suc k) n) = Suc k"
  using length_show_nat [of n k] by (simp add: pad_def)

lemma getnum_append_int [simp]:
  "0 \<le> x \<Longrightarrow> x < 100 \<Longrightarrow> getnum fixed (append_int x 2 @ s) = Some (x, s)"
  by (simp add: append_int_def pad2 getnum_def nat_less_iff of_nat_div of_nat_mod zmod_int zdiv_int)

lemma get_year_append_int:
  assumes "0 \<le> y" and "y \<le> 9999"
  shows "get_year (append_int y 4 @ s) = Some (y, s)"
proof -
  have "length (pad (Suc 3) (nat y)) = Suc 3" by (rule length_pad) (use assms in simp)
  then have l: "length (pad 4 (nat y)) = 4" by simp
  have "get_year (pad 4 (nat y) @ s) = Some (int (nat y), s)"
    unfolding get_year_def by (simp only: take_append drop_append l take_all order.refl drop_all) (simp add: l)
  then show ?thesis using assms by (simp add: append_int_def)
qed

lemma expect_same [simp]: "expect c (c # s) = Some s"
  by (simp add: expect_def)

lemma dropWhile_zeros:
  "xs = dropWhile (\<lambda>c. c = z) xs' \<Longrightarrow> xs' = replicate (length xs' - length xs) z @ xs"
proof -
  assume "xs = dropWhile (\<lambda>c. c = z) xs'"
  moreover have "takeWhile (\<lambda>c. c = z) ys = replicate (length (takeWhile (\<lambda>c. c = z) ys)) z" for ys
    by (induction ys) auto
  moreover have "length (takeWhile (\<lambda>c. c = z) xs') = length xs' - length (dropWhile (\<lambda>c. c = z) xs')"
    by (metis add_diff_cancel_right' length_append takeWhile_dropWhile_id)
  ultimately show ?thesis by (metis takeWhile_dropWhile_id)
qed

lemma trailing_zeros:
  assumes "ds = rev (dropWhile (\<lambda>c. c = z) (rev xs))"
  shows "xs = ds @ replicate (length xs - length ds) z"
proof -
  have "rev xs = replicate (length (rev xs) - length (rev ds)) z @ rev ds"
    by (rule dropWhile_zeros) (simp add: assms)
  then have "rev (rev xs) = rev (replicate (length (rev xs) - length (rev ds)) z @ rev ds)" by simp
  then show ?thesis by simp
qed

lemma get_fraction_append_nano:
  assumes "ns < 1000000000" and "s = [] \<or> \<not> is_digit (hd s) \<and> hd s \<noteq> CHR ''.'' \<and> hd s \<noteq> CHR '',''"
  shows "get_fraction (append_nano ns @ s) = (int ns, s)"
proof -
  define ds where "ds = rev (dropWhile (\<lambda>c. c = CHR ''0'') (rev (pad 9 ns)))"
  have "length (pad (Suc 8) ns) = Suc 8" by (rule length_pad) (use assms(1) in simp)
  then have nine: "length (pad 9 ns) = 9" by simp
  have p: "pad 9 ns = ds @ replicate (9 - length ds) CHR ''0''"
    using trailing_zeros [OF ds_def] by (simp only: nine)
  have dig: "list_all is_digit ds" using pad_digits [of 9 ns] by (subst (asm) p) simp
  have len: "length ds \<le> 9" using arg_cong [OF p, of length] nine by simp
  have val: "ns = digits_value ds * 10 ^ (9 - length ds)"
    using arg_cong [OF p, of digits_value] by (simp only: digits_value_append_zeros digits_value_pad)
  have nano: "append_nano ns = (if ds = [] then [] else CHR ''.'' # ds)"
    by (simp only: append_nano_def Let_def ds_def)
  show ?thesis
  proof (cases "ds = []")
    case True
    then have "ns = 0" using val by (simp add: digits_value_def)
    then show ?thesis
      using assms(2) nano True by (cases s) (simp_all add: get_fraction_def)
  next
    case False
    have tw: "takeWhile is_digit (ds @ s) = ds"
      using dig assms(2) by (cases s) (simp_all add: takeWhile_append list_all_iff)
    show ?thesis
      unfolding nano get_fraction_def using False len by (simp add: Let_def tw) (simp add: val)
  qed
qed

definition whole_minutes :: "int \<Rightarrow> bool" where
  "whole_minutes offset \<longleftrightarrow> 60 dvd offset \<and> \<bar>offset\<bar> < 25 * 3600"

lemma get_zone_append_zone:
  assumes "whole_minutes offset"
  shows "get_zone (append_zone offset) = Some (offset, [])"
proof (cases "offset = 0")
  case False
  define z where "z = \<bar>offset\<bar> div 60"
  have z: "\<bar>offset\<bar> = 60 * z" using assms by (simp add: z_def whole_minutes_def)
  have b: "0 \<le> z div 60" "z div 60 \<le> 24" "0 \<le> z mod 60" "z mod 60 < 60"
    using z assms by (auto simp: whole_minutes_def)
  have two: "\<exists>a b. append_int x 2 = [a, b]" if "0 \<le> x" "x < 100" for x
    using that by (auto simp: append_int_def pad2 nat_less_iff)
  obtain h1 h2 where h: "append_int (z div 60) 2 = [h1, h2]" using two [of "z div 60"] b by auto
  obtain m1 m2 where m: "append_int (z mod 60) 2 = [m1, m2]" using two [of "z mod 60"] b by auto
  have n: "getnum True [h1, h2] = Some (z div 60, [])" "getnum True [m1, m2] = Some (z mod 60, [])"
    using getnum_append_int [of "z div 60" True "[]"] getnum_append_int [of "z mod 60" True "[]"] b h m by simp_all
  have "offset = 60 * z \<or> offset = - (60 * z)" using z by linarith
  moreover have "offset < 0 \<longleftrightarrow> offset = - (60 * z)" using z False by linarith
  moreover have "3600 * (z div 60) + z mod 60 * 60 = 60 * z" "- (3600 * (z div 60)) - z mod 60 * 60 = - (60 * z)"
    using mult_div_mod_eq [of 60 z] by linarith+
  ultimately show ?thesis
    using False b by (auto simp: append_zone_def Let_def z_def [symmetric] h m n get_zone_def within_def)
qed (simp add: append_zone_def get_zone_def)

lemma append_zone_head: "append_zone offset \<noteq> [] \<and> \<not> is_digit (hd (append_zone offset)) \<and>
    hd (append_zone offset) \<noteq> CHR ''.'' \<and> hd (append_zone offset) \<noteq> CHR '',''"
  by (simp add: append_zone_def Let_def is_digit_def)

definition in_years :: "(nanos \<Rightarrow> int) \<Rightarrow> nanos \<Rightarrow> bool" where
  \<comment> \<open>the instant is in the years 0 to 9999 of the location\<close>
  "in_years loc t \<longleftrightarrow>
     year_start 0 * 86400 \<le> t div 1000000000 + loc t \<and> t div 1000000000 + loc t < year_start 10000 * 86400"

lemma year_start_mono: "y \<le> y' \<Longrightarrow> year_start y \<le> year_start y'"
proof (induction "nat (y' - y)" arbitrary: y')
  case (Suc k)
  then have "year_start y \<le> year_start (y' - 1)" by simp
  then show ?case using year_start_Suc [of "y' - 1"] by (simp split: if_splits)
qed simp

lemma year_of_range:
  assumes "year_start 0 \<le> n" and "n < year_start 10000"
  shows "0 \<le> year_of n" and "year_of n \<le> 9999"
  using year_of [of n] assms year_start_mono [of "year_of n + 1" 0] year_start_mono [of 10000 "year_of n"]
  by linarith+

lemma clock_parts: "s mod 86400 = s mod 86400 div 3600 * 3600 + s mod 86400 mod 3600 div 60 * 60 + s mod 86400 mod 60"
  for s :: int
proof -
  define r where "r = s mod 86400"
  have "r mod 3600 mod 60 = r mod 60" by (simp add: mod_mod_cancel)
  then show ?thesis
    unfolding r_def [symmetric] using mult_div_mod_eq [of 3600 r] mult_div_mod_eq [of 60 "r mod 3600"] by linarith
qed

lemma parse_format:
  assumes "in_years loc t" and "whole_minutes (loc t)"
  shows "parse_rfc3339 (format_rfc3339 loc t) = Some t"
proof -
  define secs where "secs = t div 1000000000 + loc t"
  define days where "days = secs div 86400"
  define s where "s = secs mod 86400"
  define y where "y = year_of days"
  define r where "r = days - year_start y"
  define m where "m = month_of y r"
  have "year_start 0 \<le> days" "days < year_start 10000"
  proof -
    have "86400 * days \<le> secs" "secs < 86400 * days + 86400" unfolding days_def by linarith+
    then show "year_start 0 \<le> days" "days < year_start 10000"
      using assms(1) unfolding in_years_def secs_def [symmetric] by linarith+
  qed
  then have y: "0 \<le> y" "y \<le> 9999" using year_of_range [of days] by (simp_all add: y_def)
  have "0 \<le> r" "r < month_start y 13"
    using year_of [of days] year_start_Suc [of y] by (auto simp: r_def y_def [symmetric] month_start_values split: if_splits)
  then have m: "1 \<le> m" "m \<le> 12" "month_start y m \<le> r" "r - month_start y m < month_days y m"
    using month_of [of r y] by (simp_all add: m_def)
  have le: "month_days y m \<le> 31" by (simp add: month_days_def)
  have s: "0 \<le> s" "s < 86400" by (simp_all add: s_def)
  have clock: "0 \<le> s div 3600" "s div 3600 \<le> 23" "0 \<le> s mod 3600 div 60" "s mod 3600 div 60 \<le> 59"
      "0 \<le> s mod 60" "s mod 60 \<le> 59"
    using s by linarith+
  have ns: "nat (t mod 1000000000) < 1000000000" by (simp add: nat_less_iff)
  have total: "(date_days y m (r - month_start y m + 1) * 86400 + s div 3600 * 3600 + s mod 3600 div 60 * 60 + s mod 60
      - loc t) * 1000000000 + t mod 1000000000 = t"
  proof -
    have "date_days y m (r - month_start y m + 1) = days" by (simp add: date_days_def r_def)
    moreover have "days * 86400 + s = secs" by (simp add: days_def s_def)
    moreover have "s = s div 3600 * 3600 + s mod 3600 div 60 * 60 + s mod 60"
      using clock_parts [of secs] by (simp only: s_def)
    ultimately have "date_days y m (r - month_start y m + 1) * 86400 + s div 3600 * 3600 + s mod 3600 div 60 * 60 + s mod 60
      - loc t = t div 1000000000" by (simp add: secs_def)
    then show ?thesis by simp
  qed
  have fmt: "format_rfc3339 loc t = append_int y 4 @ CHR ''-'' # append_int m 2 @ CHR ''-'' #
      append_int (r - month_start y m + 1) 2 @ CHR ''T'' # append_int (s div 3600) 2 @ CHR '':'' #
      append_int (s mod 3600 div 60) 2 @ CHR '':'' # append_int (s mod 60) 2 @
      append_nano (nat (t mod 1000000000)) @ append_zone (loc t)"
    by (simp add: format_rfc3339_def Let_def secs_def days_def s_def y_def r_def m_def)
  let ?d = "r - month_start y m + 1"
  have num: "getnum f (append_int m 2 @ v) = Some (m, v)" "getnum f (append_int ?d 2 @ v) = Some (?d, v)"
    "getnum f (append_int (s div 3600) 2 @ v) = Some (s div 3600, v)"
    "getnum f (append_int (s mod 3600 div 60) 2 @ v) = Some (s mod 3600 div 60, v)"
    "getnum f (append_int (s mod 60) 2 @ v) = Some (s mod 60, v)" for f v
    by (rule getnum_append_int; use m le clock in linarith)+
  have within: "within 1 12 (m, v) = Some (m, v)" "within 0 23 (s div 3600, v) = Some (s div 3600, v)"
    "within 0 59 (s mod 3600 div 60, v) = Some (s mod 3600 div 60, v)" "within 0 59 (s mod 60, v) = Some (s mod 60, v)" for v
    by (simp_all only: within_def fst_conv m clock simp_thms if_True)
  have day: "\<not> (?d < 1 \<or> month_days y m < ?d)" using m by linarith
  have frac: "get_fraction (append_nano (nat (t mod 1000000000)) @ append_zone (loc t)) = (t mod 1000000000, append_zone (loc t))"
    using get_fraction_append_nano [OF ns, of "append_zone (loc t)"] append_zone_head [of "loc t"] by simp
  show ?thesis
    unfolding fmt parse_rfc3339_def
    by (simp only: get_year_append_int [OF y] num within frac get_zone_append_zone [OF assms(2)] total day expect_same
        Option.bind.bind_lunit prod.case Let_def append_Cons append_Nil simp_thms if_False)
qed

lemma format_not_Nil [simp]: "format_rfc3339 loc t \<noteq> []"
  by (simp add: format_rfc3339_def Let_def)

end
