(* ===== verification/Http.thy ===== *)
theory Http
  imports Json GoTime
begin

text \<open>
  HTTP values and the helpers of \<^verbatim>\<open>shared/go/httputil\<close>.

  \<open>request\<close> holds what the handlers and middlewares read of an \<open>*http.Request\<close> (a header, query
  or URL parameter that is absent reads as the empty string, as \<open>Get\<close> returns it), with the two
  values middlewares put in its context: the verified session's subject and the validated job id.
  \<open>reply\<close> has one constructor per way of answering: \<open>ErrResponse\<close>, \<open>WriteJSON\<close>, \<open>http.Error\<close>,
  a bare \<open>WriteHeader\<close> and \<open>http.Redirect\<close>.
\<close>

record request =
  rq_method :: string
  rq_header :: "string \<Rightarrow> string"
  rq_query :: "string \<Rightarrow> string"
  rq_param :: "string \<Rightarrow> string"
  rq_body :: string
  rq_remote_addr :: string
  rq_claims_subject :: "string option"
  rq_job_id :: "string option"

datatype 'a reply =
    ErrReply nat string
  | JsonReply nat 'a
  | TextReply nat string
  | EmptyReply nat
  | RedirectReply nat string

definition reply_status :: "'a reply \<Rightarrow> nat" where
  "reply_status r =
     (case r of ErrReply n _ \<Rightarrow> n | JsonReply n _ \<Rightarrow> n | TextReply n _ \<Rightarrow> n | EmptyReply n \<Rightarrow> n
    | RedirectReply n _ \<Rightarrow> n)"

lemma reply_status_simps [simp]:
  "reply_status (ErrReply n m) = n" "reply_status (JsonReply n x) = n"
  "reply_status (TextReply n m) = n" "reply_status (EmptyReply n) = n"
  "reply_status (RedirectReply n m) = n"
  by (simp_all add: reply_status_def)

type_synonym ('s, 'a) handler = "request \<Rightarrow> 's \<Rightarrow> 'a reply \<times> 's"
type_synonym ('s, 'a) middleware = "('s, 'a) handler \<Rightarrow> ('s, 'a) handler"

definition err_response :: "nat \<Rightarrow> string \<Rightarrow> 'a reply" where
  "err_response status msg = ErrReply status msg"

definition ok_response :: "'a \<Rightarrow> 'a reply" where
  "ok_response x = JsonReply 200 x"

definition internal_error :: "'a reply" where
  "internal_error = err_response 500 ''internal error''"

lemma reply_status_err [simp]:
  "reply_status (err_response n m) = n" "reply_status internal_error = 500"
  by (simp_all add: err_response_def internal_error_def)

subsection \<open>JSON bodies\<close>

definition decode_json :: "'a members \<Rightarrow> 'a \<Rightarrow> string \<Rightarrow> 'a option" where
  \<comment> \<open>\<open>DecodeJSON[T]\<close>: the first value of the body, whatever follows it; \<open>None\<close> for an error\<close>
  "decode_json tags zero body = decode_stream tags zero body"

definition write_json :: "json \<Rightarrow> string" where
  \<comment> \<open>the body \<open>WriteJSON\<close> writes: \<open>Encode\<close> ends it with a newline\<close>
  "write_json v = render v @ [CHR 0x0A]"

definition error_json :: "string \<Rightarrow> json" where
  \<comment> \<open>the struct \<open>ErrorResponse\<close>\<close>
  "error_json msg = JObject [(''error'', JString msg)]"

lemma decode_json_render:
  assumes "renderable_members (max_nesting - 1) ms"
  shows "decode_json tags zero (render (JObject ms)) = store_members tags (clean_members ms) zero"
    and "decode_json tags zero (write_json (JObject ms)) = store_members tags (clean_members ms) zero"
  using decode_rendered(1) [OF assms, of "[]"] decode_rendered(1) [OF assms, of "[CHR 0x0A]"]
  by (simp_all add: decode_json_def write_json_def)

definition reply_text :: "('a \<Rightarrow> json) \<Rightarrow> 'a reply \<Rightarrow> string" where
  \<comment> \<open>the body of the reply to a POST request (\<open>http.Error\<close> ends its text with a newline, \<open>http.Redirect\<close>
    answers a POST without a body)\<close>
  "reply_text to_json r =
     (case r of
        ErrReply _ msg \<Rightarrow> write_json (error_json msg)
      | JsonReply _ x \<Rightarrow> write_json (to_json x)
      | TextReply _ msg \<Rightarrow> msg @ [CHR 0x0A]
      | EmptyReply _ \<Rightarrow> []
      | RedirectReply _ _ \<Rightarrow> [])"

subsection \<open>Query parameters\<close>

definition default_page_limit :: int where
  "default_page_limit = 50"

definition max_page_limit :: int where
  "max_page_limit = 100"

definition parse_limit :: "request \<Rightarrow> int" where
  "parse_limit r =
     (let s = rq_query r ''limit'' in
      if s = [] then default_page_limit
      else case parse_int64 s of
        None \<Rightarrow> default_page_limit
      | Some n \<Rightarrow>
          if sint n < 1 then default_page_limit
          else if sint n > max_page_limit then max_page_limit
          else sint n)"

definition parse_cursor :: "(nanos \<Rightarrow> pgtime) \<Rightarrow> pgtime \<Rightarrow> request \<Rightarrow> string + pgtime" where
  \<comment> \<open>\<open>now\<close> is the current time, \<open>pg_time\<close> how pgx sends an instant to the database\<close>
  "parse_cursor pg_time now r =
     (let raw = rq_query r ''cursor'' in
      if raw = [] then Inr now
      else case parse_rfc3339 raw of
        None \<Rightarrow> Inl ''invalid cursor, expected RFC3339''
      | Some t \<Rightarrow> Inr (pg_time t))"

lemma parse_limit_range: "1 \<le> parse_limit r \<and> parse_limit r \<le> 100"
  by (simp add: parse_limit_def Let_def default_page_limit_def max_page_limit_def split: option.splits)

end
