(* ===== verification/Samples.thy ===== *)
theory Samples
  imports JobService Http
begin

text \<open>
  A small concrete world on which the properties are instantiated: one organization with one
  registered repository, jobs of it in given states, a push event and a call without faults.
\<close>

definition ex_request :: request where
  "ex_request = \<lparr>rq_method = ''POST'', rq_header = (\<lambda>_. []), rq_query = (\<lambda>_. []), rq_param = (\<lambda>_. []),
     rq_body = ''b'', rq_remote_addr = ''1.2.3.4:5'', rq_claims_subject = None, rq_job_id = Some ''u''\<rparr>"

definition ex_org :: organization where
  "ex_org = \<lparr>oid = 1, oclerk_id = ''org_1'', oslug = ''acme'', oname = ''Acme'', ocreated = 0\<rparr>"

definition ex_repo :: repository where
  "ex_repo = \<lparr>rid = 2, rorg = 1, rgithub_id = 7, rinstallation = 99, rfull_name = ''acme/app'',
     rdefault_branch = ''main'', rinstalled = 0\<rparr>"

definition ex_job :: "uuid \<Rightarrow> job_status \<Rightarrow> string \<Rightarrow> pgtime \<Rightarrow> job" where
  "ex_job i st commit created =
     \<lparr>jid = i, jrepo = 2, jbranch = ''main'', jcommit = commit, jdelivery = None, jstatus = st,
      jerror = None, jcreated = created, jupdated = created,
      jstarted = (if st = Queued then None else Some created),
      jfinished = (if is_terminal st then Some created else None)\<rparr>"

definition ex_db :: "job list \<Rightarrow> db" where
  "ex_db js = \<lparr>organizations = [ex_org], repositories = [ex_repo], jobs = js, snapshots = []\<rparr>"

definition ex_event :: "string \<Rightarrow> webhook_event" where
  "ex_event commit = \<lparr>ev_event_type = ''push'', ev_action = [], ev_repo_id = 7,
     ev_repo_name = ''acme/app'', ev_clone_url = [], ev_branch = ''main'', ev_commit = commit,
     ev_installation = 99\<rparr>"

definition ex_io :: "uuid \<Rightarrow> pgtime \<Rightarrow> push_io" where
  "ex_io i now = \<lparr>pio_begin = None, pio_get_repo = None, pio_lock = None, pio_active = None,
     pio_update = None, pio_create = None, pio_commit = Committed, pio_now = now, pio_new_id = i,
     pio_clock = 0, pio_enqueue = None\<rparr>"

definition ex_signer :: signer where
  "ex_signer = new_signer ''k'' 1800000000000"

definition ex_cfg :: cloud_tasks_config where
  "ex_cfg = \<lparr>ct_project = ''p'', ct_location = ''l'', ct_queue = ''q'', ct_worker_url = ''u'',
     ct_service_account = ''s''\<rparr>"

definition ex_world :: "job list \<Rightarrow> world" where
  "ex_world js = \<lparr>w_db = ex_db js, w_queue = []\<rparr>"

definition ex_hmac :: "string \<Rightarrow> string \<Rightarrow> string" where
  "ex_hmac key msg = key @ msg"

definition ex_uuid :: "uuid \<Rightarrow> string" where
  "ex_uuid u = show_nat (unat u)"

lemmas ex_defs = ex_org_def ex_repo_def ex_job_def ex_db_def ex_event_def ex_io_def ex_signer_def
  ex_cfg_def ex_world_def new_signer_def

lemma ex_db_frame [simp]:
  "organizations (ex_db js) = [ex_org]" "repositories (ex_db js) = [ex_repo]"
  "jobs (ex_db js) = js" "snapshots (ex_db js) = []" "rid ex_repo = 2"
  "w_db (ex_world js) = ex_db js" "w_queue (ex_world js) = []"
  by (simp_all add: ex_defs)

lemma ex_repo_registered [simp]: "get_repo_by_github_id 7 (ex_db js) = Inr ex_repo"
  by (simp add: get_repo_by_github_id_def select_one_def ex_defs)

lemma ex_io_ok [simp]: "no_push_faults (ex_io i now)"
  by (simp add: no_push_faults_def ex_io_def)

lemma ex_io_simps [simp]:
  "pio_enqueue (ex_io i now) = None" "pio_new_id (ex_io i now) = i" "pio_clock (ex_io i now) = 0"
  "pio_now (ex_io i now) = now" "pio_commit (ex_io i now) = Committed"
  by (simp_all add: ex_io_def)

lemma ex_event_simps [simp]:
  "ev_repo_id (ex_event c) = 7" "ev_branch (ex_event c) = ''main''" "ev_commit (ex_event c) = c"
  by (simp_all add: ex_event_def)

lemma ex_job_simps [simp]:
  "jid (ex_job i st c t) = i" "jrepo (ex_job i st c t) = 2" "jbranch (ex_job i st c t) = ''main''"
  "jcommit (ex_job i st c t) = c" "jdelivery (ex_job i st c t) = None"
  "jstatus (ex_job i st c t) = st" "jcreated (ex_job i st c t) = t"
  by (simp_all add: ex_job_def)

lemma wf_ex_db:
  assumes "distinct (map jid js)" and "list_all (\<lambda>j. \<exists>i st c t. j = ex_job i st c t) js"
  shows "wf_db (ex_db js)"
proof -
  have "List.map_filter jdelivery js = []"
    using assms(2) by (induction js) auto
  moreover have "List.map_filter (\<lambda>j. Some (jid j)) js = map jid js"
    by (induction js) auto
  moreover have "jrepo ` set js \<subseteq> {2}" "\<forall>j \<in> set js. job_times_ok j"
    using assms(2) by (auto simp: list_all_iff job_times_ok_def ex_job_def)
  ultimately show ?thesis
    using assms(1) by (auto simp: wf_defs unique_on_def ex_org_def ex_repo_def)
qed

lemma wf_ex_db_Nil [simp]: "wf_db (ex_db [])"
  by (rule wf_ex_db) simp_all

lemma wf_ex_db_single [simp]: "wf_db (ex_db [ex_job i st c t])"
  by (rule wf_ex_db) auto

lemma ex_find_queued:
  "List.find (queued_on r b) (ex_job i st c t # js) =
     (if r = 2 \<and> b = ''main'' \<and> st = Queued then Some (ex_job i st c t)
      else List.find (queued_on r b) js)"
  by (auto simp: queued_on_def)

lemma ex_filter_queued:
  "filter (queued_on r b) (ex_job i st c t # js) =
     (if r = 2 \<and> b = ''main'' \<and> st = Queued then [ex_job i st c t] else []) @
     filter (queued_on r b) js"
  by (auto simp: queued_on_def)

lemma one_queued_ex_db_Nil [simp]: "one_queued (ex_db [])"
  by (simp add: one_queued_def)

lemma one_queued_ex_db_single [simp]: "one_queued (ex_db [ex_job i st c t])"
  by (simp add: one_queued_def ex_filter_queued del: filter.simps(2))

lemma pending_ex_db_Nil [simp]: "pending (ex_db []) k = None"
  by (cases k) (simp add: pending_def)

lemma pending_ex_db_queued [simp]: "pending (ex_db [ex_job i Queued c t]) (2, ''main'') = Some c"
  by (simp add: pending_def ex_find_queued del: find.simps(2))

end
