(* ===== verification/PushProps.thy ===== *)
theory PushProps
  imports Samples
begin

text \<open>
  Properties of the store's statements and of \<open>JobService.HandlePush\<close>, each with a concrete
  instance where it has hypotheses.
\<close>

subsection \<open>The store\<close>

lemma claim_job_oldest_first:
  assumes "wf_db d"
  shows "case claim_job now locked d of
           Inl e \<Rightarrow> e = NoRows \<and> (\<forall>j \<in> set (jobs d). jstatus j = Queued \<longrightarrow> jid j \<in> locked)
         | Inr (j, d') \<Rightarrow>
             (\<exists>j0 \<in> set (jobs d). jstatus j0 = Queued \<and> jid j0 \<notin> locked \<and>
                (\<forall>x \<in> set (jobs d). jstatus x = Queued \<and> jid x \<notin> locked \<longrightarrow> jcreated j0 \<le> jcreated x) \<and>
                j = j0\<lparr>jstatus := Running, jstarted := Some now, jupdated := now\<rparr> \<and>
                d' = d\<lparr>jobs := map (\<lambda>x. if jid x = jid j0 then j else x) (jobs d)\<rparr>)"
proof (cases "claim_job now locked d")
  case (Inl e)
  then have "e = NoRows \<and> (\<forall>j \<in> set (jobs d). jstatus j = Queued \<longrightarrow> jid j \<in> locked)"
    by (simp add: claim_job_Inl)
  with Inl show ?thesis by simp
next
  case (Inr jd)
  obtain j d' where jd: "jd = (j, d')" by (cases jd)
  obtain j0 where "j0 \<in> set (jobs d)" "jstatus j0 = Queued" "jid j0 \<notin> locked"
    "\<And>x. x \<in> set (jobs d) \<Longrightarrow> jstatus x = Queued \<Longrightarrow> jid x \<notin> locked \<Longrightarrow> jcreated j0 \<le> jcreated x"
    "j = claimed now j0" "d' = d\<lparr>jobs := update_where (\<lambda>x. jid x = jid j0) (claimed now) (jobs d)\<rparr>"
    using Inr jd by (auto elim: claim_job_InrE)
  moreover from this have "d' = d\<lparr>jobs := map (\<lambda>x. if jid x = jid j0 then j else x) (jobs d)\<rparr>"
    using update_by_id [OF assms, of j0 "claimed now"] by simp
  ultimately show ?thesis by (auto simp: Inr jd claimed_def touch_def)
qed


lemma claims_never_share_a_job:
  assumes "wf_db d" and "claim_job now locked d = Inr (j, d')"
    and "claim_job now' locked' d' = Inr (k, d'')"
  shows "jid j \<noteq> jid k \<and>
         {jid x | x. x \<in> set (jobs d') \<and> jstatus x = Queued} =
           {jid x | x. x \<in> set (jobs d) \<and> jstatus x = Queued} - {jid j}"
proof -
  obtain k0 where "k0 \<in> set (jobs d')" "jid k0 = jid k" "jstatus k0 = Queued"
    using store_claims.claim_queued [OF store_claims.claim_inv [OF assms(1,2)] assms(3)] by blast
  then have "jid j \<noteq> jid k"
    using store_claims.claimed_not_queued [OF assms(1,2), of k0] by auto
  with store_claims.queued_after_claim [OF assms(1,2)] show ?thesis by simp
qed

subsection \<open>Handling a push\<close>

lemma push_keeps_invariants:
  assumes "wf_db (w_db w)" and "one_queued (w_db w)"
  shows "let w' = snd (handle_push hmac us sg enq io ev dl w) in wf_db (w_db w') \<and> one_queued (w_db w')"
  using handle_push_keeps [OF _ assms, of hmac us sg enq io ev dl]
  by (cases "handle_push hmac us sg enq io ev dl w") simp

text \<open>
  C14: Refinement.  Read the jobs table as the map from (repository, branch) to the commit that
  waits to be built.  A push of a registered repository that meets no fault returns \<open>nil\<close> and is
  the map update with the pushed commit, whether it creates a job or moves a queued one; a task is
  enqueued exactly when nothing was waiting on the branch.
\<close>

theorem push_last_wins:
  assumes "wf_db (w_db w)" and "one_queued (w_db w)" and "no_push_faults io"
    and "get_repo_by_github_id (ev_repo_id ev) (w_db w) = Inr repo"
    and "pending (w_db w) (rid repo, ev_branch ev) = None \<Longrightarrow> new_job_ok io dl (w_db w)"
  shows "fst (handle_push hmac us sg enq io ev dl w) = None \<and>
         (let w' = snd (handle_push hmac us sg enq io ev dl w) in
           pending (w_db w') = (pending (w_db w))((rid repo, ev_branch ev) \<mapsto> ev_commit ev) \<and>
           w_queue w' =
             (if pending (w_db w) (rid repo, ev_branch ev) = None
              then snd (enqueue enq (pio_enqueue io) (us (pio_new_id io))
                     (signer_sign hmac sg (pio_clock io) (us (pio_new_id io))) (w_queue w))
              else w_queue w))"
proof (cases "pending (w_db w) (rid repo, ev_branch ev) = None")
  case True
  show ?thesis
    by (rule handle_push_pending_None [OF assms(3,4) True assms(5) [OF True], of hmac us sg enq])
       (simp add: True)
next
  case False
  show ?thesis
    by (rule handle_push_pending_Some [OF assms(1-4) False, of hmac us sg enq dl])
       (simp add: False)
qed

theorem push_last_wins_witness:
  "pending (w_db (snd (handle_push ex_hmac ex_uuid ex_signer (CloudTasksEnqueuer ex_cfg) (ex_io 9 100)
      (ex_event ''b'') ''d'' (ex_world [ex_job 3 Queued ''a'' 20])))) (2, ''main'') = Some ''b''"
  using push_last_wins [of "ex_world [ex_job 3 Queued ''a'' 20]" "ex_io 9 100" "ex_event ''b''" ex_repo
      "''d''" ex_hmac ex_uuid ex_signer "CloudTasksEnqueuer ex_cfg"]
  by (simp add: Let_def)

lemma push_burst_collapses:
  assumes "wf_db (w_db w)" and "one_queued (w_db w)"
    and "get_repo_by_github_id g (w_db w) = Inr repo"
    and "pending (w_db w) (rid repo, b) = None \<Longrightarrow> new_job_ok (fst (hd reqs)) (snd (snd (hd reqs))) (w_db w)"
    and "list_all (\<lambda>(io, ev, dl). no_push_faults io \<and> pio_enqueue io = None \<and>
           ev_repo_id ev = g \<and> ev_branch ev = b) reqs"
    and "reqs \<noteq> []"
  shows "let w' = push_all hmac us sg (CloudTasksEnqueuer cfg) reqs w;
             n = (if pending (w_db w) (rid repo, b) = None then 1 else 0)
         in pending (w_db w') (rid repo, b) = Some (ev_commit (fst (snd (last reqs)))) \<and>
            length (jobs (w_db w')) = length (jobs (w_db w)) + n \<and>
            length (w_queue w') = length (w_queue w) + n"
proof -
  let ?E = "CloudTasksEnqueuer cfg"
  obtain io ev dl rest where reqs: "reqs = (io, ev, dl) # rest"
    using assms(6) by (cases reqs) auto
  have io: "no_push_faults io" "pio_enqueue io = None" "ev_repo_id ev = g" "ev_branch ev = b"
    and rest: "\<And>io ev dl. (io, ev, dl) \<in> set rest \<Longrightarrow>
                 no_push_faults io \<and> ev_repo_id ev = g \<and> ev_branch ev = b"
    using assms(5) by (auto simp: reqs list_all_iff)
  have last: "last (ev_commit ev # map (\<lambda>(io, ev, dl). ev_commit ev) rest) =
                ev_commit (fst (snd (last reqs)))"
    by (simp add: reqs last_map split_def)
  show ?thesis
  proof (cases "pending (w_db w) (rid repo, b)")
    case None
    then have new: "new_job_ok io dl (w_db w)" using assms(4) by (simp add: reqs)
    have g: "get_repo_by_github_id (ev_repo_id ev) (w_db w) = Inr repo"
      and n: "pending (w_db w) (rid repo, ev_branch ev) = None"
      using assms(3) None io(3,4) by simp_all
    obtain j d' where h: "handle_push hmac us sg ?E io ev dl w =
        (None, w\<lparr>w_db := d', w_queue := snd (enqueue ?E (pio_enqueue io) (us (pio_new_id io))
           (signer_sign hmac sg (pio_clock io) (us (pio_new_id io))) (w_queue w))\<rparr>)"
      and c: "create_job (pio_now io) (pio_new_id io) (rid repo) (ev_branch ev) (ev_commit ev) dl (w_db w)
                = Inr (j, d')"
      and p: "pending d' = (pending (w_db w))((rid repo, ev_branch ev) \<mapsto> ev_commit ev)"
      by (rule handle_push_pending_None [OF io(1) g n new])
    have "wf_db d'" "one_queued d'" "get_repo_by_github_id g d' = Inr repo"
      using handle_push_keeps [OF h assms(1,2)] push_repo_stable [OF h] assms(3)
      by (simp_all add: get_repo_by_github_id_def)
    then have "let w' = push_all hmac us sg ?E rest (snd (handle_push hmac us sg ?E io ev dl w)) in
        pending (w_db w') = (pending d')
          ((rid repo, b) \<mapsto> last (ev_commit ev # map (\<lambda>(io, ev, dl). ev_commit ev) rest)) \<and>
        length (jobs (w_db w')) = length (jobs d') \<and>
        w_queue w' = w_queue (snd (handle_push hmac us sg ?E io ev dl w))"
      using push_all_pending [of "snd (handle_push hmac us sg ?E io ev dl w)" g repo b "ev_commit ev" rest
          hmac us sg ?E] rest p io(4) h by simp
    with c last show ?thesis by (simp add: reqs Let_def None create_job_Inr enqueue_defs io h)
  next
    case (Some c)
    have "let w' = push_all hmac us sg ?E reqs w in
       pending (w_db w') = (pending (w_db w))
             ((rid repo, b) \<mapsto> last (c # map (\<lambda>(io, ev, dl). ev_commit ev) reqs)) \<and>
           length (jobs (w_db w')) = length (jobs (w_db w)) \<and> w_queue w' = w_queue w"
      using assms(5) by (intro push_all_pending [OF assms(1-3) Some]) (auto simp: list_all_iff)
    with Some last show ?thesis by (simp add: Let_def reqs)
  qed
qed


text \<open>
  C20: A push that returns an error has changed neither the database nor the task queue, except
  where the commit was applied and only its answer lost.
\<close>

theorem push_error_is_atomic:
  assumes "handle_push hmac us sg enq io ev dl w = (Some err, w')"
    and "\<And>m. pio_commit io \<noteq> CommitLost m"
  shows "w' = w"
  using assms(1) by (cases rule: handle_push_outcomes) (use assms(2) in auto)

theorem push_error_is_atomic_witness:
  "snd (handle_push ex_hmac ex_uuid ex_signer NoopEnqueuer ((ex_io 9 100)\<lparr>pio_commit := CommitFailed ''x''\<rparr>)
      (ex_event ''b'') ''d'' (ex_world [ex_job 3 Queued ''a'' 20])) = ex_world [ex_job 3 Queued ''a'' 20]"
proof (rule push_error_is_atomic)
  show "handle_push ex_hmac ex_uuid ex_signer NoopEnqueuer ((ex_io 9 100)\<lparr>pio_commit := CommitFailed ''x''\<rparr>)
      (ex_event ''b'') ''d'' (ex_world [ex_job 3 Queued ''a'' 20]) =
    (Some (CommitTx ''x''), snd (handle_push ex_hmac ex_uuid ex_signer NoopEnqueuer
       ((ex_io 9 100)\<lparr>pio_commit := CommitFailed ''x''\<rparr>) (ex_event ''b'') ''d''
       (ex_world [ex_job 3 Queued ''a'' 20])))"
    by (simp add: handle_push_def Let_def ex_io_def get_active_jobs_for_branch_def)
qed simp

lemma push_task_is_authorised:
  assumes "handle_push hmac us sg enq io ev dl w = (res, w')"
    and "t \<in> set (w_queue w') - set (w_queue w)"
    and "valid_time now" and "valid_time (pio_clock io + sg_ttl sg)" and "now \<le> pio_clock io + sg_ttl sg"
  shows "res = None \<and>
         (\<exists>j \<in> set (jobs (w_db w')). jstatus j = Queued \<and> jbranch j = ev_branch ev \<and>
            jcommit j = ev_commit ev \<and> task_job_id t = us (jid j)) \<and>
         signer_validate hmac sg now (task_job_id t) (task_job_token t) = None"
  using handle_push_queue [OF assms(1), of t] assms(2)
    signer_tokens.sign_accepted [OF assms(3-5)] by auto

subsection \<open>Redelivery\<close>

lemma push_duplicate:
  assumes "no_push_faults io" and "get_repo_by_github_id (ev_repo_id ev) (w_db w) = Inr repo"
    and "\<And>x. x \<in> set (jobs (w_db w)) \<Longrightarrow> \<not> queued_on (rid repo) (ev_branch ev) x"
    and "dl \<noteq> []" and "x \<in> set (jobs (w_db w))" and "jdelivery x = Some dl"
  shows "handle_push hmac us sg enq io ev dl w = (None, w)"
proof -
  have f: "List.find (\<lambda>j. jstatus j = Queued) (get_active_jobs_for_branch (rid repo) (ev_branch ev) (w_db w)) = None"
    unfolding find_active_None using assms(3) by blast
  have "create_job (pio_now io) (pio_new_id io) (rid repo) (ev_branch ev) (ev_commit ev) dl (w_db w) =
      Inl (PgError unique_violation)"
    using assms(4-6) by (auto simp: create_job_def Let_def)
  then show ?thesis
    using assms(1) by (simp add: handle_push_fresh [OF push_setup_ok [OF assms(1,2)] f] no_push_faults_def is_code_def)
qed

lemma claim_empties_branch:
  assumes "wf_db d" and "one_queued d" and "claim_job now locked d = Inr (j, d')"
    and "q \<in> set (jobs d)" and "queued_on r b q" and "jid q = jid j" and "x \<in> set (jobs d')"
  shows "\<not> queued_on r b x"
  using assms(3)
proof (cases rule: claim_job_InrE)
  case (1 j0)
  have ids: "jid q = jid j0" using 1(5) assms(6) by (simp add: claimed_def)
  show ?thesis
  proof
    assume x: "queued_on r b x"
    then have "x \<in> set (jobs d)" "jid x \<noteq> jid j0"
      using assms(7) by (auto simp: 1(6) update_where_def queued_on_def claimed_def)
    then show False using one_queuedD [OF assms(2) _ assms(4) x assms(5)] ids by simp
  qed
qed

lemma claim_keeps_deliveries:
  "claim_job now locked d = Inr (j, d') \<Longrightarrow> jdelivery ` set (jobs d') = jdelivery ` set (jobs d)"
  by (erule claim_job_InrE) (simp add: image_update_where claimed_def)

lemma push_moves_new_job:
  \<comment> \<open>a push that creates a job, and a second one of the same branch\<close>
  assumes "wf_db (w_db w)" and "one_queued (w_db w)" and "no_push_faults io1" and "no_push_faults io2"
    and "get_repo_by_github_id (ev_repo_id older) (w_db w) = Inr repo"
    and "ev_repo_id newer = ev_repo_id older" and "ev_branch newer = ev_branch older"
    and "pending (w_db w) (rid repo, ev_branch older) = None" and "new_job_ok io1 delivery (w_db w)" and "delivery \<noteq> []"
    and "handle_push hmac us sg enq io1 older delivery w = (res1, w1)"
    and "handle_push hmac us sg enq io2 newer delivery' w1 = (res2, w2)"
  shows "wf_db (w_db w2)" and "one_queued (w_db w2)"
    and "get_repo_by_github_id (ev_repo_id older) (w_db w2) = Inr repo"
    and "pending (w_db w2) (rid repo, ev_branch older) = Some (ev_commit newer)"
    and "\<exists>q \<in> set (jobs (w_db w2)). queued_on (rid repo) (ev_branch older) q \<and> jid q = pio_new_id io1 \<and>
           jdelivery q = Some delivery"
proof -
  obtain j1 d1 where c1: "create_job (pio_now io1) (pio_new_id io1) (rid repo) (ev_branch older) (ev_commit older)
        delivery (w_db w) = Inr (j1, d1)" and w1: "w_db w1 = d1"
    by (rule handle_push_pending_None [OF assms(3,5,8,9), of hmac us sg enq]) (use assms(11) in auto)
  have j1: "j1 \<in> set (jobs d1)" "jid j1 = pio_new_id io1" "jdelivery j1 = Some delivery"
      "queued_on (rid repo) (ev_branch older) j1"
    using c1 assms(10) by (auto simp: create_job_Inr queued_on_def)
  have inv1: "wf_db d1" "one_queued d1" using handle_push_keeps [OF assms(11,1,2)] w1 by simp_all
  have repo1: "get_repo_by_github_id (ev_repo_id newer) (w_db w1) = Inr repo"
    using assms(5,6) push_repo_stable [OF assms(11)] by (simp add: get_repo_by_github_id_def)
  obtain j where f: "List.find (\<lambda>j. jstatus j = Queued)
      (get_active_jobs_for_branch (rid repo) (ev_branch newer) (w_db w1)) = Some j"
    using j1(1,4) w1 assms(7) by (metis find_active_None not_None_eq)
  have "j = j1" using one_queuedD [OF inv1(2), of j j1 "rid repo" "ev_branch older"] find_active_Some [OF f] j1 w1 assms(7) by simp
  then have w2: "w_db w2 = update_job_commit_sha (pio_now io2) (jid j1) (ev_commit newer) d1"
    using assms(4,12) by (simp add: handle_push_found [OF push_setup_ok [OF assms(4) repo1] f] no_push_faults_def Let_def w1)
      (auto simp: w1)
  show "wf_db (w_db w2)" "one_queued (w_db w2)" using handle_push_keeps [OF assms(12)] inv1 w1 by simp_all
  show "get_repo_by_github_id (ev_repo_id older) (w_db w2) = Inr repo"
    using repo1 assms(6) push_repo_stable [OF assms(12)] by (simp add: get_repo_by_github_id_def)
  show "pending (w_db w2) (rid repo, ev_branch older) = Some (ev_commit newer)"
    unfolding w2 pending_commit_sha [OF inv1 j1(1,4)] by simp
  show "\<exists>q \<in> set (jobs (w_db w2)). queued_on (rid repo) (ev_branch older) q \<and> jid q = pio_new_id io1 \<and>
      jdelivery q = Some delivery"
    using j1 by (intro bexI [of _ "touch (pio_now io2) (j1\<lparr>jcommit := ev_commit newer\<rparr>)"])
      (auto simp: w2 update_job_commit_sha_def jobs_update_jobs queued_on_def touch_def)
qed

text \<open>
  C34: The delivery id does not protect a job that is still queued.  A delivery creates a job, a later push moves
  the job to its newer commit, and the first delivery is delivered again.  If the job still waits, the redelivery is
  answered like a push and the job goes back to the older commit, so the newer one is not built.  If a worker has
  claimed the job in between, the same redelivery meets the unique index on the delivery id and changes nothing.
\<close>

theorem redelivery_rewinds_queued_job:
  assumes "wf_db (w_db w)" and "one_queued (w_db w)"
    and "no_push_faults io1" and "no_push_faults io2" and "no_push_faults io3"
    and "get_repo_by_github_id (ev_repo_id older) (w_db w) = Inr repo"
    and "ev_repo_id newer = ev_repo_id older" and "ev_branch newer = ev_branch older"
    and "pending (w_db w) (rid repo, ev_branch older) = None" and "new_job_ok io1 delivery (w_db w)" and "delivery \<noteq> []"
    and "handle_push hmac us sg enq io1 older delivery w = (res1, w1)"
    and "handle_push hmac us sg enq io2 newer delivery' w1 = (res2, w2)"
  shows "pending (w_db w2) (rid repo, ev_branch older) = Some (ev_commit newer) \<and>
     (\<exists>d. handle_push hmac us sg enq io3 older delivery w2 = (None, w2\<lparr>w_db := d\<rparr>) \<and>
        length (jobs d) = length (jobs (w_db w2)) \<and>
        pending d (rid repo, ev_branch older) = Some (ev_commit older)) \<and>
     (\<forall>now locked j d. claim_job now locked (w_db w2) = Inr (j, d) \<and> jid j = pio_new_id io1 \<longrightarrow>
        handle_push hmac us sg enq io3 older delivery (w2\<lparr>w_db := d\<rparr>) = (None, w2\<lparr>w_db := d\<rparr>))"
proof -
  note moved = push_moves_new_job [OF assms(1-4,6-13)]
  obtain q where q: "q \<in> set (jobs (w_db w2))" "queued_on (rid repo) (ev_branch older) q" "jid q = pio_new_id io1"
      "jdelivery q = Some delivery" using moved(5) by blast
  have "\<exists>d. handle_push hmac us sg enq io3 older delivery w2 = (None, w2\<lparr>w_db := d\<rparr>) \<and>
      length (jobs d) = length (jobs (w_db w2)) \<and> pending d (rid repo, ev_branch older) = Some (ev_commit older)"
    by (rule handle_push_pending_Some [OF moved(1,2) assms(5) moved(3), of hmac us sg enq delivery]) (use moved(4) in auto)
  moreover have "handle_push hmac us sg enq io3 older delivery (w2\<lparr>w_db := d\<rparr>) = (None, w2\<lparr>w_db := d\<rparr>)"
    if "claim_job now locked (w_db w2) = Inr (j, d)" "jid j = pio_new_id io1" for now locked j d
  proof -
    have "Some delivery \<in> jdelivery ` set (jobs d)"
      using q(1,4) claim_keeps_deliveries [OF that(1)] by force
    then obtain x where x: "x \<in> set (jobs d)" "jdelivery x = Some delivery" by fastforce
    have r: "get_repo_by_github_id (ev_repo_id older) (w_db (w2\<lparr>w_db := d\<rparr>)) = Inr repo"
      using that(1) moved(3) by (auto simp: get_repo_by_github_id_def elim!: claim_job_InrE)
    show ?thesis
      by (rule push_duplicate [OF assms(5) r _ assms(11), of x])
         (use claim_empties_branch [OF moved(1,2) that(1) q(1,2)] q(3) that(2) x in simp_all)
  qed
  ultimately show ?thesis using moved(4) by blast
qed

theorem redelivery_rewinds_queued_job_witness:
  "let w2 = snd (handle_push ex_hmac ex_uuid ex_signer NoopEnqueuer (ex_io 10 200) (ex_event ''newer'') ''d2''
         (snd (handle_push ex_hmac ex_uuid ex_signer NoopEnqueuer (ex_io 9 100) (ex_event ''older'') ''d1'' (ex_world []))))
   in pending (w_db w2) (2, ''main'') = Some ''newer'' \<and>
     pending (w_db (snd (handle_push ex_hmac ex_uuid ex_signer NoopEnqueuer (ex_io 11 300) (ex_event ''older'') ''d1'' w2)))
       (2, ''main'') = Some ''older''"
  using redelivery_rewinds_queued_job [of "ex_world []" "ex_io 9 100" "ex_io 10 200" "ex_io 11 300" "ex_event ''older''" ex_repo
      "ex_event ''newer''" "''d1''" ex_hmac ex_uuid ex_signer NoopEnqueuer, OF _ _ _ _ _ _ _ _ _ _ _ surjective_pairing surjective_pairing,
      of "''d2''"]
  by (auto simp: Let_def new_job_ok_def)

end
