(* ===== verification/Runner.thy ===== *)
theory Runner
  imports Provider
begin

text \<open>
  The job runner: \<^verbatim>\<open>shared/go/runner/runner.go\<close>, and the report files it reads.

  The reports directory is an association list from file names to contents; \<open>'t\<close> is a checked
  out source tree.  \<open>run_io\<close> holds what the operating system and the tools do: creating
  directories, \<open>git clone\<close> (of a URL at a ref with a token), the \<open>zigzag\<close> binary (which reads a
  tree and writes the reports directory), the reads of \<open>collectResult\<close> (\<open>ri_read\<close>: a
  fault of reading a file that is there; \<open>ri_missing\<close>: the text of the error for one that is not), and
  the text of a JSON error.  The temporary clone
  is removed on every path, so it does not appear in the state.  A deadline (\<open>JobTimeout\<close>) shows
  as a failure of the clone or of the tool.

  \<open>drain\<close> is \<open>Drain\<close>, run on the sequence of events its \<open>select\<close> receives.
\<close>

type_synonym reports = "(string \<times> string) list"

record runner_config =
  rc_workspace_dir :: string
  rc_zigzag_bin :: string
  rc_reports_dir :: string
  rc_job_timeout :: nanos

record run_result =
  rr_reports_dir :: string
  rr_zigzag_version :: string
  rr_size_bytes :: int64

record job_info =
  ji_repo_full_name :: string
  ji_branch :: string
  ji_commit_sha :: string
  ji_clone_token :: string
  ji_installation_id :: int64

record 't run_io =
  ri_mkdir :: "string option"
  ri_mktemp :: "string option"
  ri_clone :: "string \<Rightarrow> string \<Rightarrow> string \<Rightarrow> string + 't"
  ri_zigzag :: "'t \<Rightarrow> reports \<Rightarrow> string option \<times> reports"
  ri_read :: "string option"
  ri_missing :: string
  ri_json_error :: "string \<Rightarrow> string"
  ri_walk :: "string option"
  ri_stat_fails :: "string \<Rightarrow> bool"
  ri_walk_first :: bool

subsection \<open>Collecting the result\<close>

definition report_members :: "string members" where
  \<comment> \<open>the report's struct, which has the version only\<close>
  "report_members =
     [(''meta'', StructSlot (store_members [(''version'', StringSlot (\<lambda>s _. s))]))]"

definition read_version :: "'t run_io \<Rightarrow> reports \<Rightarrow> string + string" where
  "read_version io fs =
     (case ri_read io of
        Some e \<Rightarrow> Inl (''read report.json: '' @ e)
      | None \<Rightarrow>
     (case map_of fs ''report.json'' of
        None \<Rightarrow> Inl (''read report.json: '' @ ri_missing io)
      | Some data \<Rightarrow>
          (case unmarshal report_members [] data of
             None \<Rightarrow> Inl (''parse report.json: '' @ ri_json_error io data)
           | Some v \<Rightarrow> Inr v)))"

definition total_size :: "'t run_io \<Rightarrow> reports \<Rightarrow> int64" where
  "total_size io fs =
     sum_list (map (\<lambda>(name, data). if ri_stat_fails io name then 0 else of_nat (length data)) fs)"

definition collect_result :: "'t run_io \<Rightarrow> string \<Rightarrow> reports \<Rightarrow> string + run_result" where
  \<comment> \<open>both goroutines run; \<open>g.Wait\<close> returns the error that came first\<close>
  "collect_result io reports_dir fs =
     (case (read_version io fs, ri_walk io) of
        (Inr version, None) \<Rightarrow>
          Inr \<lparr>rr_reports_dir = reports_dir, rr_zigzag_version = version, rr_size_bytes = total_size io fs\<rparr>
      | (Inl e, None) \<Rightarrow> Inl e
      | (Inr _, Some w) \<Rightarrow> Inl (''walk reports dir: '' @ w)
      | (Inl e, Some w) \<Rightarrow> Inl (if ri_walk_first io then ''walk reports dir: '' @ w else e))"

subsection \<open>Cloning and running\<close>

definition clone_and_run ::
  "'t run_io \<Rightarrow> runner_config \<Rightarrow> string \<Rightarrow> string \<Rightarrow> string \<Rightarrow> string \<Rightarrow> string \<Rightarrow> reports
     \<Rightarrow> (string + run_result) \<times> reports" where
  "clone_and_run io cfg clone_url branch commit_sha token repo_name fs =
     (case ri_mkdir io of
        Some e \<Rightarrow> (Inl (''create workspace dir: '' @ e), fs)
      | None \<Rightarrow>
     (case ri_mktemp io of
        Some e \<Rightarrow> (Inl (''create work dir: '' @ e), fs)
      | None \<Rightarrow>
     (case ri_clone io clone_url branch token of
        Inl e \<Rightarrow> (Inl (''clone repo: '' @ e), fs)
      | Inr tree \<Rightarrow>
     (case ri_zigzag io tree fs of
        (Some e, fs') \<Rightarrow> (Inl (''zigzag run: '' @ e), fs')
      | (None, fs') \<Rightarrow>
     (case collect_result io (rc_reports_dir cfg) fs' of
        Inl e \<Rightarrow> (Inl (''collect result: '' @ e), fs')
      | Inr result \<Rightarrow> (Inr result, fs'))))))"

definition run_with_token ::
  "'t run_io \<Rightarrow> runner_config \<Rightarrow> job_info \<Rightarrow> reports \<Rightarrow> (string + run_result) \<times> reports" where
  "run_with_token io cfg info fs =
     (let clone_url = ''https://github.com/'' @ ji_repo_full_name info @ ''.git''
      in clone_and_run io cfg clone_url (ji_branch info) (ji_commit_sha info) (ji_clone_token info)
           (ji_repo_full_name info) fs)"

definition run_event ::
  "(int64 \<Rightarrow> string + string) \<Rightarrow> 't run_io \<Rightarrow> runner_config \<Rightarrow> webhook_event \<Rightarrow> reports
     \<Rightarrow> (string + run_result) \<times> reports" where
  "run_event gen_token io cfg event fs =
     (case gen_token (ev_installation event) of
        Inl e \<Rightarrow> (Inl (''generate clone token: '' @ e), fs)
      | Inr token \<Rightarrow>
          clone_and_run io cfg (ev_clone_url event) (ev_branch event) (ev_commit event) token
            (ev_repo_name event) fs)"

subsection \<open>Draining\<close>

datatype drain_event = AllDone | Tick | Deadline int

datatype drain_result = Drained | DrainTimeout int

fun drain :: "drain_event list \<Rightarrow> drain_result option" where
  \<comment> \<open>\<open>Deadline n\<close> carries the in-flight count read at the deadline; \<open>None\<close>: still waiting\<close>
  "drain [] = None"
| "drain (AllDone # es) = Some Drained"
| "drain (Tick # es) = drain es"
| "drain (Deadline n # es) = (if n = 0 then Some Drained else Some (DrainTimeout n))"

definition go_wait :: "int \<Rightarrow> int" where
  "go_wait inflight = inflight + 1"

definition job_finished :: "int \<Rightarrow> int" where
  "job_finished inflight = inflight + (- 1)"

subsection \<open>Outcomes\<close>

lemma collect_result_Inr:
  "collect_result io dir fs = Inr res \<Longrightarrow>
     rr_reports_dir res = dir \<and> rr_size_bytes res = total_size io fs \<and>
     (\<exists>data. map_of fs ''report.json'' = Some data \<and> unmarshal report_members [] data = Some (rr_zigzag_version res))"
  by (auto simp: collect_result_def read_version_def split: sum.splits option.splits if_splits)

lemma clone_and_run_Inl_nonempty: "clone_and_run io cfg u b c t n fs = (Inl e, fs') \<Longrightarrow> e \<noteq> []"
  by (auto simp: clone_and_run_def split: option.splits sum.splits prod.splits)

lemma clone_and_run_Inr:
  "clone_and_run io cfg u b c t n fs = (Inr res, fs') \<Longrightarrow>
     \<exists>tree. ri_clone io u b t = Inr tree \<and> ri_zigzag io tree fs = (None, fs') \<and>
            collect_result io (rc_reports_dir cfg) fs' = Inr res"
  by (auto simp: clone_and_run_def split: option.splits sum.splits prod.splits)

lemma run_with_token_Inl_nonempty: "run_with_token io cfg info fs = (Inl e, fs') \<Longrightarrow> e \<noteq> []"
  by (auto simp: run_with_token_def Let_def dest: clone_and_run_Inl_nonempty)

lemma drain_ticks [simp]: "drain (replicate k Tick @ es) = drain es"
  by (induction k) simp_all

lemma drain_decided_by_first_event:
  "drain es =
     (case dropWhile (\<lambda>e. e = Tick) es of
        [] \<Rightarrow> None
      | AllDone # _ \<Rightarrow> Some Drained
      | Tick # _ \<Rightarrow> None
      | Deadline n # _ \<Rightarrow> Some (if n = 0 then Drained else DrainTimeout n))"
  by (induction es rule: drain.induct) simp_all

end
