(* ===== verification/Storage.thy ===== *)
theory Storage
  imports GoStrings
begin

text \<open>
  The object store client: \<^verbatim>\<open>shared/go/storage/gcs.go\<close>.

  A bucket is a map from object names to contents.  \<open>upload\<close> and \<open>download\<close> are the methods
  \<open>Upload\<close> and \<open>Download\<close>; their arguments are the failures of the calls to the service (an
  object only becomes visible when its writer is closed without an error).
\<close>

type_synonym bucket = "string \<Rightarrow> string option"

datatype storage_error =
    ErrObjectNotFound
  | ErrBucketRequired
  | StorageFailed string
  | ObjectFailed string string string
  \<comment> \<open>the operation, the path (printed with \<^verbatim>\<open>%q\<close>) and the error it wraps\<close>

definition upload :: "string option \<Rightarrow> string option \<Rightarrow> string \<Rightarrow> string \<Rightarrow> bucket \<Rightarrow> storage_error option \<times> bucket"
where
  "upload write_error close_error path data b =
     (case write_error of
        Some e \<Rightarrow> (Some (ObjectFailed ''write object'' path e), b)
      | None \<Rightarrow>
     (case close_error of
        Some e \<Rightarrow> (Some (ObjectFailed ''close writer'' path e), b)
      | None \<Rightarrow> (None, b(path \<mapsto> data))))"

definition download :: "string option \<Rightarrow> string option \<Rightarrow> string \<Rightarrow> bucket \<Rightarrow> storage_error + string" where
  "download open_error read_error path b =
     (case open_error of
        Some e \<Rightarrow> Inl (ObjectFailed ''open object'' path e)
      | None \<Rightarrow>
     (case b path of
        None \<Rightarrow> Inl ErrObjectNotFound
      | Some data \<Rightarrow>
     (case read_error of
        Some e \<Rightarrow> Inl (ObjectFailed ''read object'' path e)
      | None \<Rightarrow> Inr data)))"

definition snapshot_path :: "string \<Rightarrow> string \<Rightarrow> string \<Rightarrow> string" where
  "snapshot_path orgID repoID commitSHA =
     orgID @ ''/'' @ repoID @ ''/'' @ commitSHA @ ''/snapshot.json''"

definition new_storage_client :: "string \<Rightarrow> string option \<Rightarrow> storage_error option" where
  "new_storage_client bucket_name create_error =
     (if bucket_name = [] then Some ErrBucketRequired
      else map_option (\<lambda>e. StorageFailed (''create gcs client: '' @ e)) create_error)"

lemma snapshot_path_not_Nil [simp]: "snapshot_path a b c \<noteq> []"
  by (simp add: snapshot_path_def)

lemma first_separator_inj:
  assumes "(c :: char) \<notin> set a" and "c \<notin> set b"
  shows "a @ c # x = b @ c # y \<longleftrightarrow> a = b \<and> x = y"
proof
  assume "a @ c # x = b @ c # y"
  then have "split_n2 c (a @ c # x) = split_n2 c (b @ c # y)" by (rule arg_cong)
  then show "a = b \<and> x = y" using assms by (simp add: split_n2_join)
qed simp

lemma snapshot_path_inj:
  assumes "CHR ''/'' \<notin> set org \<union> set repo \<union> set commit \<union> set org' \<union> set repo' \<union> set commit'"
  shows "snapshot_path org repo commit = snapshot_path org' repo' commit' \<longleftrightarrow>
           org = org' \<and> repo = repo' \<and> commit = commit'"
  using assms by (simp add: snapshot_path_def first_separator_inj)

lemma snapshot_upload_roundtrip:
  assumes "CHR ''/'' \<notin> set org \<union> set repo \<union> set commit \<union> set org' \<union> set repo' \<union> set commit'"
  shows "(let b1 = snd (upload None None (snapshot_path org repo commit) data b);
              b2 = snd (upload we ce (snapshot_path org' repo' commit') data' b1)
          in download None None (snapshot_path org repo commit) b2 =
               Inr (if we = None \<and> ce = None \<and> (org', repo', commit') = (org, repo, commit)
                    then data' else data))"
  using snapshot_path_inj [OF assms]
  by (cases "we"; cases "ce") (auto simp: Let_def upload_def download_def)

end
