(* ===== verification/GoNet.thy ===== *)
theory GoNet
  imports GoStrings
begin

text \<open>
  The parts of Go's \<open>mime\<close>, \<open>net\<close> and \<open>strings\<close> that look at headers and addresses.

  \<^item> \<open>trim_space\<close> and \<open>trim_left\<close>: \<open>strings.TrimSpace\<close> and \<open>TrimLeftFunc\<close> with \<open>unicode.IsSpace\<close>.
  \<^item> \<open>parse_media_type\<close>: the media type \<open>mime.ParseMediaType\<close> returns, \<open>None\<close> for an error.  The
    parameters are read for their errors only: the program ignores their values, and stitching the
    continued ones together cannot fail.
  \<^item> \<open>split_host_port\<close>: the host \<open>net.SplitHostPort\<close> returns, \<open>None\<close> for an error.
\<close>

subsection \<open>White space\<close>

definition space_runes :: "string list" where
  \<comment> \<open>the UTF-8 encodings of the characters of Unicode's White_Space property\<close>
  "space_runes = map (map char_of)
     ([[9], [10], [11], [12], [13], [32], [194, 133], [194, 160], [225, 154, 128],
       [226, 128, 168], [226, 128, 169], [226, 128, 175], [226, 129, 159], [227, 128, 128]] @
      map (\<lambda>k. [226, 128, k]) [128 ..< (139 :: nat)])"

function trim_left :: "string list \<Rightarrow> string \<Rightarrow> string" where
  "trim_left runes s =
     (case List.find (\<lambda>w. w \<noteq> [] \<and> take (length w) s = w) runes of
        None \<Rightarrow> s
      | Some w \<Rightarrow> trim_left runes (drop (length w) s))"
  by pat_completeness auto
termination
proof (relation "measure (\<lambda>(_, s). length s)", simp)
  fix runes s w
  assume "List.find (\<lambda>w. w \<noteq> [] \<and> take (length w) s = w) runes = Some w"
  then have "w \<noteq> [] \<and> take (length w) s = w" by (auto dest: find_SomeD)
  then have "length w > 0" and "s \<noteq> []" by auto
  then show "((runes, drop (length w) s), (runes, s)) \<in> measure (\<lambda>(_, s). length s)" by simp
qed

declare trim_left.simps [simp del]

definition trim_space :: "string \<Rightarrow> string" where
  \<comment> \<open>\<open>strings.TrimSpace\<close>: from the left, then from the right\<close>
  "trim_space s = rev (trim_left (map rev space_runes) (rev (trim_left space_runes s)))"

lemma length_trim_left: "length (trim_left runes s) \<le> length s"
  by (induction runes s rule: trim_left.induct) (subst trim_left.simps, force split: option.split)

subsection \<open>Media types\<close>

definition lower_char :: "char \<Rightarrow> char" where
  "lower_char c = (if 65 \<le> byte c \<and> byte c \<le> 90 then char_of (byte c + 32) else c)"

fun to_lower :: "string \<Rightarrow> string" where
  \<comment> \<open>\<open>strings.ToLower\<close>.  U+0130 and U+212A are the only other characters whose lower case is ASCII; all
    others stay as they are here, since what is not ASCII is no token in either case.\<close>
  "to_lower [] = []"
| "to_lower (c # cs) =
     (if take 2 (c # cs) = map char_of [196, 176 :: nat] then CHR ''i'' # to_lower (drop 1 cs)
      else if take 3 (c # cs) = map char_of [226, 132, 170 :: nat] then CHR ''k'' # to_lower (drop 2 cs)
      else lower_char c # to_lower cs)"

definition is_tspecial :: "char \<Rightarrow> bool" where
  "is_tspecial c \<longleftrightarrow> c \<in> set ''()<>@,;:/[]?='' \<or> c = CHR 0x22 \<or> c = CHR 0x5C"

definition is_token_char :: "char \<Rightarrow> bool" where
  "is_token_char c \<longleftrightarrow> 32 < byte c \<and> byte c < 127 \<and> \<not> is_tspecial c"

definition consume_token :: "string \<Rightarrow> string \<times> string" where
  "consume_token v = (takeWhile is_token_char v, dropWhile is_token_char v)"

fun quoted_value :: "string \<Rightarrow> (string \<times> string) option" where
  \<comment> \<open>after the opening quote: the value, and what follows the closing quote\<close>
  "quoted_value [] = None"
| "quoted_value (c # cs) =
     (if c = CHR 0x22 then Some ([], cs)
      else if c = CHR 0x5C \<and> cs \<noteq> [] \<and> is_tspecial (hd cs)
        then map_option (apfst (Cons (hd cs))) (quoted_value (tl cs))
      else if c = CHR 0x0D \<or> c = CHR 0x0A then None
      else map_option (apfst (Cons c)) (quoted_value cs))"

definition consume_value :: "string \<Rightarrow> string \<times> string" where
  "consume_value v =
     (if v = [] then ([], [])
      else if hd v \<noteq> CHR 0x22 then consume_token v
      else case quoted_value (tl v) of None \<Rightarrow> ([], v) | Some res \<Rightarrow> res)"

definition consume_media_param :: "string \<Rightarrow> (string \<times> string \<times> string) option" where
  \<comment> \<open>\<open>None\<close>: the empty name \<open>consumeMediaParam\<close> returns when it does not find a parameter\<close>
  "consume_media_param v =
     (case trim_left space_runes v of
        [] \<Rightarrow> None
      | semicolon # rest \<Rightarrow>
          if semicolon \<noteq> CHR '';'' then None
          else (case consume_token (trim_left space_runes rest) of
            (param, rest) \<Rightarrow>
              if param = [] then None
              else (case trim_left space_runes rest of
                 [] \<Rightarrow> None
               | equals # rest \<Rightarrow>
                   if equals \<noteq> CHR ''='' then None
                   else let rest = trim_left space_runes rest in
                     (case consume_value rest of
                        (val, rest2) \<Rightarrow>
                          if val = [] \<and> rest2 = rest then None else Some (to_lower param, val, rest2)))))"

lemma length_quoted_value: "quoted_value v = Some (x, rest) \<Longrightarrow> length rest < length v"
proof (induction v arbitrary: x rest rule: quoted_value.induct)
  case (2 c cs)
  then show ?case by (cases cs) (fastforce split: if_splits)+
qed simp

lemma length_consume_value: "consume_value v = (x, rest) \<Longrightarrow> length rest \<le> length v"
  by (cases v) (auto simp: consume_value_def consume_token_def length_dropWhile_le split: if_splits option.splits
      dest!: length_quoted_value intro: le_SucI)

lemma length_consume_media_param:
  assumes "consume_media_param v = Some (key, val, rest)"
  shows "length rest < length v"
proof -
  obtain r1 r2 where r1: "trim_left space_runes v = CHR '';'' # r1"
    and r2: "trim_left space_runes (dropWhile is_token_char (trim_left space_runes r1)) = CHR ''='' # r2"
    and v: "consume_value (trim_left space_runes r2) = (val, rest)"
    using assms
    by (auto simp: consume_media_param_def consume_token_def Let_def split: list.splits if_splits prod.splits)
  have "length rest \<le> length r2"
    using length_consume_value [OF v] length_trim_left [of space_runes r2] by simp
  also have "\<dots> \<le> length (dropWhile is_token_char (trim_left space_runes r1))"
    using length_trim_left [of space_runes "dropWhile is_token_char (trim_left space_runes r1)"] by (simp add: r2)
  also have "\<dots> \<le> length r1"
    using length_dropWhile_le [of is_token_char "trim_left space_runes r1"] length_trim_left [of space_runes r1]
    by simp
  also have "\<dots> < length v" using length_trim_left [of space_runes v] by (simp add: r1)
  finally show ?thesis .
qed

function media_params :: "(string \<times> string) list \<Rightarrow> string \<Rightarrow> bool" where
  \<comment> \<open>whether the parameters are accepted; a name may come again with the same value\<close>
  "media_params params v =
     (let v = trim_left space_runes v in
      if v = [] then True
      else case consume_media_param v of
        None \<Rightarrow> trim_space v = '';''
      | Some (key, val, rest) \<Rightarrow>
          (case map_of params key of
             Some val' \<Rightarrow> if val' \<noteq> val then False else media_params params rest
           | None \<Rightarrow> media_params ((key, val) # params) rest))"
  by pat_completeness auto
termination
proof (relation "measure (\<lambda>(_, v). length v)")
  have le: "length rest < length v" if "consume_media_param (trim_left space_runes v) = Some (key, val, rest)"
    for v key val rest
    using length_consume_media_param [OF that] length_trim_left [of space_runes v] by simp
  show "((params, rest), (params, v)) \<in> measure (\<lambda>(_, v). length v)"
    if "w = trim_left space_runes v" "consume_media_param w = Some q" "(key, q') = q" "(val, rest) = q'"
    for params v w q key q' val rest
    using that le by auto
  then show "(((key, val) # params, rest), (params, v)) \<in> measure (\<lambda>(_, v). length v)"
    if "w = trim_left space_runes v" "consume_media_param w = Some q" "(key, q') = q" "(val, rest) = q'"
    for params v w q key q' val rest
    using that by auto
qed simp

declare media_params.simps [simp del]

definition media_type_ok :: "string \<Rightarrow> bool" where
  \<comment> \<open>\<open>checkMediaTypeDisposition\<close>\<close>
  "media_type_ok s =
     (case consume_token s of
        (typ, rest) \<Rightarrow>
          if typ = [] then False
          else if rest = [] then True
          else if hd rest \<noteq> CHR ''/'' then False
          else (case consume_token (tl rest) of (subtype, rest) \<Rightarrow> subtype \<noteq> [] \<and> rest = []))"

definition parse_media_type :: "string \<Rightarrow> string option" where
  "parse_media_type v =
     (let base = takeWhile (\<lambda>c. c \<noteq> CHR '';'') v;
          mediatype = trim_space (to_lower base)
      in if \<not> media_type_ok mediatype then None
         else if \<not> media_params [] (drop (length base) v) then None
         else Some mediatype)"

subsection \<open>Host and port\<close>

definition split_host_port :: "string \<Rightarrow> string option" where
  "split_host_port hostport =
     (if CHR '':'' \<notin> set hostport then None
      else let i = length hostport - length (takeWhile (\<lambda>c. c \<noteq> CHR '':'') (rev hostport)) - 1 in
        if hd hostport = CHR ''['' then
          (if CHR '']'' \<notin> set hostport then None
           else let close = length (takeWhile (\<lambda>c. c \<noteq> CHR '']'') hostport) in
             if close + 1 \<noteq> i then None
             else if CHR ''['' \<in> set (drop 1 hostport) \<or> CHR '']'' \<in> set (drop (close + 1) hostport) then None
             else Some (drop 1 (take close hostport)))
        else
          let host = take i hostport in
          if CHR '':'' \<in> set host then None
          else if CHR ''['' \<in> set hostport \<or> CHR '']'' \<in> set hostport then None
          else Some host)"

subsection \<open>Instances\<close>

lemma trim_left_stop:
  assumes "\<And>w. w \<in> set runes \<Longrightarrow> w \<noteq> [] \<Longrightarrow> hd w \<noteq> c"
  shows "trim_left runes (c # cs) = c # cs"
proof -
  have "List.find (\<lambda>w. w \<noteq> [] \<and> take (length w) (c # cs) = w) runes = None"
    unfolding find_None_iff using assms by (fastforce simp: take_Cons split: nat.splits)
  then show ?thesis by (subst trim_left.simps) simp
qed

lemma trim_left_nil [simp]: "trim_left runes [] = []"
proof -
  have "List.find (\<lambda>w. w \<noteq> [] \<and> take (length w) [] = w) runes = None"
    unfolding find_None_iff by auto
  then show ?thesis by (subst trim_left.simps) simp
qed

lemma space_runes_heads:
  assumes "w \<in> set space_runes \<or> rev w \<in> set space_runes"
  shows "byte (hd w) \<le> 32 \<or> 128 \<le> byte (hd w)"
  using assms by (auto simp: space_runes_def rev_eq_Cons_iff [symmetric] simp del: upt_rec_numeral)

lemma trim_left_plain: "32 < byte c \<Longrightarrow> byte c < 128 \<Longrightarrow> trim_left space_runes (c # cs) = c # cs"
  using space_runes_heads by (intro trim_left_stop) force

lemma trim_space_plain:
  assumes "32 < byte c" "byte c < 128" "32 < byte (last (c # cs))" "byte (last (c # cs)) < 128"
  shows "trim_space (c # cs) = c # cs"
proof -
  have "trim_left (map rev space_runes) (rev (c # cs)) = rev (c # cs)"
  proof -
    have "rev (c # cs) = last (c # cs) # rev (butlast (c # cs))"
      by (metis append_butlast_last_id list.distinct(1) rev.simps(2) rev_rev_ident rev_swap)
    moreover have "hd w \<noteq> last (c # cs)" if "w \<in> set (map rev space_runes)" for w
      using that space_runes_heads [of w] assms(3,4) by auto
    ultimately show ?thesis using trim_left_stop by metis
  qed
  then show ?thesis by (simp add: trim_space_def trim_left_plain assms(1,2))
qed

lemma to_lower_plain:
  "list_all (\<lambda>c. byte c < 128 \<and> \<not> (65 \<le> byte c \<and> byte c \<le> 90)) s \<Longrightarrow> to_lower s = s"
  by (induction s) (auto simp: lower_char_def)

lemma json_media_type [simp]: "parse_media_type ''application/json'' = Some ''application/json''"
proof -
  have "trim_space (to_lower ''application/json'') = ''application/json''"
    by (subst to_lower_plain, simp) (rule trim_space_plain; simp)
  then show ?thesis
    by (simp add: parse_media_type_def Let_def media_type_ok_def consume_token_def is_token_char_def is_tspecial_def
        media_params.simps del: to_lower.simps)
qed

lemma split_host_port_ipv4: "split_host_port ''10.0.0.1:80'' = Some ''10.0.0.1''"
  by (simp add: split_host_port_def)

lemma split_host_port_ipv6: "split_host_port ''[::1]:80'' = Some ''::1''"
  by (simp add: split_host_port_def)

end
