(* ===== verification/Guard.thy ===== *)
theory Guard
  imports Http
begin

text \<open>
  The contract of a middleware: \<^verbatim>\<open>func(http.Handler) http.Handler\<close>, as the routers chain them.

  A middleware either answers by itself or passes the request on.  The locale \<open>guard\<close> says what the
  programs rely on: it leaves the part \<open>view\<close> of the state to the handler, it only passes requests
  that \<open>admits\<close> holds of, and what it passes on is related by \<open>fwd\<close> to what came in: the same message
  with another context (\<open>same_message\<close>), or one with its body cut (\<open>cut_message\<close>).  \<open>guard_pair\<close> chains
  two of them.  Each middleware of the API is an interpretation, in the theory that models it.
\<close>

definition same_message :: "request \<Rightarrow> request \<Rightarrow> bool" where
  "same_message r r' \<longleftrightarrow>
     rq_method r' = rq_method r \<and> rq_header r' = rq_header r \<and> rq_query r' = rq_query r \<and>
     rq_param r' = rq_param r \<and> rq_remote_addr r' = rq_remote_addr r \<and> rq_body r' = rq_body r"

definition cut_message :: "nat \<Rightarrow> request \<Rightarrow> request \<Rightarrow> bool" where
  "cut_message n r r' \<longleftrightarrow> same_message (r\<lparr>rq_body := take n (rq_body r)\<rparr>) r'"

lemma same_message_refl [simp, intro]: "same_message r r"
  by (simp add: same_message_def)

lemma same_message_claims [simp]: "same_message r (r\<lparr>rq_claims_subject := c\<rparr>)"
  by (simp add: same_message_def)

lemma cut_message_job [simp]: "cut_message n r (r\<lparr>rq_body := take n (rq_body r), rq_job_id := i\<rparr>)"
  by (simp add: cut_message_def same_message_def)

locale guard =
  fixes m :: "('s, 'a) middleware"
    and view :: "'s \<Rightarrow> 'v"
    and admits :: "request \<Rightarrow> bool"
    and fwd :: "request \<Rightarrow> request \<Rightarrow> bool"
  assumes blocks_or_passes:
    "(\<exists>reply s'. m nxt r s = (reply, s') \<and> view s' = view s) \<or>
     (\<exists>r' s'. m nxt r s = nxt r' s' \<and> view s' = view s \<and> admits r \<and> fwd r r')"
begin

lemma change_admitted:
  assumes "m nxt r s = (reply, s')" and "view s' \<noteq> view s"
  obtains r' t where "admits r" and "fwd r r'" and "view t = view s" and "nxt r' t = (reply, s')"
  using blocks_or_passes [of nxt r s] assms by auto

lemma harmless:
  assumes "\<And>r s reply s'. nxt r s = (reply, s') \<Longrightarrow> view s' = view s" and "m nxt r s = (reply, s')"
  shows "view s' = view s"
proof (rule ccontr)
  assume "view s' \<noteq> view s"
  with assms(2) obtain r' t where "view t = view s" and "nxt r' t = (reply, s')" by (rule change_admitted)
  with assms(1) \<open>view s' \<noteq> view s\<close> show False by metis
qed

end

locale guard_pair =
  outer: guard outer_m view outer_admits outer_fwd + inner: guard inner_m view inner_admits inner_fwd
  for outer_m :: "('s, 'a) middleware" and inner_m :: "('s, 'a) middleware" and view :: "'s \<Rightarrow> 'v"
    and outer_admits :: "request \<Rightarrow> bool" and inner_admits :: "request \<Rightarrow> bool"
    and outer_fwd :: "request \<Rightarrow> request \<Rightarrow> bool" and inner_fwd :: "request \<Rightarrow> request \<Rightarrow> bool" +
  assumes inner_stable: "outer_fwd r r' \<Longrightarrow> inner_admits r' \<Longrightarrow> inner_admits r"

sublocale guard_pair \<subseteq> chain: guard "\<lambda>nxt. outer_m (inner_m nxt)" view
  "\<lambda>r. outer_admits r \<and> inner_admits r" "outer_fwd OO inner_fwd"
proof
  fix nxt r s
  show "(\<exists>reply s'. outer_m (inner_m nxt) r s = (reply, s') \<and> view s' = view s) \<or>
     (\<exists>r' s'. outer_m (inner_m nxt) r s = nxt r' s' \<and> view s' = view s \<and>
        (outer_admits r \<and> inner_admits r) \<and> (outer_fwd OO inner_fwd) r r')"
    using outer.blocks_or_passes [of "inner_m nxt" r s]
  proof (elim disjE exE conjE)
    fix r' s' assume o: "outer_m (inner_m nxt) r s = inner_m nxt r' s'" "view s' = view s" "outer_admits r"
      "outer_fwd r r'"
    then show ?thesis
      using inner.blocks_or_passes [of nxt r' s'] inner_stable [of r r'] relcomppI [of outer_fwd r r' inner_fwd]
      by metis
  qed blast
qed

end
