(* ===== verification/Middleware.thy ===== *)
theory Middleware
  imports JobToken GoNet Guard
begin

text \<open>
  The middlewares in front of the handlers: \<^verbatim>\<open>api/internal/middleware/{auth,contenttype,jobtoken,
  watchdogauth,cors}\<close>.  A middleware takes the next handler and gives a handler, so it either
  answers by itself (leaving the state as it is) or passes a request on, possibly with a value
  added to the context.

  Clerk's JWT verification is the argument \<open>verify\<close> (the subject of the session claims, or an error).
  The rate limiter has its own theory.
\<close>

definition extract_token :: "request \<Rightarrow> string" where
  "extract_token r =
     (case cut_prefix (rq_header r ''Authorization'') ''Bearer '' of
        (token, found) \<Rightarrow> if \<not> found then [] else token)"

definition extract_bearer :: "request \<Rightarrow> string" where
  "extract_bearer r =
     (case cut_prefix (rq_header r ''Authorization'') ''Bearer '' of
        (token, found) \<Rightarrow> if \<not> found then [] else token)"

subsection \<open>Session authentication\<close>

definition claims_from_context :: "request \<Rightarrow> string option" where
  "claims_from_context r = rq_claims_subject r"

definition auth :: "(string \<Rightarrow> string + string) \<Rightarrow> ('s, 'a) middleware" where
  "auth verify nxt r s =
     (let token = extract_token r in
      if token = [] then (err_response 401 ''missing authorization token'', s)
      else case verify token of
        Inl _ \<Rightarrow> (err_response 401 ''invalid or expired token'', s)
      | Inr subject \<Rightarrow> nxt (r\<lparr>rq_claims_subject := Some subject\<rparr>) s)"

subsection \<open>Content type\<close>

definition requires_body :: "string \<Rightarrow> bool" where
  "requires_body m \<longleftrightarrow> m = ''POST'' \<or> m = ''PUT'' \<or> m = ''PATCH''"

definition is_json :: "request \<Rightarrow> bool" where
  "is_json r =
     (let ct = rq_header r ''Content-Type'' in
      if ct = [] then False
      else case parse_media_type ct of
        None \<Rightarrow> False
      | Some t \<Rightarrow> t = ''application/json'')"

definition require_json :: "('s, 'a) middleware" where
  "require_json nxt r s =
     (if requires_body (rq_method r) \<and> \<not> is_json r
      then (err_response 415 ''Content-Type must be application/json'', s)
      else nxt r s)"

subsection \<open>Job tokens\<close>

definition max_body_bytes :: nat where
  "max_body_bytes = 1 * 1024 * 1024"

definition job_id_payload :: "string members" where
  \<comment> \<open>the struct \<open>jobIDPayload\<close>, which is its only field\<close>
  "job_id_payload = [(''job_id'', StringSlot (\<lambda>s _. s))]"

definition decode_job_id :: "string \<Rightarrow> string option" where
  "decode_job_id body = decode_json job_id_payload [] body"

definition jobtoken_auth ::
  "(string \<Rightarrow> string \<Rightarrow> string) \<Rightarrow> signer \<Rightarrow> nanos \<Rightarrow> string option \<Rightarrow> ('s, 'a) middleware" where
  \<comment> \<open>\<open>read_error\<close>: the failure of reading the body, \<open>now\<close>: the clock read by \<open>Validate\<close>\<close>
  "jobtoken_auth hmac signer now read_error nxt r s =
     (let token = extract_bearer r in
      if token = [] then (err_response 401 ''missing authorization token'', s)
      else if read_error \<noteq> None then (err_response 400 ''failed to read body'', s)
      else
        let body = take max_body_bytes (rq_body r) in
        case decode_job_id body of
          None \<Rightarrow> (err_response 400 ''missing or invalid job_id'', s)
        | Some job_id \<Rightarrow>
            if job_id = [] then (err_response 400 ''missing or invalid job_id'', s)
            else (case signer_validate hmac signer now job_id token of
                Some _ \<Rightarrow> (err_response 401 ''invalid or expired token'', s)
              | None \<Rightarrow> nxt (r\<lparr>rq_body := body, rq_job_id := Some job_id\<rparr>) s))"

subsection \<open>The watchdog's shared secret\<close>

definition shared_secret :: "string \<Rightarrow> ('s, 'a) middleware" where
  "shared_secret secret nxt r s =
     (case cut_prefix (rq_header r ''Authorization'') ''Bearer '' of
        (token, found) \<Rightarrow>
          if \<not> found \<or> token = [] then (err_response 401 ''missing authorization token'', s)
          else if token \<noteq> secret then (err_response 401 ''invalid watchdog token'', s)
          else nxt r s)"

subsection \<open>Cross-origin requests\<close>

record cors_options =
  co_origins :: "string list"
  co_methods :: "string list"
  co_headers :: "string list"
  co_credentials :: bool
  co_max_age :: int

definition cors :: "string list \<Rightarrow> cors_options" where
  "cors allowed_origins =
     \<lparr>co_origins = (if length allowed_origins = 0 then [''https://zagforge.com''] else allowed_origins),
      co_methods = [''GET'', ''OPTIONS''],
      co_headers = [''Authorization'', ''Content-Type''],
      co_credentials = False,
      co_max_age = 300\<rparr>"

subsection \<open>What each middleware lets through\<close>

lemma bearer_nonempty:
  "extract_bearer r \<noteq> [] \<longleftrightarrow> (\<exists>t. t \<noteq> [] \<and> rq_header r ''Authorization'' = ''Bearer '' @ t)"
proof -
  obtain t f where c: "cut_prefix (rq_header r ''Authorization'') ''Bearer '' = (t, f)" by fastforce
  show ?thesis
    using c cut_prefix_found [of "rq_header r ''Authorization''" "''Bearer ''" t]
      cut_prefix_not_found [of "rq_header r ''Authorization''" "''Bearer ''" t]
    by (cases f) (auto simp: extract_bearer_def simp del: cut_prefix.simps)
qed

lemma bearer_value:
  "rq_header r ''Authorization'' = ''Bearer '' @ t \<Longrightarrow> extract_bearer r = t"
  by (simp add: extract_bearer_def del: cut_prefix.simps append.simps)

lemma extract_token_eq: "extract_token r = extract_bearer r"
  by (simp add: extract_token_def extract_bearer_def)

lemma jobtoken_auth_pass:
  assumes "rq_header r ''Authorization'' = ''Bearer '' @ t" and "t \<noteq> []"
    and "decode_job_id (take max_body_bytes (rq_body r)) = Some i" and "i \<noteq> []"
    and "signer_validate hmac signer now i t = None"
  shows "jobtoken_auth hmac signer now None nxt r s =
           nxt (r\<lparr>rq_body := take max_body_bytes (rq_body r), rq_job_id := Some i\<rparr>) s"
  using assms bearer_value [OF assms(1)] by (simp add: jobtoken_auth_def Let_def)

lemma jobtoken_auth_cases:
  obtains (refused) n msg where "jobtoken_auth hmac signer now re nxt r s = (ErrReply n msg, s)"
      and "n = 400 \<or> n = 401"
  | (passed) i where "decode_job_id (take max_body_bytes (rq_body r)) = Some i" and "i \<noteq> []"
      and "signer_validate hmac signer now i (extract_bearer r) = None"
      and "jobtoken_auth hmac signer now re nxt r s =
             nxt (r\<lparr>rq_body := take max_body_bytes (rq_body r), rq_job_id := Some i\<rparr>) s"
proof -
  have "(\<exists>n msg. jobtoken_auth hmac signer now re nxt r s = (ErrReply n msg, s) \<and>
           (n = 400 \<or> n = 401)) \<or>
        (\<exists>i. decode_job_id (take max_body_bytes (rq_body r)) = Some i \<and> i \<noteq> [] \<and>
           signer_validate hmac signer now i (extract_bearer r) = None \<and>
           jobtoken_auth hmac signer now re nxt r s =
             nxt (r\<lparr>rq_body := take max_body_bytes (rq_body r), rq_job_id := Some i\<rparr>) s)"
    by (auto simp: jobtoken_auth_def Let_def err_response_def split: option.split)
  then show ?thesis using that by blast
qed

lemma require_json_cases:
  obtains (refused) "require_json nxt r s = (err_response 415 ''Content-Type must be application/json'', s)"
      and "requires_body (rq_method r)"
  | (passed) "require_json nxt r s = nxt r s" and "requires_body (rq_method r) \<longrightarrow> is_json r"
  by (cases "requires_body (rq_method r) \<and> \<not> is_json r") (auto simp: require_json_def)

subsection \<open>Each middleware is a guard\<close>

interpretation json_guard: guard "require_json" view "\<lambda>r. requires_body (rq_method r) \<longrightarrow> is_json r"
  same_message for view
proof
  fix nxt :: "('a, 'b) handler" and r s
  show "(\<exists>reply s'. require_json nxt r s = (reply, s') \<and> view s' = view s) \<or>
     (\<exists>r' s'. require_json nxt r s = nxt r' s' \<and> view s' = view s \<and>
        (requires_body (rq_method r) \<longrightarrow> is_json r) \<and> same_message r r')"
  proof (cases rule: require_json_cases [of nxt r s])
    case passed
    then show ?thesis by (intro disjI2 exI [of _ r] exI [of _ s] conjI) simp_all
  qed simp
qed

interpretation session_guard: guard "auth verify" view
  "\<lambda>r. extract_token r \<noteq> [] \<and> (\<exists>subject. verify (extract_token r) = Inr subject)" same_message for verify view
proof
  fix nxt :: "('a, 'b) handler" and r s
  show "(\<exists>reply s'. auth verify nxt r s = (reply, s') \<and> view s' = view s) \<or>
     (\<exists>r' s'. auth verify nxt r s = nxt r' s' \<and> view s' = view s \<and>
        (extract_token r \<noteq> [] \<and> (\<exists>subject. verify (extract_token r) = Inr subject)) \<and> same_message r r')"
  proof (cases "extract_token r \<noteq> [] \<and> (\<exists>subject. verify (extract_token r) = Inr subject)")
    case True
    then obtain subject where "auth verify nxt r s = nxt (r\<lparr>rq_claims_subject := Some subject\<rparr>) s"
      by (auto simp: auth_def Let_def)
    then show ?thesis using True
      by (intro disjI2 exI [of _ "r\<lparr>rq_claims_subject := Some subject\<rparr>"] exI [of _ s] conjI) simp_all
  next
    case False
    then have "snd (auth verify nxt r s) = s"
      by (cases "verify (extract_token r)") (auto simp: auth_def Let_def)
    then show ?thesis by (intro disjI1 exI [of _ "fst (auth verify nxt r s)"] exI [of _ s]) (simp add: prod_eq_iff)
  qed
qed

interpretation token_guard: guard "jobtoken_auth hmac sg now re" view
  "\<lambda>r. \<exists>i. i \<noteq> [] \<and> signer_validate hmac sg now i (extract_bearer r) = None" "cut_message max_body_bytes"
  for hmac sg now re view
proof
  fix nxt :: "('a, 'b) handler" and r s
  show "(\<exists>reply s'. jobtoken_auth hmac sg now re nxt r s = (reply, s') \<and> view s' = view s) \<or>
     (\<exists>r' s'. jobtoken_auth hmac sg now re nxt r s = nxt r' s' \<and> view s' = view s \<and>
        (\<exists>i. i \<noteq> [] \<and> signer_validate hmac sg now i (extract_bearer r) = None) \<and> cut_message max_body_bytes r r')"
  proof (cases rule: jobtoken_auth_cases [of hmac sg now re nxt r s])
    case refused
    then show ?thesis by simp
  next
    case (passed i)
    then show ?thesis
      by (intro disjI2 exI [of _ "r\<lparr>rq_body := take max_body_bytes (rq_body r), rq_job_id := Some i\<rparr>"]
            exI [of _ s] conjI exI [of _ i]) simp_all
  qed
qed

lemma shared_secret_eq:
  "shared_secret secret h r s =
     (if secret \<noteq> [] \<and> rq_header r ''Authorization'' = ''Bearer '' @ secret then h r s
      else (err_response 401 (if \<exists>t. t \<noteq> [] \<and> rq_header r ''Authorization'' = ''Bearer '' @ t
                              then ''invalid watchdog token'' else ''missing authorization token''), s))"
proof -
  obtain t f where c: "cut_prefix (rq_header r ''Authorization'') ''Bearer '' = (t, f)" by fastforce
  show ?thesis
  proof (cases f)
    case True
    with c have "rq_header r ''Authorization'' = ''Bearer '' @ t" by (simp only: cut_prefix_found)
    then show ?thesis using c True by (simp add: shared_secret_def del: cut_prefix.simps)
  next
    case False
    with c have "\<And>u. rq_header r ''Authorization'' \<noteq> ''Bearer '' @ u" by (simp only: cut_prefix_not_found) simp
    then show ?thesis using c False by (simp add: shared_secret_def del: cut_prefix.simps)
  qed
qed

interpretation secret_guard: guard "shared_secret secret" view
  "\<lambda>r. secret \<noteq> [] \<and> rq_header r ''Authorization'' = ''Bearer '' @ secret" same_message for secret view
proof
  fix nxt :: "('a, 'b) handler" and r :: request and s
  let ?a = "secret \<noteq> [] \<and> rq_header r ''Authorization'' = ''Bearer '' @ secret"
  show "(\<exists>reply s'. shared_secret secret nxt r s = (reply, s') \<and> view s' = view s) \<or>
     (\<exists>r' s'. shared_secret secret nxt r s = nxt r' s' \<and> view s' = view s \<and> ?a \<and> same_message r r')"
  proof (cases ?a)
    case True
    then show ?thesis by (intro disjI2 exI [of _ r] exI [of _ s] conjI) (simp_all add: shared_secret_eq)
  next
    case False
    then have "snd (shared_secret secret nxt r s) = s" by (subst shared_secret_eq) auto
    then show ?thesis
      by (intro disjI1 exI [of _ "fst (shared_secret secret nxt r s)"] exI [of _ s]) (simp add: prod_eq_iff)
  qed
qed

end
