(* ===== verification/Validate.thy ===== *)
theory Validate
  imports GoStrings
begin

text \<open>
  Request validation: \<^verbatim>\<open>api/internal/validate/validate.go\<close>.

  The validator package itself is outside the repository: a handler takes its verdict on a
  struct (the list of \<open>FieldError\<close>s, empty when it accepts) as an argument.  Here is what the
  program does with the verdict: one message per field error, joined by \<^verbatim>\<open>"; "\<close>.
\<close>

record field_err =
  fe_field :: string
  fe_tag :: string
  fe_param :: string

definition field_error :: "field_err \<Rightarrow> string" where
  "field_error fe =
     (if fe_tag fe = ''required'' then fe_field fe @ '' is required''
      else if fe_tag fe = ''required_if'' then fe_field fe @ '' is required when '' @ fe_param fe
      else if fe_tag fe = ''uuid'' then fe_field fe @ '' must be a valid UUID''
      else if fe_tag fe = ''oneof'' then fe_field fe @ '' must be one of: '' @ fe_param fe
      else if fe_tag fe = ''gt'' then fe_field fe @ '' must be greater than '' @ fe_param fe
      else if fe_tag fe = ''gte'' then fe_field fe @ '' must be greater than or equal to '' @ fe_param fe
      else if fe_tag fe = ''max'' then fe_field fe @ '' must be at most '' @ fe_param fe @ '' characters''
      else if fe_tag fe = ''min'' then fe_field fe @ '' must be at least '' @ fe_param fe @ '' characters''
      else fe_field fe @ '' failed on '' @ fe_tag fe @ '' validation'')"

fun join_with :: "string \<Rightarrow> string list \<Rightarrow> string" where
  \<comment> \<open>\<open>strings.Join\<close>\<close>
  "join_with sep [] = []"
| "join_with sep [x] = x"
| "join_with sep (x # xs) = x @ sep @ join_with sep xs"

definition format_errors :: "field_err list \<Rightarrow> string" where
  "format_errors ve = join_with ''; '' (map field_error ve)"

definition validate_struct :: "field_err list \<Rightarrow> string option" where
  "validate_struct ve = (if ve = [] then None else Some (format_errors ve))"

lemma field_error_nonempty: "field_error fe \<noteq> []"
  by (simp add: field_error_def)

lemma join_with_nonempty: "xs \<noteq> [] \<Longrightarrow> (\<And>x. x \<in> set xs \<Longrightarrow> x \<noteq> []) \<Longrightarrow> join_with sep xs \<noteq> []"
  by (induction sep xs rule: join_with.induct) auto

end
