(* ===== verification/Callback.thy ===== *)
theory Callback
  imports Tx Http Validate
begin

text \<open>
  The worker's callbacks: \<^verbatim>\<open>api/internal/handler/callback\<close>.

  \<open>start_handler\<close> and \<open>complete_handler\<close> are the methods \<open>Handler.Start\<close> and \<open>Handler.Complete\<close>,
  \<open>respond_start\<close> the method \<open>respondStart\<close>.  \<open>start_members\<close> and \<open>complete_members\<close>
  are the fields of the structs \<open>StartRequest\<close> and \<open>CompleteRequest\<close>.  Arguments: the validator's verdict, the UUID parser, the clone token generator
  (\<open>CloneTokenGenerator\<close>), and in \<open>start_io\<close> / \<open>complete_io\<close> what the outside decides: the
  failure of each database call, the transaction's start time and the new row's id.
\<close>

record start_request =
  sr_job_id :: string

record start_response =
  sp_commit_sha :: string
  sp_branch :: string
  sp_repo_full_name :: string
  sp_clone_token :: string
  sp_installation_id :: int64

record complete_request =
  cr_job_id :: string
  cr_status :: string
  cr_error_message :: string
  cr_snapshot_path :: string
  cr_zigzag_version :: string
  cr_size_bytes :: int64
  cr_duration_ms :: int64

subsection \<open>The structs of the bodies\<close>

definition start_members :: "start_request members" where
  "start_members = [(''job_id'', StringSlot (\<lambda>s req. req\<lparr>sr_job_id := s\<rparr>))]"

definition decode_start :: "string \<Rightarrow> start_request option" where
  "decode_start body = decode_json start_members \<lparr>sr_job_id = []\<rparr> body"

definition complete_members :: "complete_request members" where
  "complete_members =
     [(''job_id'', StringSlot (\<lambda>s req. req\<lparr>cr_job_id := s\<rparr>)),
      (''status'', StringSlot (\<lambda>s req. req\<lparr>cr_status := s\<rparr>)),
      (''error_message'', StringSlot (\<lambda>s req. req\<lparr>cr_error_message := s\<rparr>)),
      (''snapshot_path'', StringSlot (\<lambda>s req. req\<lparr>cr_snapshot_path := s\<rparr>)),
      (''zigzag_version'', StringSlot (\<lambda>s req. req\<lparr>cr_zigzag_version := s\<rparr>)),
      (''size_bytes'', Int64Slot (\<lambda>n req. req\<lparr>cr_size_bytes := n\<rparr>)),
      (''duration_ms'', Int64Slot (\<lambda>n req. req\<lparr>cr_duration_ms := n\<rparr>))]"

definition no_request :: complete_request where
  \<comment> \<open>the zero value\<close>
  "no_request = \<lparr>cr_job_id = [], cr_status = [], cr_error_message = [], cr_snapshot_path = [],
     cr_zigzag_version = [], cr_size_bytes = 0, cr_duration_ms = 0\<rparr>"

definition decode_complete :: "string \<Rightarrow> complete_request option" where
  "decode_complete body = decode_json complete_members no_request body"

definition start_response_json :: "start_response \<Rightarrow> json" where
  "start_response_json x =
     JObject [(''commit_sha'', JString (sp_commit_sha x)), (''branch'', JString (sp_branch x)),
              (''repo_full_name'', JString (sp_repo_full_name x)), (''clone_token'', JString (sp_clone_token x)),
              (''installation_id'', JNumber (format_int64 (sp_installation_id x)))]"

definition status_response_json :: "string \<Rightarrow> json" where
  "status_response_json status = JObject [(''status'', JString status)]"

subsection \<open>The handlers\<close>

record start_io =
  sio_begin :: "string option"
  sio_get :: "string option"
  sio_update :: "string option"
  sio_commit :: commit_outcome
  sio_repo :: "string option"
  sio_now :: pgtime

record complete_io =
  cio_begin :: "string option"
  cio_get :: "string option"
  cio_update :: "string option"
  cio_insert :: "string option"
  cio_commit :: commit_outcome
  cio_now :: pgtime
  cio_new_id :: uuid

definition job_id_from_context :: "request \<Rightarrow> string" where
  \<comment> \<open>\<open>JobIDFromContext\<close>: the empty string when the middleware did not run\<close>
  "job_id_from_context r = (case rq_job_id r of None \<Rightarrow> [] | Some i \<Rightarrow> i)"

definition respond_start ::
  "(int64 \<Rightarrow> string + string) \<Rightarrow> start_io \<Rightarrow> job \<Rightarrow> db \<Rightarrow> start_response reply" where
  "respond_start gen_token io job d =
     (case with_fault (sio_repo io) (get_repo_for_job (jid job) d) of
        Inl _ \<Rightarrow> internal_error
      | Inr repo \<Rightarrow>
          (case gen_token (rj_installation repo) of
             Inl _ \<Rightarrow> err_response 500 ''failed to generate clone token''
           | Inr tok \<Rightarrow>
               JsonReply 200 \<lparr>sp_commit_sha = jcommit job, sp_branch = jbranch job,
                              sp_repo_full_name = rj_full_name repo, sp_clone_token = tok,
                              sp_installation_id = rj_installation repo\<rparr>))"

definition start_locked ::
  "(int64 \<Rightarrow> string + string) \<Rightarrow> start_io \<Rightarrow> job \<Rightarrow> db \<Rightarrow> start_response reply \<times> db" where
  \<comment> \<open>\<open>Start\<close> from the point where it holds the job's row lock\<close>
  "start_locked gen_token io job d =
     (if jstatus job = Running then
        (case commit_tx (sio_commit io) d d of
           (Some _, d') \<Rightarrow> (internal_error, d')
         | (None, d') \<Rightarrow> (respond_start gen_token io job d', d'))
      else if is_terminal (jstatus job) then
        (err_response 409 (''job already in terminal state: '' @ status_string (jstatus job)), d)
      else
        (case with_fault (sio_update io) (Inr (update_job_status (sio_now io) (jid job) Running None d)) of
           Inl _ \<Rightarrow> (internal_error, d)
         | Inr d1 \<Rightarrow>
             (case commit_tx (sio_commit io) d d1 of
                (Some _, d') \<Rightarrow> (internal_error, d')
              | (None, d') \<Rightarrow> (respond_start gen_token io job d', d'))))"

definition start_handler ::
  "(start_request \<Rightarrow> field_err list) \<Rightarrow> (string \<Rightarrow> uuid option)
     \<Rightarrow> (int64 \<Rightarrow> string + string) \<Rightarrow> start_io \<Rightarrow> request \<Rightarrow> db \<Rightarrow> start_response reply \<times> db" where
  "start_handler vstruct uuid_scan gen_token io r d =
     (case decode_start (rq_body r) of
        None \<Rightarrow> (err_response 400 ''invalid request body'', d)
      | Some req \<Rightarrow>
     (case validate_struct (vstruct req) of
        Some msg \<Rightarrow> (err_response 400 msg, d)
      | None \<Rightarrow>
      if sr_job_id req \<noteq> job_id_from_context r then (err_response 400 ''job_id mismatch'', d)
      else
     (case uuid_scan (sr_job_id req) of
        None \<Rightarrow> (err_response 400 ''invalid job_id'', d)
      | Some i \<Rightarrow>
     (case sio_begin io of
        Some _ \<Rightarrow> (internal_error, d)
      | None \<Rightarrow>
     (case with_fault (sio_get io) (get_job_for_update i d) of
        Inl e \<Rightarrow> if e = NoRows then (err_response 404 ''job not found'', d) else (internal_error, d)
      | Inr job \<Rightarrow> start_locked gen_token io job d)))))"

definition max_callback_bytes :: nat where
  "max_callback_bytes = 1 * 1024 * 1024"

definition complete_update :: "complete_io \<Rightarrow> complete_request \<Rightarrow> job \<Rightarrow> job_status \<Rightarrow> db \<Rightarrow> db" where
  "complete_update io req job status d =
     update_job_status (cio_now io) (jid job) status
       (if cr_error_message req = [] then None else Some (cr_error_message req)) d"

definition complete_insert ::
  "complete_io \<Rightarrow> complete_request \<Rightarrow> job \<Rightarrow> db \<Rightarrow> pg_error + (snapshot \<times> db)" where
  "complete_insert io req job d =
     insert_snapshot (cio_now io) (cio_new_id io) (jrepo job) (jid job) (jbranch job)
       (jcommit job) (cr_snapshot_path req) 1 (cr_zigzag_version req) (cr_size_bytes req) d"

definition complete_locked :: "complete_io \<Rightarrow> complete_request \<Rightarrow> job \<Rightarrow> db \<Rightarrow> string reply \<times> db" where
  \<comment> \<open>\<open>Complete\<close> from the point where it holds the job's row lock\<close>
  "complete_locked io req job d =
     (if is_terminal (jstatus job) then (JsonReply 200 (status_string (jstatus job)), d)
      else
     (case job_status_of_string (cr_status req) of
        None \<Rightarrow> (internal_error, d) \<comment> \<open>refused by the CHECK constraint of \<open>jobs.status\<close>\<close>
      | Some status \<Rightarrow>
     (case with_fault (cio_update io) (Inr (complete_update io req job status d)) of
        Inl _ \<Rightarrow> (internal_error, d)
      | Inr d1 \<Rightarrow>
     (case (if status = Succeeded
            then with_fault (cio_insert io) (map_sum id snd (complete_insert io req job d1))
            else Inr d1) of
        Inl _ \<Rightarrow> (internal_error, d)
      | Inr d2 \<Rightarrow>
        (case commit_tx (cio_commit io) d d2 of
           (Some _, d') \<Rightarrow> (internal_error, d')
         | (None, d') \<Rightarrow> (JsonReply 200 (cr_status req), d'))))))"

definition complete_handler ::
  "(complete_request \<Rightarrow> field_err list)
     \<Rightarrow> (string \<Rightarrow> uuid option) \<Rightarrow> complete_io \<Rightarrow> request \<Rightarrow> db \<Rightarrow> string reply \<times> db" where
  "complete_handler vstruct uuid_scan io r d =
     (case decode_complete (take max_callback_bytes (rq_body r)) of
        None \<Rightarrow> (err_response 400 ''invalid request body'', d)
      | Some req \<Rightarrow>
     (case validate_struct (vstruct req) of
        Some msg \<Rightarrow> (err_response 400 msg, d)
      | None \<Rightarrow>
      if cr_job_id req \<noteq> job_id_from_context r then (err_response 400 ''job_id mismatch'', d)
      else
     (case uuid_scan (cr_job_id req) of
        None \<Rightarrow> (err_response 400 ''invalid job_id'', d)
      | Some i \<Rightarrow>
     (case cio_begin io of
        Some _ \<Rightarrow> (internal_error, d)
      | None \<Rightarrow>
     (case with_fault (cio_get io) (get_job_for_update i d) of
        Inl e \<Rightarrow> if e = NoRows then (err_response 404 ''job not found'', d) else (internal_error, d)
      | Inr job \<Rightarrow> complete_locked io req job d)))))"

subsection \<open>Which job a callback acts on\<close>

definition is_refusal :: "'a reply \<Rightarrow> bool" where
  "is_refusal reply \<longleftrightarrow> (\<exists>msg. reply = ErrReply 400 msg \<or> reply = ErrReply 404 msg \<or> reply = ErrReply 500 msg)"

lemma is_refusal_simps [simp]:
  "is_refusal (ErrReply 400 m)" "is_refusal (ErrReply 404 m)" "is_refusal (ErrReply 500 m)"
  "is_refusal internal_error" "\<not> is_refusal (JsonReply n x)"
  by (simp_all add: is_refusal_def internal_error_def err_response_def)

lemma complete_handler_cases:
  obtains (refused) reply where "complete_handler vstruct uuid_scan io r d = (reply, d)"
      and "is_refusal reply"
  | (locked) req job where "decode_complete (take max_callback_bytes (rq_body r)) = Some req"
      and "vstruct req = []" and "cr_job_id req = job_id_from_context r"
      and "uuid_scan (cr_job_id req) = Some (jid job)" and "job \<in> set (jobs d)"
      and "complete_handler vstruct uuid_scan io r d = complete_locked io req job d"
proof -
  have "(\<exists>reply. complete_handler vstruct uuid_scan io r d = (reply, d) \<and> is_refusal reply) \<or>
        (\<exists>req job. decode_complete (take max_callback_bytes (rq_body r)) = Some req \<and> vstruct req = [] \<and>
           cr_job_id req = job_id_from_context r \<and> uuid_scan (cr_job_id req) = Some (jid job) \<and>
           job \<in> set (jobs d) \<and>
           complete_handler vstruct uuid_scan io r d = complete_locked io req job d)"
    by (auto simp: complete_handler_def err_response_def validate_struct_def with_fault_Inr
          get_job_for_update_def dest!: select_one_Inr split: option.split sum.split)
  then show ?thesis using that by blast
qed

lemma complete_handler_locked:
  assumes "wf_db d" and "decode_complete (take max_callback_bytes (rq_body r)) = Some req"
    and "vstruct req = []" and "cr_job_id req = job_id_from_context r"
    and "uuid_scan (cr_job_id req) = Some (jid job)" and "job \<in> set (jobs d)"
    and "cio_begin io = None" and "cio_get io = None"
  shows "complete_handler vstruct uuid_scan io r d = complete_locked io req job d"
  using assms wf_get_job [OF assms(1,6)]
  by (simp add: complete_handler_def validate_struct_def get_job_for_update_def)

lemma start_handler_cases:
  obtains (refused) reply where "start_handler vstruct uuid_scan gen io r d = (reply, d)"
      and "is_refusal reply"
  | (locked) req job where "decode_start (rq_body r) = Some req"
      and "vstruct req = []" and "sr_job_id req = job_id_from_context r"
      and "uuid_scan (sr_job_id req) = Some (jid job)" and "job \<in> set (jobs d)"
      and "start_handler vstruct uuid_scan gen io r d = start_locked gen io job d"
proof -
  have "(\<exists>reply. start_handler vstruct uuid_scan gen io r d = (reply, d) \<and> is_refusal reply) \<or>
        (\<exists>req job. decode_start (rq_body r) = Some req \<and> vstruct req = [] \<and>
           sr_job_id req = job_id_from_context r \<and> uuid_scan (sr_job_id req) = Some (jid job) \<and>
           job \<in> set (jobs d) \<and>
           start_handler vstruct uuid_scan gen io r d = start_locked gen io job d)"
    by (auto simp: start_handler_def err_response_def validate_struct_def with_fault_Inr
          get_job_for_update_def dest!: select_one_Inr split: option.split sum.split)
  then show ?thesis using that by blast
qed

lemma start_handler_locked:
  assumes "wf_db d" and "decode_start (rq_body r) = Some req"
    and "vstruct req = []" and "sr_job_id req = job_id_from_context r"
    and "uuid_scan (sr_job_id req) = Some (jid job)" and "job \<in> set (jobs d)"
    and "sio_begin io = None" and "sio_get io = None"
  shows "start_handler vstruct uuid_scan gen io r d = start_locked gen io job d"
  using assms wf_get_job [OF assms(1,6)]
  by (simp add: start_handler_def validate_struct_def get_job_for_update_def)

subsection \<open>The outcomes of the locked parts\<close>

lemma complete_locked_cases:
  obtains (terminal) "is_terminal (jstatus job)"
      and "complete_locked io req job d = (JsonReply 200 (status_string (jstatus job)), d)"
  | (failed) "complete_locked io req job d = (internal_error, d)" and "\<not> is_terminal (jstatus job)"
  | (completed) status d2 reply where "\<not> is_terminal (jstatus job)"
      and "job_status_of_string (cr_status req) = Some status"
      and "if status = Succeeded
           then \<exists>s. complete_insert io req job (complete_update io req job status d) = Inr (s, d2)
           else d2 = complete_update io req job status d"
      and "complete_locked io req job d = (reply, d2)"
      and "reply = JsonReply 200 (cr_status req) \<and> cio_commit io = Committed \<or>
           reply = internal_error \<and> (\<exists>m. cio_commit io = CommitLost m)"
proof (cases "is_terminal (jstatus job)")
  case True
  then show ?thesis using terminal by (simp add: complete_locked_def)
next
  case nt: False
  show ?thesis
  proof (cases "job_status_of_string (cr_status req)")
    case None
    then show ?thesis using failed nt by (simp add: complete_locked_def)
  next
    case (Some status)
    let ?r = "if status = Succeeded
       then with_fault (cio_insert io)
              (map_sum id snd (complete_insert io req job (complete_update io req job status d)))
       else Inr (complete_update io req job status d)"
    show ?thesis
    proof (cases "cio_update io = None \<and> (\<exists>d2. ?r = Inr d2)")
      case False
      then have "complete_locked io req job d = (internal_error, d)"
        by (cases "cio_update io"; cases ?r) (simp_all add: complete_locked_def nt Some with_fault_def)
      then show ?thesis using failed nt by simp
    next
      case True
      then obtain d2 where r: "?r = Inr d2" and up: "cio_update io = None" by blast
      have d2: "if status = Succeeded
           then \<exists>s. complete_insert io req job (complete_update io req job status d) = Inr (s, d2)
           else d2 = complete_update io req job status d"
        using r by (cases "complete_insert io req job (complete_update io req job status d)")
          (auto simp: with_fault_def split: if_splits option.splits)
      have eq: "complete_locked io req job d =
          (case commit_tx (cio_commit io) d d2 of
             (Some _, d') \<Rightarrow> (internal_error, d') | (None, d') \<Rightarrow> (JsonReply 200 (cr_status req), d'))"
        using r by (simp add: complete_locked_def nt Some up)
      show ?thesis
        using eq failed nt completed [OF nt Some d2] by (cases "cio_commit io") simp_all
    qed
  qed
qed

lemma start_locked_cases:
  obtains (same) reply where "start_locked gen io job d = (reply, d)"
  | (started) reply where "jstatus job = Queued"
      and "start_locked gen io job d = (reply, update_job_status (sio_now io) (jid job) Running None d)"
      and "reply = respond_start gen io job (update_job_status (sio_now io) (jid job) Running None d) \<and>
             sio_commit io = Committed \<or>
           reply = internal_error \<and> (\<exists>m. sio_commit io = CommitLost m)"
proof (cases "jstatus job = Queued \<and> sio_update io = None \<and> (\<forall>m. sio_commit io \<noteq> CommitFailed m)")
  case True
  then show ?thesis using started by (cases "sio_commit io") (simp_all add: start_locked_def)
next
  case False
  have "\<exists>reply. start_locked gen io job d = (reply, d)"
    using terminal_cases [of "jstatus job"] False
    by (cases "sio_commit io"; cases "sio_update io")
       (auto simp: start_locked_def with_fault_def)
  then show ?thesis using same by blast
qed

end
