(* ===== verification/ApiClient.thy ===== *)
theory ApiClient
  imports Middleware Callback
begin

text \<open>
  The worker's client of the callback API: \<^verbatim>\<open>worker/internal/apiclient/client.go\<close>.

  \<open>client_start\<close> and \<open>client_complete\<close> are the methods \<open>Start\<close> and \<open>Complete\<close>.  \<open>marshal_start\<close> and \<open>marshal_complete\<close>
  are \<open>json.Marshal\<close> of the two requests, which does not fail on structs of strings and integers.
  Outside: the failure to build a request, the clock read by \<open>Sign\<close>, and the network (\<open>http\<close>), a
  function of the URL and the request on the state of the API: it may deliver the request or not, and
  may lose the reply; \<open>text\<close> is the body of a reply.
\<close>

record complete_body =
  cb_job_id :: string
  cb_status :: string
  cb_error_message :: string
  cb_snapshot_path :: string
  cb_zigzag_version :: string
  cb_size_bytes :: int64

record api_client =
  ac_base_url :: string
  ac_signer :: signer

datatype api_error =
    ErrEmptyJobID
  | ErrEmptyStatus
  | ErrInvalidStatus
  | RequestFailed string
  | TransportFailed string
  | StatusFailed nat
  | DecodeFailed

subsection \<open>The structs of the bodies\<close>

definition marshal_start :: "start_request \<Rightarrow> string" where
  "marshal_start req = render (JObject [(''job_id'', JString (sr_job_id req))])"

definition marshal_complete :: "complete_body \<Rightarrow> string" where
  "marshal_complete req =
     render (JObject
       ([(''job_id'', JString (cb_job_id req)), (''status'', JString (cb_status req))] @
        omit_empty ''error_message'' (cb_error_message req) @ omit_empty ''snapshot_path'' (cb_snapshot_path req) @
        omit_empty ''zigzag_version'' (cb_zigzag_version req) @ omit_zero ''size_bytes'' (cb_size_bytes req)))"

definition start_response_members :: "start_response members" where
  "start_response_members =
     [(''commit_sha'', StringSlot (\<lambda>s x. x\<lparr>sp_commit_sha := s\<rparr>)),
      (''branch'', StringSlot (\<lambda>s x. x\<lparr>sp_branch := s\<rparr>)),
      (''repo_full_name'', StringSlot (\<lambda>s x. x\<lparr>sp_repo_full_name := s\<rparr>)),
      (''clone_token'', StringSlot (\<lambda>s x. x\<lparr>sp_clone_token := s\<rparr>)),
      (''installation_id'', Int64Slot (\<lambda>n x. x\<lparr>sp_installation_id := n\<rparr>))]"

definition decode_start_response :: "string \<Rightarrow> start_response option" where
  "decode_start_response body =
     decode_stream start_response_members
       \<lparr>sp_commit_sha = [], sp_branch = [], sp_repo_full_name = [], sp_clone_token = [], sp_installation_id = 0\<rparr>
       body"

subsection \<open>The client\<close>

type_synonym ('s, 'a) transport = "string \<Rightarrow> request \<Rightarrow> 's \<Rightarrow> (string + 'a reply) \<times> 's"

definition callback_request :: "string \<Rightarrow> string \<Rightarrow> request" where
  "callback_request token body =
     \<lparr>rq_method = ''POST'',
      rq_header = (\<lambda>h. if h = ''Authorization'' then ''Bearer '' @ token
                       else if h = ''Content-Type'' then ''application/json'' else []),
      rq_query = (\<lambda>_. []), rq_param = (\<lambda>_. []), rq_body = body, rq_remote_addr = [],
      rq_claims_subject = None, rq_job_id = None\<rparr>"

definition client_start ::
  "(string \<Rightarrow> string \<Rightarrow> string) \<Rightarrow> api_client \<Rightarrow> nanos \<Rightarrow> string option \<Rightarrow> ('s, 'a) transport
     \<Rightarrow> ('a reply \<Rightarrow> string) \<Rightarrow> string \<Rightarrow> 's \<Rightarrow> (api_error + start_response) \<times> 's" where
  "client_start hmac c clock new_request_error http text jobID s =
     (if jobID = [] then (Inl ErrEmptyJobID, s)
      else let body = marshal_start \<lparr>sr_job_id = jobID\<rparr> in
      case new_request_error of
        Some e \<Rightarrow> (Inl (RequestFailed e), s)
      | None \<Rightarrow>
          let token = signer_sign hmac (ac_signer c) clock jobID
          in case http (ac_base_url c @ ''/internal/jobs/start'') (callback_request token body) s of
               (Inl e, s') \<Rightarrow> (Inl (TransportFailed e), s')
             | (Inr resp, s') \<Rightarrow>
                 if reply_status resp \<noteq> 200 then (Inl (StatusFailed (reply_status resp)), s')
                 else (case decode_start_response (text resp) of
                         None \<Rightarrow> (Inl DecodeFailed, s')
                       | Some result \<Rightarrow> (Inr result, s')))"

definition client_complete ::
  "(string \<Rightarrow> string \<Rightarrow> string) \<Rightarrow> api_client \<Rightarrow> nanos \<Rightarrow> string option \<Rightarrow> ('s, 'a) transport \<Rightarrow> complete_body \<Rightarrow> 's \<Rightarrow> api_error option \<times> 's" where
  "client_complete hmac c clock new_request_error http req s =
     (if cb_job_id req = [] then (Some ErrEmptyJobID, s)
      else if cb_status req = [] then (Some ErrEmptyStatus, s)
      else if cb_status req \<noteq> ''succeeded'' \<and> cb_status req \<noteq> ''failed'' then (Some ErrInvalidStatus, s)
      else let body = marshal_complete req in
      case new_request_error of
        Some e \<Rightarrow> (Some (RequestFailed e), s)
      | None \<Rightarrow>
          let token = signer_sign hmac (ac_signer c) clock (cb_job_id req)
          in case http (ac_base_url c @ ''/internal/jobs/complete'') (callback_request token body) s of
               (Inl e, s') \<Rightarrow> (Some (TransportFailed e), s')
             | (Inr resp, s') \<Rightarrow>
                 if reply_status resp \<noteq> 200 then (Some (StatusFailed (reply_status resp)), s')
                 else (None, s'))"

lemma callback_request_simps [simp]:
  "rq_method (callback_request t b) = ''POST''" "rq_body (callback_request t b) = b"
  "rq_header (callback_request t b) ''Authorization'' = ''Bearer '' @ t"
  "rq_header (callback_request t b) ''Content-Type'' = ''application/json''"
  by (simp_all add: callback_request_def)

lemma client_start_valid:
  assumes "jobID \<noteq> []"
  shows "client_start hmac c clock None http text jobID s =
     (case http (ac_base_url c @ ''/internal/jobs/start'')
             (callback_request (signer_sign hmac (ac_signer c) clock jobID) (marshal_start \<lparr>sr_job_id = jobID\<rparr>)) s of
        (Inl e, s') \<Rightarrow> (Inl (TransportFailed e), s')
      | (Inr resp, s') \<Rightarrow>
          if reply_status resp \<noteq> 200 then (Inl (StatusFailed (reply_status resp)), s')
          else (case decode_start_response (text resp) of
                  None \<Rightarrow> (Inl DecodeFailed, s') | Some x \<Rightarrow> (Inr x, s')))"
  using assms by (simp add: client_start_def Let_def)

lemma client_complete_valid:
  assumes "cb_job_id req \<noteq> []" and "cb_status req = ''succeeded'' \<or> cb_status req = ''failed''"
  shows "client_complete hmac c clock None http req s =
     (case http (ac_base_url c @ ''/internal/jobs/complete'')
             (callback_request (signer_sign hmac (ac_signer c) clock (cb_job_id req)) (marshal_complete req)) s of
        (Inl e, s') \<Rightarrow> (Some (TransportFailed e), s')
      | (Inr resp, s') \<Rightarrow>
          if reply_status resp \<noteq> 200 then (Some (StatusFailed (reply_status resp)), s') else (None, s'))"
  using assms by (auto simp: client_complete_def Let_def)

end
