(* ===== verification/Executor.thy ===== *)
theory Executor
  imports Runner Storage ApiClient
begin

text \<open>
  One execution of a job: \<^verbatim>\<open>worker/internal/worker/executor/executor.go\<close>, and the HTTP entry of the
  worker, \<^verbatim>\<open>worker/internal/worker/handler/handler.go\<close>.

  \<open>execute\<close> is the method \<open>Execute\<close>.  Its state is the API's state (\<open>'s\<close>), the reports directory
  and the bucket.  \<open>start\<close> and \<open>complete\<close> are the client's methods, bound to their clocks and
  network; \<open>up\<close> is the bucket's \<open>Upload\<close>.  \<open>read_fails\<close> is the failure of reading the report file.
\<close>

record ('s, 't) exec_env =
  ee_start :: "string \<Rightarrow> 's \<Rightarrow> (api_error + start_response) \<times> 's"
  ee_complete :: "complete_body \<Rightarrow> 's \<Rightarrow> api_error option \<times> 's"
  ee_show :: "api_error \<Rightarrow> string"
  ee_run :: "'t run_io"
  ee_config :: runner_config
  ee_read_fails :: "string option"
  ee_upload :: "string \<Rightarrow> string \<Rightarrow> bucket \<Rightarrow> storage_error option \<times> bucket"
  ee_show_storage :: "storage_error \<Rightarrow> string"

record 's exec_state =
  es_api :: 's
  es_reports :: reports
  es_bucket :: bucket

definition failed_body :: "string \<Rightarrow> string \<Rightarrow> complete_body" where
  "failed_body job_id msg =
     \<lparr>cb_job_id = job_id, cb_status = ''failed'', cb_error_message = msg, cb_snapshot_path = [],
      cb_zigzag_version = [], cb_size_bytes = 0\<rparr>"

definition complete_failed :: "('s, 't) exec_env \<Rightarrow> string \<Rightarrow> string \<Rightarrow> 's \<Rightarrow> 's" where
  "complete_failed env job_id msg s = snd (ee_complete env (failed_body job_id msg) s)"

definition read_report_file :: "string option \<Rightarrow> reports \<Rightarrow> string + string" where
  "read_report_file fault fs =
     (case fault of
        Some e \<Rightarrow> Inl e
      | None \<Rightarrow> (case map_of fs ''report.json'' of None \<Rightarrow> Inl ''no such file'' | Some d \<Rightarrow> Inr d))"

definition execute ::
  "('s, 't) exec_env option \<Rightarrow> string \<Rightarrow> string \<Rightarrow> string \<Rightarrow> 's exec_state \<Rightarrow> 's exec_state" where
  \<comment> \<open>\<open>None\<close>: the API client is not configured\<close>
  "execute env_opt job_id org_id repo_id st =
     (case env_opt of
        None \<Rightarrow> st
      | Some env \<Rightarrow>
     (case ee_start env job_id (es_api st) of
        (Inl err, s1) \<Rightarrow>
          st\<lparr>es_api := complete_failed env job_id (''start callback: '' @ ee_show env err) s1\<rparr>
      | (Inr info, s1) \<Rightarrow>
     (case run_with_token (ee_run env) (ee_config env)
             \<lparr>ji_repo_full_name = sp_repo_full_name info, ji_branch = sp_branch info,
              ji_commit_sha = sp_commit_sha info, ji_clone_token = sp_clone_token info,
              ji_installation_id = sp_installation_id info\<rparr> (es_reports st) of
        (Inl err, fs') \<Rightarrow> st\<lparr>es_api := complete_failed env job_id err s1, es_reports := fs'\<rparr>
      | (Inr result, fs') \<Rightarrow>
          (let gcs_path = snapshot_path org_id repo_id (sp_commit_sha info) in
           case read_report_file (ee_read_fails env) fs' of
             Inl err \<Rightarrow>
               st\<lparr>es_api := complete_failed env job_id (''read report: '' @ err) s1, es_reports := fs'\<rparr>
           | Inr data \<Rightarrow>
               (case ee_upload env gcs_path data (es_bucket st) of
                  (Some err, b') \<Rightarrow>
                    st\<lparr>es_api := complete_failed env job_id (''gcs upload: '' @ ee_show_storage env err) s1,
                       es_reports := fs', es_bucket := b'\<rparr>
                | (None, b') \<Rightarrow>
                    st\<lparr>es_api := snd (ee_complete env
                         \<lparr>cb_job_id = job_id, cb_status = ''succeeded'', cb_error_message = [],
                          cb_snapshot_path = gcs_path, cb_zigzag_version = rr_zigzag_version result,
                          cb_size_bytes = rr_size_bytes result\<rparr> s1),
                       es_reports := fs', es_bucket := b'\<rparr>)))))"

subsection \<open>The HTTP entry of the worker\<close>

record run_request =
  rn_job_id :: string
  rn_job_token :: string

definition run_members :: "run_request members" where
  "run_members =
     [(''job_id'', StringSlot (\<lambda>s req. req\<lparr>rn_job_id := s\<rparr>)),
      (''job_token'', StringSlot (\<lambda>s req. req\<lparr>rn_job_token := s\<rparr>))]"

definition decode_run :: "string \<Rightarrow> run_request option" where
  "decode_run body = decode_stream run_members \<lparr>rn_job_id = [], rn_job_token = []\<rparr> body"

definition worker_run ::
  "(string \<Rightarrow> string \<Rightarrow> string) \<Rightarrow> signer \<Rightarrow> nanos \<Rightarrow> (string \<Rightarrow> uuid option)
     \<Rightarrow> (uuid \<Rightarrow> pg_error + repo_for_job_row) \<Rightarrow> (uuid \<Rightarrow> string)
     \<Rightarrow> (string \<Rightarrow> string \<Rightarrow> string \<Rightarrow> 'e \<Rightarrow> 'e) \<Rightarrow> request \<Rightarrow> 'e \<Rightarrow> unit reply \<times> 'e" where
  "worker_run hmac signer now uuid_scan lookup uuid_string exec r st =
     (case decode_run (rq_body r) of
        None \<Rightarrow> (TextReply 400 ''invalid request body'', st)
      | Some req \<Rightarrow>
          if rn_job_id req = [] \<or> rn_job_token req = [] then
            (TextReply 400 ''job_id and job_token are required'', st)
          else (case signer_validate hmac signer now (rn_job_id req) (rn_job_token req) of
            Some _ \<Rightarrow> (TextReply 401 ''unauthorized'', st)
          | None \<Rightarrow>
          (case uuid_scan (rn_job_id req) of
            None \<Rightarrow> (TextReply 400 ''invalid job_id'', st)
          | Some i \<Rightarrow>
          (case lookup i of
            Inl _ \<Rightarrow> (TextReply 500 ''job lookup failed'', st)
          | Inr repo \<Rightarrow>
              let repo_id = uuid_string (rj_id repo)
              in (EmptyReply 200, exec (rn_job_id req) repo_id repo_id st)))))"

subsection \<open>What an execution reports\<close>

definition good_body :: "string \<Rightarrow> complete_body \<Rightarrow> bool" where
  "good_body job_id b \<longleftrightarrow> cb_job_id b = job_id \<and>
     (cb_status b = ''failed'' \<and> cb_error_message b \<noteq> [] \<or>
      cb_status b = ''succeeded'' \<and> cb_snapshot_path b \<noteq> [])"

lemma failed_body_good: "msg \<noteq> [] \<Longrightarrow> good_body job_id (failed_body job_id msg)"
  by (simp add: good_body_def failed_body_def)

lemma failed_body_simps [simp]:
  "cb_status (failed_body j m) = ''failed''" "cb_job_id (failed_body j m) = j"
  "cb_error_message (failed_body j m) = m"
  by (simp_all add: failed_body_def)

lemma execute_start_failed:
  "ee_start env job_id (es_api st) = (Inl err, s1) \<Longrightarrow>
     execute (Some env) job_id org repo st =
       st\<lparr>es_api := complete_failed env job_id (''start callback: '' @ ee_show env err) s1\<rparr>"
  by (simp add: execute_def)

definition started_run :: "('s, 't) exec_env \<Rightarrow> start_response \<Rightarrow> reports \<Rightarrow> (string + run_result) \<times> reports" where
  "started_run env info =
     run_with_token (ee_run env) (ee_config env)
       \<lparr>ji_repo_full_name = sp_repo_full_name info, ji_branch = sp_branch info,
        ji_commit_sha = sp_commit_sha info, ji_clone_token = sp_clone_token info,
        ji_installation_id = sp_installation_id info\<rparr>"

lemma execute_started:
  assumes "ee_start env job_id (es_api st) = (Inr info, s1)"
  obtains (failed) msg fs' b' where "msg \<noteq> []"
      and "execute (Some env) job_id org repo st =
             st\<lparr>es_api := complete_failed env job_id msg s1, es_reports := fs', es_bucket := b'\<rparr>"
  | (uploaded) result fs' data b' where "started_run env info (es_reports st) = (Inr result, fs')"
      and "read_report_file (ee_read_fails env) fs' = Inr data"
      and "ee_upload env (snapshot_path org repo (sp_commit_sha info)) data (es_bucket st) = (None, b')"
      and "execute (Some env) job_id org repo st =
             st\<lparr>es_api := snd (ee_complete env
                   \<lparr>cb_job_id = job_id, cb_status = ''succeeded'', cb_error_message = [],
                    cb_snapshot_path = snapshot_path org repo (sp_commit_sha info),
                    cb_zigzag_version = rr_zigzag_version result,
                    cb_size_bytes = rr_size_bytes result\<rparr> s1),
                es_reports := fs', es_bucket := b'\<rparr>"
proof (cases "started_run env info (es_reports st)")
  case (Pair r fs')
  note run = Pair [unfolded started_run_def]
  let ?path = "snapshot_path org repo (sp_commit_sha info)"
  show ?thesis
  proof (cases r)
    case (Inl e)
    then have "e \<noteq> []" using run run_with_token_Inl_nonempty by blast
    then show ?thesis using failed [where msg = e and fs' = fs' and b' = "es_bucket st"] run Inl assms by (simp add: execute_def)
  next
    case (Inr result)
    show ?thesis
    proof (cases "read_report_file (ee_read_fails env) fs'")
      case r: (Inl e)
      then show ?thesis
        using failed [where msg = "''read report: '' @ e" and fs' = fs' and b' = "es_bucket st"] run Inr assms by (simp add: execute_def)
    next
      case r: (Inr data)
      show ?thesis
      proof (cases "ee_upload env ?path data (es_bucket st)")
        case u: (Pair err b')
        show ?thesis
        proof (cases err)
          case None
          then show ?thesis using uploaded [OF Pair [unfolded Inr] r u [unfolded None]] run Inr r u assms
            by (simp add: execute_def)
        next
          case (Some e)
          then show ?thesis
            using failed [where msg = "''gcs upload: '' @ ee_show_storage env e" and fs' = fs' and b' = b'] run Inr r u assms
            by (simp add: execute_def)
        qed
      qed
    qed
  qed
qed

definition delivered ::
  "('s, 't) exec_env \<Rightarrow> string \<Rightarrow> start_response \<Rightarrow> 's exec_state \<Rightarrow> run_result \<Rightarrow> 's exec_state \<Rightarrow> bool" where
  \<comment> \<open>the run of the started job returned \<open>result\<close>, and the report it left is stored at \<open>path\<close>\<close>
  "delivered env path info st result st' \<longleftrightarrow>
     started_run env info (es_reports st) = (Inr result, es_reports st') \<and>
     (\<exists>data. read_report_file (ee_read_fails env) (es_reports st') = Inr data \<and>
             map_of (es_reports st') ''report.json'' = Some data \<and>
             ee_upload env path data (es_bucket st) = (None, es_bucket st'))"

definition success_body :: "string \<Rightarrow> string \<Rightarrow> string \<Rightarrow> start_response \<Rightarrow> run_result \<Rightarrow> complete_body" where
  "success_body job_id org repo info result =
     \<lparr>cb_job_id = job_id, cb_status = ''succeeded'', cb_error_message = [],
      cb_snapshot_path = snapshot_path org repo (sp_commit_sha info),
      cb_zigzag_version = rr_zigzag_version result, cb_size_bytes = rr_size_bytes result\<rparr>"

lemma success_body_good: "good_body job_id (success_body job_id org repo info result)"
  by (simp add: good_body_def success_body_def)

lemma read_report_present: "read_report_file f fs = Inr data \<Longrightarrow> map_of fs ''report.json'' = Some data"
  by (auto simp: read_report_file_def split: option.splits)

lemma delivered_execute:
  assumes "ee_start env job_id (es_api st) = (Inr info, s1)"
    and "delivered env (snapshot_path org repo (sp_commit_sha info)) info st result st'"
  shows "es_api (execute (Some env) job_id org repo st) =
     snd (ee_complete env (success_body job_id org repo info result) s1)"
  using assms by (auto simp: delivered_def started_run_def execute_def success_body_def)

subsection \<open>Properties\<close>

definition ex_report :: "string \<Rightarrow> string \<Rightarrow> string" where
  "ex_report version tree =
     render (JObject [(''meta'', JObject [(''version'', JString version)]), (''tree'', JString tree)])"

lemma ex_report_version [simp]:
  assumes "valid_utf8 version"
  shows "unmarshal report_members [] (ex_report version tree) = Some version"
proof -
  have "unmarshal report_members [] (ex_report version tree @ []) =
      store_members report_members
        (clean_members [(''meta'', JObject [(''version'', JString version)]), (''tree'', JString tree)]) []"
    unfolding ex_report_def by (rule decode_rendered(2)) (simp_all add: max_nesting_def skip_space_def)
  also have "\<dots> = Some version"
    using assms by (simp add: report_members_def find_slot_def clean_valid ascii_valid fold_name_def upper_def)
  finally show ?thesis by simp
qed

lemma length_ex_report: "length (ex_report ''v1'' ''tree of main'') = 47"
  by (simp add: ex_report_def quote_plain escape_ascii_def)

definition ex_run_io :: "string run_io" where
  "ex_run_io = \<lparr>ri_mkdir = None, ri_mktemp = None, ri_clone = (\<lambda>url ref tok. Inr (''tree of '' @ ref)),
     ri_zigzag = (\<lambda>tree fs. (None, [(''report.json'', ex_report ''v1'' tree)])),
     ri_read = None, ri_missing = ''no such file'', ri_json_error = (\<lambda>_. ''e''),
     ri_walk = None, ri_stat_fails = (\<lambda>_. False), ri_walk_first = False\<rparr>"

definition ex_info :: "string \<Rightarrow> start_response" where
  "ex_info c = \<lparr>sp_commit_sha = c, sp_branch = ''main'', sp_repo_full_name = ''acme/app'',
     sp_clone_token = ''t'', sp_installation_id = 99\<rparr>"

definition ex_env :: "string \<Rightarrow> (complete_body list, string) exec_env" where
  \<comment> \<open>an API that grants every start and records the completions it receives\<close>
  "ex_env c = \<lparr>ee_start = (\<lambda>_ s. (Inr (ex_info c), s)), ee_complete = (\<lambda>b s. (None, s @ [b])),
     ee_show = (\<lambda>_. ''e''), ee_run = ex_run_io,
     ee_config = \<lparr>rc_workspace_dir = ''w'', rc_zigzag_bin = ''z'', rc_reports_dir = ''r'', rc_job_timeout = 0\<rparr>,
     ee_read_fails = None, ee_upload = upload None None, ee_show_storage = (\<lambda>_. ''e'')\<rparr>"

definition ex_exec_state :: "complete_body list exec_state" where
  "ex_exec_state = \<lparr>es_api = [], es_reports = [], es_bucket = Map.empty\<rparr>"

text \<open>
  C18: Every execution reports to the API exactly once, after its start call, and the report is one the
  API's rules admit: a failure with a non-empty message, or a success.  It is a success exactly when the start
  was granted, the run of that job returned a result, the report of this run was read and it was stored
  in the object store; the success names the object stored, at the path of the started commit, and the version and size of the run's
  result.
\<close>

theorem execute_reports_once:
  assumes "ee_start env job_id (es_api st) = (res, s1)" and "execute (Some env) job_id org repo st = st'"
  shows "\<exists>b. good_body job_id b \<and> es_api st' = snd (ee_complete env b s1) \<and>
     ((\<exists>info result. res = Inr info \<and> b = success_body job_id org repo info result \<and>
         delivered env (snapshot_path org repo (sp_commit_sha info)) info st result st') \<or>
      cb_status b = ''failed'' \<and>
        (\<nexists>info result. res = Inr info \<and>
           delivered env (snapshot_path org repo (sp_commit_sha info)) info st result st'))"
proof (cases "\<exists>info result. res = Inr info \<and> delivered env (snapshot_path org repo (sp_commit_sha info)) info st result st'")
  case True
  then obtain info result where info: "res = Inr info"
      and d: "delivered env (snapshot_path org repo (sp_commit_sha info)) info st result st'" by blast
  have "es_api st' = snd (ee_complete env (success_body job_id org repo info result) s1)"
    using delivered_execute [OF assms(1) [unfolded info] d] assms(2) by simp
  then show ?thesis using info d success_body_good by blast
next
  case undelivered: False
  have report_failure: ?thesis if "es_api st' = complete_failed env job_id msg s1" "msg \<noteq> []" for msg
    using that undelivered
    by (intro exI [of _ "failed_body job_id msg"] conjI disjI2) (simp_all add: failed_body_good complete_failed_def)
  show ?thesis
  proof (cases res)
    case (Inl err)
    show ?thesis
      by (rule report_failure [of "''start callback: '' @ ee_show env err"])
         (use execute_start_failed [of env job_id st err s1 org repo] assms Inl in auto)
  next
    case (Inr info)
    from assms(1) [unfolded Inr] show ?thesis
    proof (cases rule: execute_started [where org = org and repo = repo])
      case (failed msg fs' b')
      show ?thesis by (rule report_failure [of msg]) (use failed assms(2) in auto)
    next
      case (uploaded result fs' data b')
      have "delivered env (snapshot_path org repo (sp_commit_sha info)) info st result st'"
        unfolding delivered_def using uploaded assms(2) read_report_present [OF uploaded(2)] by auto
      then show ?thesis using undelivered Inr by blast
    qed
  qed
qed

theorem execute_reports_once_witness:
  "\<exists>b. es_api (execute (Some (ex_env ''abc'')) ''j'' ''o'' ''r'' ex_exec_state) = [b] \<and>
     cb_status b = ''succeeded'' \<and> cb_zigzag_version b = ''v1'' \<and> cb_snapshot_path b = snapshot_path ''o'' ''r'' ''abc''"
proof -
  let ?st' = "execute (Some (ex_env ''abc'')) ''j'' ''o'' ''r'' ex_exec_state"
  let ?result = "\<lparr>rr_reports_dir = ''r'', rr_zigzag_version = ''v1'', rr_size_bytes = 47\<rparr>"
  have start: "ee_start (ex_env ''abc'') ''j'' (es_api ex_exec_state) = (Inr (ex_info ''abc''), [])"
    and facts: "sp_commit_sha (ex_info ''abc'') = ''abc''" "\<And>b s. snd (ee_complete (ex_env ''abc'') b s) = s @ [b]"
    by (simp_all add: ex_info_def ex_env_def ex_exec_state_def)
  have d: "delivered (ex_env ''abc'') (snapshot_path ''o'' ''r'' ''abc'') (ex_info ''abc'') ex_exec_state ?result ?st'"
    by (simp add: delivered_def execute_def started_run_def ex_env_def ex_exec_state_def run_with_token_def
        clone_and_run_def ex_run_io_def ex_info_def collect_result_def read_version_def total_size_def
        read_report_file_def upload_def ascii_valid length_ex_report Let_def)
  have same: "result = ?result" if "delivered (ex_env ''abc'') p (ex_info ''abc'') ex_exec_state result ?st'" for p result
    using d that by (simp add: delivered_def)
  obtain b where b: "es_api ?st' = [b]"
      "(\<exists>info result. Inr (ex_info ''abc'') = (Inr info :: api_error + start_response) \<and> b = success_body ''j'' ''o'' ''r'' info result \<and>
         delivered (ex_env ''abc'') (snapshot_path ''o'' ''r'' (sp_commit_sha info)) info ex_exec_state result ?st') \<or>
       (\<nexists>info result. Inr (ex_info ''abc'') = (Inr info :: api_error + start_response) \<and>
         delivered (ex_env ''abc'') (snapshot_path ''o'' ''r'' (sp_commit_sha info)) info ex_exec_state result ?st')"
    using execute_reports_once [OF start refl, of "''o''" "''r''"] unfolding facts(2) append_Nil by (elim exE conjE) blast
  have "\<exists>result. b = success_body ''j'' ''o'' ''r'' (ex_info ''abc'') result \<and>
      delivered (ex_env ''abc'') (snapshot_path ''o'' ''r'' ''abc'') (ex_info ''abc'') ex_exec_state result ?st'"
    using b(2) d by (metis facts(1) sum.inject(2))
  then have "b = success_body ''j'' ''o'' ''r'' (ex_info ''abc'') ?result" using same by blast
  then show ?thesis using b(1) by (simp add: success_body_def facts(1))
qed

text \<open>
  C39: What is stored for a commit does not depend on the commit: two executions whose start replies
  differ only in the commit SHA upload the same data, each under its own commit's path, because the
  clone takes the head of the branch and the SHA only names the object.
\<close>

theorem snapshot_content_ignores_commit:
  assumes "ee_start env job_id (es_api st) = (Inr info, s1)"
    and "ee_upload env = upload None None"
    and "started_run env info (es_reports st) = (Inr result, fs')"
    and "read_report_file (ee_read_fails env) fs' = Inr data"
  shows "es_bucket (execute (Some env) job_id org repo st) (snapshot_path org repo (sp_commit_sha info)) =
           Some data \<and>
         es_bucket (execute (Some (env\<lparr>ee_start := \<lambda>j s. (Inr (info\<lparr>sp_commit_sha := other\<rparr>), s1)\<rparr>))
                      job_id org repo st) (snapshot_path org repo other) = Some data"
proof -
  have "run_with_token (ee_run env) (ee_config env)
      \<lparr>ji_repo_full_name = sp_repo_full_name info, ji_branch = sp_branch info,
       ji_commit_sha = c, ji_clone_token = sp_clone_token info,
       ji_installation_id = sp_installation_id info\<rparr> (es_reports st) = (Inr result, fs')" for c
    using assms(3) by (simp add: started_run_def run_with_token_def Let_def clone_and_run_def)
  then show ?thesis using assms(1,2,4) by (simp add: execute_def Let_def upload_def)
qed

theorem snapshot_content_ignores_commit_witness:
  "es_bucket (execute (Some (ex_env ''abc'')) ''j'' ''o'' ''r'' ex_exec_state) (snapshot_path ''o'' ''r'' ''abc'') =
     Some (ex_report ''v1'' ''tree of main'')"
  using snapshot_content_ignores_commit [of "ex_env ''abc''" "''j''" ex_exec_state "ex_info ''abc''" "[]"
      "\<lparr>rr_reports_dir = ''r'', rr_zigzag_version = ''v1'', rr_size_bytes = of_nat (length (ex_report ''v1'' ''tree of main''))\<rparr>"
      "[(''report.json'', ex_report ''v1'' ''tree of main'')]" "ex_report ''v1'' ''tree of main''" "''o''" "''r''" "''zzz''"]
  by (simp add: ex_env_def ex_exec_state_def started_run_def run_with_token_def clone_and_run_def ex_run_io_def
        ex_info_def collect_result_def read_version_def total_size_def read_report_file_def ascii_valid)

lemma worker_run_authorised:
  "(\<exists>req i repo. decode_run (rq_body r) = Some req \<and> rn_job_id req \<noteq> [] \<and>
      signer_validate hmac signer now (rn_job_id req) (rn_job_token req) = None \<and>
      uuid_scan (rn_job_id req) = Some i \<and> lookup i = Inr repo \<and>
      worker_run hmac signer now uuid_scan lookup us exec r st =
        (EmptyReply 200, exec (rn_job_id req) (us (rj_id repo)) (us (rj_id repo)) st)) \<or>
   (\<exists>n msg. n \<in> {400, 401, 500} \<and>
      worker_run hmac signer now uuid_scan lookup us exec r st = (TextReply n msg, st))"
  by (auto simp: worker_run_def Let_def split: option.split sum.split)

end
