(* ===== verification/Codec.thy ===== *)
theory Codec
  imports Executor Engine
begin

text \<open>
  The JSON bodies the two programs exchange: what one writes, the other reads.

  The worker's structs (\<^verbatim>\<open>worker/internal/apiclient\<close>) and the API's (\<^verbatim>\<open>api/internal/handler/callback\<close>) are
  declared twice, and the token middleware has a third struct for the job id.  The lemmas below say that
  the tags agree: a request or reply that is encoded by the one and decoded by the other is the same, if
  its strings are UTF-8, and the middleware and the handler read the same job id from any body.
\<close>

definition request_of :: "complete_body \<Rightarrow> complete_request" where
  \<comment> \<open>the API's struct for the worker's: the same JSON fields, no \<^verbatim>\<open>duration_ms\<close>\<close>
  "request_of b = \<lparr>cr_job_id = cb_job_id b, cr_status = cb_status b, cr_error_message = cb_error_message b,
     cr_snapshot_path = cb_snapshot_path b, cr_zigzag_version = cb_zigzag_version b,
     cr_size_bytes = cb_size_bytes b, cr_duration_ms = 0\<rparr>"

subsection \<open>Fields\<close>

lemmas find_slot_simps = find_slot_def fold_name_def upper_def

lemma find_start [simp]: "find_slot start_members ''job_id'' = Some (StringSlot (\<lambda>s req. req\<lparr>sr_job_id := s\<rparr>))"
  and find_start_other [simp]:
  "find_slot start_members ''status'' = None" "find_slot start_members ''error_message'' = None"
  "find_slot start_members ''snapshot_path'' = None" "find_slot start_members ''zigzag_version'' = None"
  "find_slot start_members ''size_bytes'' = None" "find_slot start_members ''duration_ms'' = None"
  by (simp_all add: start_members_def find_slot_simps)

lemma find_job_id [simp]:
  "find_slot job_id_payload ''job_id'' = Some (StringSlot (\<lambda>s _. s))"
  "find_slot job_id_payload ''status'' = None" "find_slot job_id_payload ''error_message'' = None"
  "find_slot job_id_payload ''snapshot_path'' = None" "find_slot job_id_payload ''zigzag_version'' = None"
  "find_slot job_id_payload ''size_bytes'' = None" "find_slot job_id_payload ''duration_ms'' = None"
  by (simp_all add: job_id_payload_def find_slot_simps)

lemma find_complete [simp]:
  "find_slot complete_members ''job_id'' = Some (StringSlot (\<lambda>s req. req\<lparr>cr_job_id := s\<rparr>))"
  "find_slot complete_members ''status'' = Some (StringSlot (\<lambda>s req. req\<lparr>cr_status := s\<rparr>))"
  "find_slot complete_members ''error_message'' = Some (StringSlot (\<lambda>s req. req\<lparr>cr_error_message := s\<rparr>))"
  "find_slot complete_members ''snapshot_path'' = Some (StringSlot (\<lambda>s req. req\<lparr>cr_snapshot_path := s\<rparr>))"
  "find_slot complete_members ''zigzag_version'' = Some (StringSlot (\<lambda>s req. req\<lparr>cr_zigzag_version := s\<rparr>))"
  "find_slot complete_members ''size_bytes'' = Some (Int64Slot (\<lambda>n req. req\<lparr>cr_size_bytes := n\<rparr>))"
  "find_slot complete_members ''duration_ms'' = Some (Int64Slot (\<lambda>n req. req\<lparr>cr_duration_ms := n\<rparr>))"
  by (simp_all add: complete_members_def find_slot_simps)

lemma find_start_response [simp]:
  "find_slot start_response_members ''commit_sha'' = Some (StringSlot (\<lambda>s x. x\<lparr>sp_commit_sha := s\<rparr>))"
  "find_slot start_response_members ''branch'' = Some (StringSlot (\<lambda>s x. x\<lparr>sp_branch := s\<rparr>))"
  "find_slot start_response_members ''repo_full_name'' = Some (StringSlot (\<lambda>s x. x\<lparr>sp_repo_full_name := s\<rparr>))"
  "find_slot start_response_members ''clone_token'' = Some (StringSlot (\<lambda>s x. x\<lparr>sp_clone_token := s\<rparr>))"
  "find_slot start_response_members ''installation_id'' = Some (Int64Slot (\<lambda>n x. x\<lparr>sp_installation_id := n\<rparr>))"
  by (simp_all add: start_response_members_def find_slot_simps)

lemma find_run [simp]:
  "find_slot run_members ''job_id'' = Some (StringSlot (\<lambda>s req. req\<lparr>rn_job_id := s\<rparr>))"
  "find_slot run_members ''job_token'' = Some (StringSlot (\<lambda>s req. req\<lparr>rn_job_token := s\<rparr>))"
  by (simp_all add: run_members_def find_slot_simps)

lemma literal_clean [simp]:
  "clean_utf8 ''job_id'' = ''job_id''" "clean_utf8 ''status'' = ''status''"
  "clean_utf8 ''error_message'' = ''error_message''" "clean_utf8 ''snapshot_path'' = ''snapshot_path''"
  "clean_utf8 ''zigzag_version'' = ''zigzag_version''" "clean_utf8 ''size_bytes'' = ''size_bytes''"
  "clean_utf8 ''duration_ms'' = ''duration_ms''" "clean_utf8 ''job_token'' = ''job_token''"
  "clean_utf8 ''commit_sha'' = ''commit_sha''" "clean_utf8 ''branch'' = ''branch''"
  "clean_utf8 ''repo_full_name'' = ''repo_full_name''" "clean_utf8 ''clone_token'' = ''clone_token''"
  "clean_utf8 ''installation_id'' = ''installation_id''"
  by (simp_all add: clean_valid ascii_valid)

lemma number_int64 [simp]: "number (format_int64 n) = Some (format_int64 n, [])"
  by (rule number_format_int64)

subsection \<open>Round trips\<close>

lemma decode_start_marshal: "decode_start (marshal_start req) = Some (req\<lparr>sr_job_id := clean_utf8 (sr_job_id req)\<rparr>)"
  by (simp add: decode_start_def marshal_start_def decode_json_render(1) del: render.simps)

lemma decode_job_id_marshal_start: "decode_job_id (marshal_start req) = Some (clean_utf8 (sr_job_id req))"
  by (simp add: decode_job_id_def marshal_start_def decode_json_render(1) del: render.simps)

lemma renderable_append [simp]:
  "renderable_members d (xs @ ys) \<longleftrightarrow> renderable_members d xs \<and> renderable_members d ys"
  by (induction xs) auto

lemma renderable_omit [simp]: "renderable_members d (omit_empty name s)" "renderable_members d (omit_zero name n)"
  by (simp_all add: omit_empty_def omit_zero_def)

lemma store_omit_empty:
  assumes "find_slot tags name = Some (StringSlot f)" and "clean_utf8 name = name" and "f [] a = a"
  shows "store_members tags (clean_members (omit_empty name s @ ms)) a =
     store_members tags (clean_members ms) (f (clean_utf8 s) a)"
  using assms by (simp add: omit_empty_def)

lemma store_omit_zero:
  assumes "find_slot tags name = Some (Int64Slot f)" and "clean_utf8 name = name" and "f 0 a = a"
  shows "store_members tags (clean_members (omit_zero name n)) a = Some (f n a)"
  using assms by (simp add: omit_zero_def)

definition clean_body :: "complete_body \<Rightarrow> complete_body" where
  "clean_body b = \<lparr>cb_job_id = clean_utf8 (cb_job_id b), cb_status = clean_utf8 (cb_status b),
     cb_error_message = clean_utf8 (cb_error_message b), cb_snapshot_path = clean_utf8 (cb_snapshot_path b),
     cb_zigzag_version = clean_utf8 (cb_zigzag_version b), cb_size_bytes = cb_size_bytes b\<rparr>"

definition utf8_body :: "complete_body \<Rightarrow> bool" where
  "utf8_body b \<longleftrightarrow> valid_utf8 (cb_job_id b) \<and> valid_utf8 (cb_status b) \<and> valid_utf8 (cb_error_message b) \<and>
     valid_utf8 (cb_snapshot_path b) \<and> valid_utf8 (cb_zigzag_version b)"

lemma clean_utf8_body: "utf8_body b \<Longrightarrow> clean_body b = b"
  by (simp add: utf8_body_def clean_body_def clean_valid)

lemma decode_complete_marshal: "decode_complete (marshal_complete b) = Some (request_of (clean_body b))"
  by (simp add: decode_complete_def marshal_complete_def decode_json_render(1) store_omit_empty store_omit_zero
        no_request_def request_of_def clean_body_def del: render.simps)

lemma decode_job_id_marshal_complete: "decode_job_id (marshal_complete b) = Some (clean_utf8 (cb_job_id b))"
  by (simp add: decode_job_id_def marshal_complete_def decode_json_render(1) omit_empty_def omit_zero_def
        del: render.simps)

definition utf8_response :: "start_response \<Rightarrow> bool" where
  "utf8_response x \<longleftrightarrow> valid_utf8 (sp_commit_sha x) \<and> valid_utf8 (sp_branch x) \<and>
     valid_utf8 (sp_repo_full_name x) \<and> valid_utf8 (sp_clone_token x)"

definition clean_response :: "start_response \<Rightarrow> start_response" where
  "clean_response x = \<lparr>sp_commit_sha = clean_utf8 (sp_commit_sha x), sp_branch = clean_utf8 (sp_branch x),
     sp_repo_full_name = clean_utf8 (sp_repo_full_name x), sp_clone_token = clean_utf8 (sp_clone_token x),
     sp_installation_id = sp_installation_id x\<rparr>"

lemma clean_utf8_response: "utf8_response x \<Longrightarrow> clean_response x = x"
  by (simp add: utf8_response_def clean_response_def clean_valid)

lemma decode_start_response_clean:
  "decode_start_response (write_json (start_response_json x)) = Some (clean_response x)"
  using decode_json_render(2) [where tags = start_response_members]
  by (simp add: decode_start_response_def start_response_json_def decode_json_def clean_response_def
        del: render.simps)

lemma decode_start_response_write:
  "utf8_response x \<Longrightarrow> decode_start_response (write_json (start_response_json x)) = Some x"
  by (simp add: decode_start_response_clean clean_utf8_response)

lemma decode_run_clean:
  "decode_run (task_body t) =
     Some \<lparr>rn_job_id = clean_utf8 (task_job_id t), rn_job_token = clean_utf8 (task_job_token t)\<rparr>"
  using decode_json_render(1) [where tags = run_members]
  by (simp add: decode_run_def task_body_def decode_json_def del: render.simps)

lemma decode_run_task:
  assumes "valid_utf8 (task_job_id t)" and "valid_utf8 (task_job_token t)"
  shows "decode_run (task_body t) = Some \<lparr>rn_job_id = task_job_id t, rn_job_token = task_job_token t\<rparr>"
  using assms by (simp add: decode_run_clean clean_valid)

text \<open>
  C28: Every message between the two programs is read back as it was written, whatever its strings
  hold: quotes, control characters and markup are escaped and unescaped, empty and zero members that
  \<^verbatim>\<open>omitempty\<close> leaves out come back as such, and only bytes that are not UTF-8 are replaced by U+FFFD.
  The messages are the requests of the callbacks, the reply to \<^verbatim>\<open>start\<close> and the body of a task.
\<close>

theorem messages_roundtrip:
  "decode_start (marshal_start req) = Some (req\<lparr>sr_job_id := clean_utf8 (sr_job_id req)\<rparr>) \<and>
   decode_complete (marshal_complete b) = Some (request_of (clean_body b)) \<and>
   decode_start_response (write_json (start_response_json x)) = Some (clean_response x) \<and>
   decode_run (task_body t) =
     Some \<lparr>rn_job_id = clean_utf8 (task_job_id t), rn_job_token = clean_utf8 (task_job_token t)\<rparr>"
  by (intro conjI decode_start_marshal decode_complete_marshal decode_start_response_clean decode_run_clean)

lemma valid_sign_token [simp]: "valid_utf8 (sign_token hmac k j e)"
proof (rule ascii_valid)
  have "list_all (\<lambda>c. byte c < 128) (hex_encode s)" for s
    using hex_encode_chars [of s] by (auto simp: list_all_iff)
  moreover have "byte c < 128" if "c \<in> set (show_nat n)" for c n
    using that show_nat_digits [of n] by (auto simp: list_all_iff is_digit_def)
  then have "list_all (\<lambda>c. byte c < 128) (format_int64 e)"
    by (simp add: format_int64_def list_all_iff)
  ultimately show "list_all (\<lambda>c. byte c < 128) (sign_token hmac k j e)"
    by (simp add: sign_token_def Let_def)
qed

subsection \<open>Sizes\<close>

lemma length_format_int64: "length (format_int64 n) \<le> 20"
proof -
  have "nat (sint n) < 10 ^ Suc 18" and "nat (- sint n) < 10 ^ Suc 18"
    using sint_int64_bounds [of n] by auto
  then show ?thesis
    using length_show_nat [of "nat (sint n)" 18] length_show_nat [of "nat (- sint n)" 18]
    by (simp add: format_int64_def del: power_Suc)
qed

lemma length_render_members:
  "length (render_members ms) \<le> sum_list (map (\<lambda>(k, v). length (quote_json k) + length (render v) + 2) ms)"
  by (induction ms) auto

lemma length_literal [simp]:
  "length (quote_json ''job_id'') = 8" "length (quote_json ''status'') = 8" "length (quote_json ''error_message'') = 15"
  "length (quote_json ''snapshot_path'') = 15" "length (quote_json ''zigzag_version'') = 16" "length (quote_json ''size_bytes'') = 12"
  by (simp_all add: quote_plain escape_ascii_def)

lemma length_marshal_start: "length (marshal_start req) \<le> 6 * length (sr_job_id req) + 20"
  using length_quote [of "sr_job_id req"] by (simp add: marshal_start_def)

definition body_length :: "complete_body \<Rightarrow> nat" where
  \<comment> \<open>the length of the strings of a request\<close>
  "body_length b = length (cb_job_id b) + length (cb_status b) + length (cb_error_message b) +
     length (cb_snapshot_path b) + length (cb_zigzag_version b)"

lemma length_marshal_complete: "length (marshal_complete b) \<le> 6 * body_length b + 150"
proof -
  let ?ms = "[(''job_id'', JString (cb_job_id b)), (''status'', JString (cb_status b))] @
        omit_empty ''error_message'' (cb_error_message b) @ omit_empty ''snapshot_path'' (cb_snapshot_path b) @
        omit_empty ''zigzag_version'' (cb_zigzag_version b) @ omit_zero ''size_bytes'' (cb_size_bytes b)"
  have "sum_list (map (\<lambda>(k, v). length (quote_json k) + length (render v) + 2) ?ms) \<le> 6 * body_length b + 148"
    using length_quote [of "cb_job_id b"] length_quote [of "cb_status b"] length_quote [of "cb_error_message b"]
      length_quote [of "cb_snapshot_path b"] length_quote [of "cb_zigzag_version b"]
      length_format_int64 [of "cb_size_bytes b"]
    by (simp add: body_length_def omit_empty_def omit_zero_def)
  with length_render_members [of ?ms] show ?thesis by (simp add: marshal_complete_def)
qed

lemma utf8_wire:
  assumes "cb_job_id b = job_id" and "utf8_body b" and "body_length b \<le> 170000"
  shows "length (marshal_start \<lparr>sr_job_id = job_id\<rparr>) \<le> max_body_bytes"
    and "decode_job_id (marshal_start \<lparr>sr_job_id = job_id\<rparr>) = Some job_id"
    and "decode_start (marshal_start \<lparr>sr_job_id = job_id\<rparr>) = Some \<lparr>sr_job_id = job_id\<rparr>"
    and "length (marshal_complete b) \<le> max_body_bytes"
    and "decode_job_id (marshal_complete b) = Some job_id"
    and "decode_complete (take max_callback_bytes (marshal_complete b)) = Some (request_of b)"
proof -
  have c: "clean_utf8 job_id = job_id" "clean_body b = b"
    using assms by (simp_all add: utf8_body_def clean_valid clean_utf8_body)
  have s: "length job_id \<le> body_length b" using assms(1) by (auto simp: body_length_def)
  show "length (marshal_start \<lparr>sr_job_id = job_id\<rparr>) \<le> max_body_bytes"
    using length_marshal_start [of "\<lparr>sr_job_id = job_id\<rparr>"] s assms(3) by (simp add: max_body_bytes_def)
  show m: "length (marshal_complete b) \<le> max_body_bytes"
    using length_marshal_complete [of b] assms(3) by (simp add: max_body_bytes_def)
  show "decode_job_id (marshal_start \<lparr>sr_job_id = job_id\<rparr>) = Some job_id"
    and "decode_start (marshal_start \<lparr>sr_job_id = job_id\<rparr>) = Some \<lparr>sr_job_id = job_id\<rparr>"
    and "decode_job_id (marshal_complete b) = Some job_id"
    by (simp_all add: decode_job_id_marshal_start decode_start_marshal decode_job_id_marshal_complete c assms(1))
  show "decode_complete (take max_callback_bytes (marshal_complete b)) = Some (request_of b)"
    using m by (simp add: decode_complete_marshal c max_callback_bytes_def max_body_bytes_def)
qed

subsection \<open>The middleware and the handlers read the same job id\<close>

interpretation start_fields: fewer_fields job_id_payload start_members sr_job_id
  by unfold_locales
     (auto simp: find_slot_def job_id_payload_def start_members_def split: if_splits json.splits)

interpretation complete_fields: fewer_fields job_id_payload complete_members cr_job_id
  by unfold_locales
     (auto simp: find_slot_def job_id_payload_def complete_members_def fold_name_def upper_def
        split: if_splits json.splits option.splits)

lemma decode_start_job_id: "decode_start body = Some req \<Longrightarrow> decode_job_id body = Some (sr_job_id req)"
  using start_fields.decode_fewer [of "\<lparr>sr_job_id = []\<rparr>" body req]
  by (simp add: decode_start_def decode_job_id_def decode_json_def)

lemma decode_complete_job_id: "decode_complete body = Some req \<Longrightarrow> decode_job_id body = Some (cr_job_id req)"
  using complete_fields.decode_fewer [of no_request body req]
  by (simp add: decode_complete_def decode_job_id_def decode_json_def no_request_def)

end
