(* ===== verification/CallbackProps.thy ===== *)
theory CallbackProps
  imports Codec Samples
begin

text \<open>
  Properties of the callbacks \<open>Start\<close> and \<open>Complete\<close>: what they do to the job and to the
  snapshots on every path, that they can be retried, and the laws of the validator they rely on.

  \<open>complete_validator\<close> states the \<open>validate\<close> tags of \<open>CompleteRequest\<close> (documented behaviour of
  the validator package): what an accepted request satisfies.
\<close>

definition complete_validator :: "(complete_request \<Rightarrow> field_err list) \<Rightarrow> bool" where
  "complete_validator vstruct \<longleftrightarrow>
     (\<forall>req. vstruct req = [] \<longrightarrow>
        cr_job_id req \<noteq> [] \<and>
        (cr_status req = ''succeeded'' \<and> cr_snapshot_path req \<noteq> [] \<and> cr_zigzag_version req \<noteq> [] \<or>
         cr_status req = ''failed'' \<and> cr_error_message req \<noteq> []) \<and>
        0 \<le> sint (cr_size_bytes req) \<and> 0 \<le> sint (cr_duration_ms req))"

lemma complete_validator_status:
  assumes "complete_validator vstruct" and "vstruct req = []"
  obtains "cr_status req = ''succeeded''" and "job_status_of_string (cr_status req) = Some Succeeded"
      and "cr_snapshot_path req \<noteq> []"
  | "cr_status req = ''failed''" and "job_status_of_string (cr_status req) = Some Failed"
      and "cr_error_message req \<noteq> []"
proof -
  have "cr_status req = ''succeeded'' \<and> cr_snapshot_path req \<noteq> [] \<or>
        cr_status req = ''failed'' \<and> cr_error_message req \<noteq> []"
    using assms by (auto simp: complete_validator_def)
  then show ?thesis using that by (auto simp: job_status_of_string_def)
qed

subsection \<open>The row after a callback\<close>

definition completed_job :: "complete_io \<Rightarrow> complete_request \<Rightarrow> job_status \<Rightarrow> job \<Rightarrow> job" where
  "completed_job io req status j =
     touch (cio_now io) (j\<lparr>jstatus := status,
        jerror := (if cr_error_message req = [] then None else Some (cr_error_message req)),
        jstarted := (if status = Running then Some (cio_now io) else jstarted j),
        jfinished := (if is_terminal status then Some (cio_now io) else jfinished j)\<rparr>)"

definition started_job :: "start_io \<Rightarrow> job \<Rightarrow> job" where
  "started_job io j =
     touch (sio_now io) (j\<lparr>jstatus := Running, jerror := None, jstarted := Some (sio_now io)\<rparr>)"

lemma completed_job_simps [simp]:
  "jid (completed_job io req st j) = jid j" "jrepo (completed_job io req st j) = jrepo j"
  "jbranch (completed_job io req st j) = jbranch j" "jcommit (completed_job io req st j) = jcommit j"
  "jstatus (completed_job io req st j) = st" "jcreated (completed_job io req st j) = jcreated j"
  "jdelivery (completed_job io req st j) = jdelivery j"
  by (simp_all add: completed_job_def)

lemma started_job_simps [simp]:
  "jid (started_job io j) = jid j" "jrepo (started_job io j) = jrepo j"
  "jbranch (started_job io j) = jbranch j" "jcommit (started_job io j) = jcommit j"
  "jstatus (started_job io j) = Running" "jstarted (started_job io j) = Some (sio_now io)"
  "jdelivery (started_job io j) = jdelivery j"
  by (simp_all add: started_job_def)

lemma complete_update_jobs:
  assumes "wf_db d" and "job \<in> set (jobs d)"
  shows "complete_update io req job st d =
           d\<lparr>jobs := map (\<lambda>x. if jid x = jid job then completed_job io req st job else x) (jobs d)\<rparr>"
proof -
  have "complete_update io req job st d =
      d\<lparr>jobs := update_where (\<lambda>x. jid x = jid job) (completed_job io req st) (jobs d)\<rparr>"
    by (cases st) (simp_all add: complete_update_def update_job_status_def update_jobs_def
          completed_job_def [abs_def])
  then show ?thesis by (simp add: update_by_id [OF assms])
qed

lemma start_update_jobs:
  assumes "wf_db d" and "job \<in> set (jobs d)"
  shows "update_job_status (sio_now io) (jid job) Running None d =
           d\<lparr>jobs := map (\<lambda>x. if jid x = jid job then started_job io job else x) (jobs d)\<rparr>"
proof -
  have "update_job_status (sio_now io) (jid job) Running None d =
      d\<lparr>jobs := update_where (\<lambda>x. jid x = jid job) (started_job io) (jobs d)\<rparr>"
    by (simp add: update_job_status_def update_jobs_def started_job_def [abs_def])
  then show ?thesis by (simp add: update_by_id [OF assms])
qed

lemma complete_insert_Inr:
  assumes "wf_db d" and "job \<in> set (jobs d)"
  shows "complete_insert io req job (complete_update io req job st d) = Inr (s, d2) \<longleftrightarrow>
     s = \<lparr>sid = cio_new_id io, srepo = jrepo job, sjob = jid job, sbranch = jbranch job,
          scommit = jcommit job, sgcs_path = cr_snapshot_path req, sversion = 1,
          szigzag = cr_zigzag_version req, ssize = cr_size_bytes req, screated = cio_now io\<rparr> \<and>
     d2 = (complete_update io req job st d)\<lparr>snapshots := snapshots d @ [s]\<rparr> \<and>
     (\<forall>x \<in> set (snapshots d). sid x \<noteq> cio_new_id io) \<and>
     (\<forall>x \<in> set (snapshots d).
        \<not> (srepo x = jrepo job \<and> sbranch x = jbranch job \<and> scommit x = jcommit job))"
proof -
  have "\<exists>x \<in> set (repositories d). rid x = jrepo job"
    using assms by (force simp: wf_defs image_subset_iff image_iff)
  moreover have "completed_job io req st job \<in> set (jobs (complete_update io req job st d))"
    using assms(2) by (auto simp: complete_update_jobs [OF assms])
  then have "\<exists>x \<in> set (jobs (complete_update io req job st d)). jid x = jid job"
    by (rule bexI [rotated]) simp
  moreover have "repositories (complete_update io req job st d) = repositories d"
    and "snapshots (complete_update io req job st d) = snapshots d"
    by (simp_all add: complete_update_jobs [OF assms])
  ultimately show ?thesis by (auto simp: complete_insert_def insert_snapshot_Inr)
qed

subsection \<open>The changes a callback makes\<close>

lemma complete_effect:
  assumes "complete_handler vstruct uuid_scan io r d = (reply, d')"
    and "wf_db d" and "complete_validator vstruct" and "d' \<noteq> d"
  obtains (succeeded) req job s where "job \<in> set (jobs d)" and "\<not> is_terminal (jstatus job)"
      and "jobs d' = map (\<lambda>x. if jid x = jid job then completed_job io req Succeeded job else x) (jobs d)"
      and "snapshots d' = snapshots d @ [s]" and "sjob s = jid job" and "srepo s = jrepo job"
      and "sbranch s = jbranch job" and "scommit s = jcommit job" and "sgcs_path s \<noteq> []"
      and "uuid_scan (job_id_from_context r) = Some (jid job)"
  | (failed) req job where "job \<in> set (jobs d)" and "\<not> is_terminal (jstatus job)"
      and "jobs d' = map (\<lambda>x. if jid x = jid job then completed_job io req Failed job else x) (jobs d)"
      and "snapshots d' = snapshots d" and "jerror (completed_job io req Failed job) \<noteq> None"
      and "uuid_scan (job_id_from_context r) = Some (jid job)"
  using complete_handler_cases [of vstruct uuid_scan io r d]
proof cases
  case refused
  then show ?thesis using assms(1,4) by simp
next
  case (locked req job)
  note upd = complete_update_jobs [OF assms(2) locked(5)] and ins = complete_insert_Inr [OF assms(2) locked(5)]
  show ?thesis using complete_locked_cases [of job io req d]
  proof cases
    case terminal
    then show ?thesis using assms(1,4) locked(6) by simp
  next
    case failed
    then show ?thesis using assms(1,4) locked(6) by simp
  next
    case (completed status d2 reply')
    have d': "d' = d2" using completed(4) assms(1) locked(6) by simp
    show ?thesis using complete_validator_status [OF assms(3) locked(2)]
    proof cases
      case 1
      then obtain s where "complete_insert io req job (complete_update io req job Succeeded d) = Inr (s, d2)"
        using completed(2,3) by auto
      note s = this [unfolded ins]
      show ?thesis
        using s that(1) [of job req s] completed(1) locked(3-5) 1(3) by (simp add: d' upd)
    next
      case 2
      then have "d2 = complete_update io req job Failed d" using completed(2,3) by auto
      then show ?thesis
        using that(2) [of job req] completed(1) locked(3-5) 2(3) by (simp add: d' upd completed_job_def)
    qed
  qed
qed

lemma start_effect:
  assumes "start_handler vstruct uuid_scan gen io r d = (reply, d')" and "wf_db d" and "d' \<noteq> d"
  obtains job where "job \<in> set (jobs d)" and "jstatus job = Queued"
    and "d' = d\<lparr>jobs := map (\<lambda>x. if jid x = jid job then started_job io job else x) (jobs d)\<rparr>"
    and "uuid_scan (job_id_from_context r) = Some (jid job)"
  using start_handler_cases [of vstruct uuid_scan gen io r d]
proof cases
  case refused
  then show ?thesis using assms(1,3) by simp
next
  case (locked req job)
  show ?thesis using start_locked_cases [of gen io job d]
  proof cases
    case same
    then show ?thesis using assms(1,3) locked(6) by simp
  next
    case started
    then show ?thesis
      using that [of job] assms(1) locked(3-6) start_update_jobs [OF assms(2) locked(5), of io] by simp
  qed
qed

lemma wf_start_handler:
  assumes "start_handler vstruct uuid_scan gen io r d = (reply, d')" and "wf_db d"
  shows "wf_db d'"
proof (cases "d' = d")
  case False
  obtain job where job: "job \<in> set (jobs d)"
    and d': "d' = d\<lparr>jobs := map (\<lambda>x. if jid x = jid job then started_job io job else x) (jobs d)\<rparr>"
    using assms False by (rule start_effect)
  have "wf_db (update_job_status (sio_now io) (jid job) Running None d)"
    by (rule wf_update_job_status [OF assms(2)])
  then show ?thesis by (simp only: start_update_jobs [OF assms(2) job] d')
qed (use assms in simp)

lemma wf_complete_locked:
  assumes "complete_locked io req job d = (reply, d')" and "wf_db d"
  shows "wf_db d'"
  using complete_locked_cases [of job io req d]
proof cases
  case (completed status d2 reply')
  have "wf_db (complete_update io req job status d)"
    using assms(2) by (simp add: complete_update_def wf_update_job_status)
  then have "wf_db d2"
    using completed(3) by (auto simp: complete_insert_def intro: wf_insert_snapshot split: if_splits)
  then show ?thesis using assms(1) completed(4) by simp
qed (use assms in simp_all)

lemma wf_complete_handler:
  assumes "complete_handler vstruct uuid_scan io r d = (reply, d')" and "wf_db d"
  shows "wf_db d'"
  using complete_handler_cases [of vstruct uuid_scan io r d]
proof cases
  case (locked req job)
  then show ?thesis using wf_complete_locked [of io req job d reply d'] assms by simp
qed (use assms in simp)

subsection \<open>Sample requests\<close>

definition ex_complete_req :: "string \<Rightarrow> complete_request" where
  "ex_complete_req status = \<lparr>cr_job_id = ''u'', cr_status = status,
     cr_error_message = (if status = ''failed'' then ''boom'' else []), cr_snapshot_path = ''p'',
     cr_zigzag_version = ''v1'', cr_size_bytes = 10, cr_duration_ms = 5\<rparr>"

definition ex_complete_body :: "string \<Rightarrow> string" where
  "ex_complete_body status = render (JObject
     [(''job_id'', JString ''u''), (''status'', JString status),
      (''error_message'', JString (if status = ''failed'' then ''boom'' else [])),
      (''snapshot_path'', JString ''p''), (''zigzag_version'', JString ''v1''),
      (''size_bytes'', JNumber (format_int64 10)), (''duration_ms'', JNumber (format_int64 5))])"

definition ex_callback :: "string \<Rightarrow> request" where
  "ex_callback status = ex_request\<lparr>rq_body := ex_complete_body status\<rparr>"

lemma length_ex_complete_body: "length status \<le> 100 \<Longrightarrow> length (ex_complete_body status) \<le> 1000"
  using length_quote [of status] length_quote [of "''failed''"] length_quote [of "''duration_ms''"] length_quote [of "''boom''"] length_quote [of "[]"]
    length_quote [of "''u''"] length_quote [of "''p''"] length_quote [of "''v1''"]
    length_format_int64 [of 10] length_format_int64 [of 5]
  by (simp add: ex_complete_body_def)

lemma decode_ex_complete_body:
  "valid_utf8 status \<Longrightarrow> decode_complete (ex_complete_body status) = Some (ex_complete_req status)"
  by (simp add: ex_complete_body_def decode_complete_def decode_json_render(1) ex_complete_req_def no_request_def
        clean_valid ascii_valid del: render.simps)

lemma decode_start_ex_complete_body: "decode_start (ex_complete_body status) = Some \<lparr>sr_job_id = ''u''\<rparr>"
  by (simp add: ex_complete_body_def decode_start_def decode_json_render(1) clean_valid ascii_valid del: render.simps)

lemma ex_callback_body [simp]:
  "decode_complete (take max_callback_bytes (rq_body (ex_callback ''succeeded''))) = Some (ex_complete_req ''succeeded'')"
  "decode_complete (take max_callback_bytes (rq_body (ex_callback ''failed''))) = Some (ex_complete_req ''failed'')"
  "decode_start (rq_body (ex_callback status)) = Some \<lparr>sr_job_id = ''u''\<rparr>"
  using length_ex_complete_body [of "''succeeded''"] length_ex_complete_body [of "''failed''"]
  by (simp_all add: ex_callback_def max_callback_bytes_def decode_ex_complete_body decode_start_ex_complete_body
        ascii_valid)

definition ex_vstruct :: "complete_request \<Rightarrow> field_err list" where
  "ex_vstruct req =
     (if cr_job_id req \<noteq> [] \<and>
         (cr_status req = ''succeeded'' \<and> cr_snapshot_path req \<noteq> [] \<and> cr_zigzag_version req \<noteq> [] \<or>
          cr_status req = ''failed'' \<and> cr_error_message req \<noteq> []) \<and>
         0 \<le> sint (cr_size_bytes req) \<and> 0 \<le> sint (cr_duration_ms req)
      then [] else [\<lparr>fe_field = ''Status'', fe_tag = ''oneof'', fe_param = ''succeeded failed''\<rparr>])"

definition ex_scan :: "string \<Rightarrow> uuid option" where
  "ex_scan s = (if s = ''u'' then Some 3 else None)"

definition ex_complete_io :: complete_io where
  "ex_complete_io = \<lparr>cio_begin = None, cio_get = None, cio_update = None, cio_insert = None,
     cio_commit = Committed, cio_now = 500, cio_new_id = 77\<rparr>"

definition ex_start_io :: start_io where
  "ex_start_io = \<lparr>sio_begin = None, sio_get = None, sio_update = None, sio_commit = Committed,
     sio_repo = None, sio_now = 400\<rparr>"

lemma ex_validator [simp]: "complete_validator ex_vstruct"
  by (auto simp: complete_validator_def ex_vstruct_def split: if_splits)

lemma ex_vstruct_accepts [simp]:
  "ex_vstruct (ex_complete_req ''succeeded'') = []" "ex_vstruct (ex_complete_req ''failed'') = []"
  by (simp_all add: ex_vstruct_def ex_complete_req_def)

lemma ex_callback_simps [simp]:
  "cr_job_id (ex_complete_req st) = ''u''" "cr_status (ex_complete_req st) = st"
  "ex_scan ''u'' = Some 3" "job_id_from_context (ex_callback st) = ''u''"
  "cio_begin ex_complete_io = None" "cio_get ex_complete_io = None" "cio_update ex_complete_io = None"
  "cio_insert ex_complete_io = None" "cio_commit ex_complete_io = Committed"
  "sio_begin ex_start_io = None" "sio_get ex_start_io = None" "sio_update ex_start_io = None"
  "sio_commit ex_start_io = Committed" "sio_repo ex_start_io = None"
  by (simp_all add: ex_complete_req_def ex_scan_def ex_callback_def ex_request_def job_id_from_context_def
        ex_complete_io_def ex_start_io_def)

subsection \<open>Properties\<close>

lemma complete_success:
  assumes "wf_db d" and "job \<in> set (jobs d)" and "\<not> is_terminal (jstatus job)"
    and "decode_complete (take max_callback_bytes (rq_body r)) = Some req" and "vstruct req = []"
    and "cr_job_id req = job_id_from_context r" and "uuid_scan (cr_job_id req) = Some (jid job)"
    and "cr_status req = ''succeeded''"
    and "cio_begin io = None" "cio_get io = None" "cio_update io = None" "cio_insert io = None"
        "cio_commit io = Committed"
    and "\<forall>x \<in> set (snapshots d). sid x \<noteq> cio_new_id io"
    and "\<forall>x \<in> set (snapshots d).
           \<not> (srepo x = jrepo job \<and> sbranch x = jbranch job \<and> scommit x = jcommit job)"
  shows "complete_handler vstruct uuid_scan io r d =
     (JsonReply 200 ''succeeded'',
      d\<lparr>jobs := map (\<lambda>x. if jid x = jid job then completed_job io req Succeeded job else x) (jobs d),
        snapshots := snapshots d @
          [\<lparr>sid = cio_new_id io, srepo = jrepo job, sjob = jid job, sbranch = jbranch job,
            scommit = jcommit job, sgcs_path = cr_snapshot_path req, sversion = 1,
            szigzag = cr_zigzag_version req, ssize = cr_size_bytes req, screated = cio_now io\<rparr>]\<rparr>)"
proof -
  let ?s = "\<lparr>sid = cio_new_id io, srepo = jrepo job, sjob = jid job, sbranch = jbranch job,
            scommit = jcommit job, sgcs_path = cr_snapshot_path req, sversion = 1,
            szigzag = cr_zigzag_version req, ssize = cr_size_bytes req, screated = cio_now io\<rparr>"
  have "complete_insert io req job (complete_update io req job Succeeded d) =
          Inr (?s, (complete_update io req job Succeeded d)\<lparr>snapshots := snapshots d @ [?s]\<rparr>)"
    using assms(14,15) by (simp add: complete_insert_Inr [OF assms(1,2)])
  then have "complete_locked io req job d =
      (JsonReply 200 ''succeeded'', (complete_update io req job Succeeded d)\<lparr>snapshots := snapshots d @ [?s]\<rparr>)"
    using assms(3,8,11-13) by (simp add: complete_locked_def job_status_of_string_def)
  then show ?thesis
    using complete_handler_locked [where vstruct = vstruct
        and uuid_scan = uuid_scan, OF assms(1,4-7,2,9,10)] complete_update_jobs [OF assms(1,2)] by simp
qed

text \<open>
  C21: Completing a job that has not finished with status \<^verbatim>\<open>succeeded\<close> answers 200, marks exactly that
  job as succeeded with its finishing time, and adds exactly one snapshot, which carries the
  repository, branch and commit recorded for the job (not any the worker could claim) and the
  path, tool version and size the worker reported.
\<close>

theorem complete_records_snapshot:
  assumes "wf_db d" and "job \<in> set (jobs d)" and "\<not> is_terminal (jstatus job)"
    and "decode_complete (take max_callback_bytes (rq_body r)) = Some req" and "vstruct req = []"
    and "cr_job_id req = job_id_from_context r" and "uuid_scan (cr_job_id req) = Some (jid job)"
    and "cr_status req = ''succeeded''"
    and "cio_begin io = None" "cio_get io = None" "cio_update io = None" "cio_insert io = None"
        "cio_commit io = Committed"
    and "\<forall>x \<in> set (snapshots d). sid x \<noteq> cio_new_id io"
    and "\<forall>x \<in> set (snapshots d).
           \<not> (srepo x = jrepo job \<and> sbranch x = jbranch job \<and> scommit x = jcommit job)"
  shows "complete_handler vstruct uuid_scan io r d =
     (JsonReply 200 ''succeeded'',
      d\<lparr>jobs := map (\<lambda>x. if jid x = jid job then completed_job io req Succeeded job else x) (jobs d),
        snapshots := snapshots d @
          [\<lparr>sid = cio_new_id io, srepo = jrepo job, sjob = jid job, sbranch = jbranch job,
            scommit = jcommit job, sgcs_path = cr_snapshot_path req, sversion = 1,
            szigzag = cr_zigzag_version req, ssize = cr_size_bytes req, screated = cio_now io\<rparr>]\<rparr>)"
  by (rule complete_success) (fact assms)+

theorem complete_records_snapshot_witness:
  "\<exists>s. snapshots (snd (complete_handler ex_vstruct ex_scan
          ex_complete_io (ex_callback ''succeeded'') (ex_db [ex_job 3 Running ''abc'' 20]))) = [s] \<and>
       scommit s = ''abc'' \<and> sbranch s = ''main'' \<and> sgcs_path s = ''p''"
  using complete_records_snapshot [of "ex_db [ex_job 3 Running ''abc'' 20]" "ex_job 3 Running ''abc'' 20"
      "ex_callback ''succeeded''" "ex_complete_req ''succeeded''" ex_vstruct ex_scan
      ex_complete_io]
  by (simp add: ex_complete_req_def [THEN arg_cong [where f = cr_snapshot_path]])

text \<open>
  C15: \<open>Complete\<close> is all or nothing under any failure of the database, lost commits included.  Either the
  database is unchanged, and the reply is a refusal or, with status 200, the status of the job of the
  request's token, which had already finished; or the job that the request and its token name had not finished and now
  carries the status the request asks for, with the request's error message, together with its
  snapshot if that is success, and the reply is 200 with that status, or 500 if the answer of the commit was lost.
\<close>

theorem complete_all_or_nothing:
  assumes "wf_db d" and "complete_validator vstruct"
    and "complete_handler vstruct uuid_scan io r d = (reply, d')"
  shows "(d' = d \<and>
      (is_refusal reply \<or>
       (\<exists>job \<in> set (jobs d). uuid_scan (job_id_from_context r) = Some (jid job) \<and> is_terminal (jstatus job) \<and>
          reply = JsonReply 200 (status_string (jstatus job))))) \<or>
     (\<exists>req. \<exists>job \<in> set (jobs d).
        decode_complete (take max_callback_bytes (rq_body r)) = Some req \<and>
        cr_job_id req = job_id_from_context r \<and> uuid_scan (cr_job_id req) = Some (jid job) \<and>
        \<not> is_terminal (jstatus job) \<and>
        (cr_status req = ''succeeded'' \<and>
         (\<exists>s. d' = d\<lparr>jobs := map (\<lambda>x. if jid x = jid job then completed_job io req Succeeded job else x) (jobs d),
                   snapshots := snapshots d @ [s]\<rparr> \<and>
              sjob s = jid job \<and> srepo s = jrepo job \<and> sbranch s = jbranch job \<and> scommit s = jcommit job \<and>
              sgcs_path s = cr_snapshot_path req \<and> sgcs_path s \<noteq> []) \<or>
         cr_status req = ''failed'' \<and> cr_error_message req \<noteq> [] \<and>
         d' = d\<lparr>jobs := map (\<lambda>x. if jid x = jid job then completed_job io req Failed job else x) (jobs d)\<rparr>) \<and>
        (reply = JsonReply 200 (cr_status req) \<and> cio_commit io = Committed \<or>
         reply = internal_error \<and> (\<exists>m. cio_commit io = CommitLost m)))"
  using complete_handler_cases [of vstruct uuid_scan io r d]
proof cases
  case refused
  then show ?thesis using assms(3) by simp
next
  case (locked req job)
  note upd = complete_update_jobs [OF assms(1) locked(5)] and ins = complete_insert_Inr [OF assms(1) locked(5)]
  show ?thesis using complete_locked_cases [of job io req d]
  proof cases
    case terminal
    then have "d' = d \<and> reply = JsonReply 200 (status_string (jstatus job))" using assms(3) locked(6) by simp
    then show ?thesis using terminal(1) locked(3-5) by auto
  next
    case failed
    then show ?thesis using assms(3) locked(6) by simp
  next
    case (completed status d2 reply')
    have eqs: "d' = d2" "reply = reply'" using completed(4) assms(3) locked(6) by simp_all
    show ?thesis using complete_validator_status [OF assms(2) locked(2)]
    proof cases
      case 1
      then obtain s where "complete_insert io req job (complete_update io req job Succeeded d) = Inr (s, d2)"
        using completed(2,3) by auto
      then show ?thesis
        unfolding ins
        by (intro disjI2 exI [of _ req] bexI [OF _ locked(5)])
           (use 1 completed(1,5) locked(1,3,4) in \<open>auto simp: eqs upd\<close>)
    next
      case 2
      then have "d2 = complete_update io req job Failed d" using completed(2,3) by auto
      then show ?thesis
        by (intro disjI2 exI [of _ req] bexI [OF _ locked(5)])
           (use 2 completed(1,5) locked(1,3,4) in \<open>auto simp: eqs upd\<close>)
    qed
  qed
qed

theorem complete_all_or_nothing_witness:
  "(\<exists>d'. complete_handler ex_vstruct ex_scan ex_complete_io (ex_callback ''succeeded'')
      (ex_db [ex_job 3 Running ''abc'' 20]) = (JsonReply 200 ''succeeded'', d') \<and>
      (\<exists>s. snapshots d' = [s] \<and> scommit s = ''abc'' \<and> sjob s = 3) \<and> map jstatus (jobs d') = [Succeeded])"
proof -
  let ?d = "ex_db [ex_job 3 Running ''abc'' 20]"
  let ?h = "complete_handler ex_vstruct ex_scan ex_complete_io (ex_callback ''succeeded'') ?d"
  obtain reply d' where h: "?h = (reply, d')" by fastforce
  have "reply = JsonReply 200 ''succeeded''"
    using h complete_success [of ?d "ex_job 3 Running ''abc'' 20" "ex_callback ''succeeded''"
        "ex_complete_req ''succeeded''" ex_vstruct ex_scan ex_complete_io] by auto
  with h show ?thesis
    using complete_all_or_nothing [OF _ _ h] by auto
qed

text \<open>
  C22: Retrying \<open>Complete\<close> is safe: after any call that changed the job, whether it was answered 200 or
  its commit's answer was lost, the same request sent again is answered 200 with the status the
  job now has and changes nothing; and a call that was answered 200 is answered 200 with the same
  status again.
\<close>

theorem complete_retry_idempotent:
  assumes "wf_db d" and "complete_validator vstruct"
    and "complete_handler vstruct uuid_scan io r d = (reply, d')"
    and "d' \<noteq> d \<or> reply_status reply = 200"
    and "cio_begin io' = None" and "cio_get io' = None"
  shows "\<exists>st. is_terminal st \<and>
           complete_handler vstruct uuid_scan io' r d' = (JsonReply 200 (status_string st), d') \<and>
           (reply_status reply = 200 \<longrightarrow> reply = JsonReply 200 (status_string st))"
  using complete_handler_cases [of vstruct uuid_scan io r d]
proof cases
  case refused
  then show ?thesis using assms(3,4) by (auto simp: is_refusal_def)
next
  case (locked req job)
  have again: "complete_handler vstruct uuid_scan io' r d' =
      (JsonReply 200 (status_string (jstatus job')), d')"
    if "job' \<in> set (jobs d')" and "jid job' = jid job" and "is_terminal (jstatus job')" for job'
  proof -
    have "complete_handler vstruct uuid_scan io' r d' = complete_locked io' req job' d'"
      by (rule complete_handler_locked)
         (use wf_complete_handler [OF assms(3,1)] locked(1-4) that assms(5,6) in simp_all)
    then show ?thesis using that by (simp add: complete_locked_def)
  qed
  show ?thesis using complete_locked_cases [of job io req d]
  proof cases
    case terminal
    then show ?thesis using again [of job] locked(5,6) assms(3) by auto
  next
    case failed
    then have "reply = ErrReply 500 ''internal error''" and "d' = d"
      using assms(3) locked(6) by (simp_all add: internal_error_def err_response_def)
    then show ?thesis using assms(4) by simp
  next
    case (completed status d2 reply')
    have eqs: "d' = d2" "reply = reply'" using completed(4) assms(3) locked(6) by simp_all
    have "status = Succeeded \<or> status = Failed"
      using completed(2) by (rule_tac complete_validator_status [OF assms(2) locked(2)]) simp_all
    then have st: "is_terminal status" "cr_status req = status_string status"
      using completed(2) by (auto simp: job_status_of_string_Some)
    have "jobs d2 = jobs (complete_update io req job status d)"
      using completed(3) by (auto simp: complete_insert_def insert_snapshot_Inr split: if_splits)
    then have "completed_job io req status job \<in> set (jobs d')"
      using locked(5) by (auto simp: complete_update_jobs [OF assms(1) locked(5)] eqs)
    from again [OF this] st completed(5) show ?thesis
      by (auto simp: eqs internal_error_def err_response_def)
  qed
qed

theorem complete_retry_idempotent_witness:
  "\<exists>d' st. complete_handler ex_vstruct ex_scan
          (ex_complete_io\<lparr>cio_commit := CommitLost ''eof''\<rparr>) (ex_callback ''failed'') (ex_db [ex_job 3 Running ''abc'' 20]) =
          (internal_error, d') \<and>
        complete_handler ex_vstruct ex_scan ex_complete_io (ex_callback ''failed'') d' =
          (JsonReply 200 (status_string st), d')"
proof -
  let ?io = "ex_complete_io\<lparr>cio_commit := CommitLost ''eof''\<rparr>"
  let ?d = "ex_db [ex_job 3 Running ''abc'' 20]" and ?req = "ex_complete_req ''failed''"
  let ?d' = "complete_update ?io ?req (ex_job 3 Running ''abc'' 20) Failed ?d"
  have "complete_handler ex_vstruct ex_scan ?io (ex_callback ''failed'') ?d =
          complete_locked ?io ?req (ex_job 3 Running ''abc'' 20) ?d"
    by (rule complete_handler_locked) simp_all
  then have h: "complete_handler ex_vstruct ex_scan ?io (ex_callback ''failed'') ?d = (internal_error, ?d')"
    by (simp add: complete_locked_def job_status_of_string_def)
  have "map jstatus (jobs ?d') = [Failed]"
    by (simp add: complete_update_jobs)
  then have "?d' \<noteq> ?d" by (auto simp del: ex_db_frame(3) simp: ex_db_frame(3) [of "[ex_job 3 Running ''abc'' 20]"])
  with complete_retry_idempotent [OF _ _ h, of ex_complete_io] h show ?thesis by auto
qed

text \<open>
  C24: A second job for a commit that already has a snapshot can never be completed as succeeded:
  every such call is answered 500 and leaves the job unfinished, whatever the worker reports.
  The \<open>Complete\<close> handler treats the unique index on repository, branch and commit as an error.
\<close>

theorem complete_duplicate_snapshot_stuck:
  assumes "wf_db d" and "job \<in> set (jobs d)" and "\<not> is_terminal (jstatus job)"
    and "s \<in> set (snapshots d)"
    and "srepo s = jrepo job" and "sbranch s = jbranch job" and "scommit s = jcommit job"
    and "decode_complete (take max_callback_bytes (rq_body r)) = Some req" and "vstruct req = []"
    and "cr_job_id req = job_id_from_context r" and "uuid_scan (cr_job_id req) = Some (jid job)"
    and "cr_status req = ''succeeded''" and "cio_begin io = None" and "cio_get io = None"
  shows "complete_handler vstruct uuid_scan io r d = (internal_error, d)"
proof -
  have "\<exists>e. complete_insert io req job (complete_update io req job Succeeded d) = Inl e"
    using insert_snapshot_taken [of s "complete_update io req job Succeeded d"] assms(4-7)
      complete_update_jobs [OF assms(1,2)] by (simp add: complete_insert_def)
  then have "complete_locked io req job d = (internal_error, d)"
    using assms(3,12)
    by (auto simp: complete_locked_def job_status_of_string_def with_fault_def split: option.split)
  then show ?thesis
    using complete_handler_locked [where vstruct = vstruct
        and uuid_scan = uuid_scan, OF assms(1,8-11,2,13,14)] by simp
qed

theorem complete_duplicate_snapshot_stuck_witness:
  "\<exists>d. snapshots d \<noteq> [] \<and> wf_db d \<and>
     complete_handler ex_vstruct ex_scan ex_complete_io (ex_callback ''succeeded'') d =
       (internal_error, d)"
proof -
  let ?s = "\<lparr>sid = 50, srepo = 2, sjob = 3, sbranch = ''main'', scommit = ''abc'', sgcs_path = ''p'',
     sversion = 1, szigzag = ''v'', ssize = 1, screated = 30\<rparr>"
  let ?d = "(ex_db [ex_job 3 Running ''abc'' 20])\<lparr>snapshots := [?s]\<rparr>"
  have wf: "wf_db ?d"
    using wf_ex_db_single [of 3 Running "''abc''" 20] by (simp add: wf_defs unique_on_def)
  have "complete_handler ex_vstruct ex_scan ex_complete_io
          (ex_callback ''succeeded'') ?d = (internal_error, ?d)"
    by (rule complete_duplicate_snapshot_stuck [OF wf, where job = "ex_job 3 Running ''abc'' 20" and s = ?s
          and req = "ex_complete_req ''succeeded''"])
       simp_all
  with wf show ?thesis by (intro exI [of _ ?d]) simp
qed

lemma respond_start_ok:
  assumes "wf_db d" and "j' \<in> set (jobs d)" and "repo \<in> set (repositories d)" and "rid repo = jrepo j'"
    and "jid j' = jid job" and "sio_repo io = None" and "gen (rinstallation repo) = Inr clone_token"
  shows "respond_start gen io job d =
     JsonReply 200 \<lparr>sp_commit_sha = jcommit job, sp_branch = jbranch job,
       sp_repo_full_name = rfull_name repo, sp_clone_token = clone_token,
       sp_installation_id = rinstallation repo\<rparr>"
  using get_repo_for_job_wf [OF assms(1-4)] assms(5-7) by (simp add: respond_start_def)

lemma start_locked_queued:
  assumes "wf_db d" and "job \<in> set (jobs d)" and "jstatus job = Queued"
    and "repo \<in> set (repositories d)" and "rid repo = jrepo job"
    and "gen (rinstallation repo) = Inr clone_token"
    and "sio_update io = None" "sio_repo io = None" "sio_commit io = Committed"
  shows "start_locked gen io job d =
     (JsonReply 200 \<lparr>sp_commit_sha = jcommit job, sp_branch = jbranch job,
       sp_repo_full_name = rfull_name repo, sp_clone_token = clone_token,
       sp_installation_id = rinstallation repo\<rparr>,
      d\<lparr>jobs := map (\<lambda>x. if jid x = jid job then started_job io job else x) (jobs d)\<rparr>)"
proof -
  let ?d1 = "d\<lparr>jobs := map (\<lambda>x. if jid x = jid job then started_job io job else x) (jobs d)\<rparr>"
  have d1: "update_job_status (sio_now io) (jid job) Running None d = ?d1"
    by (rule start_update_jobs [OF assms(1,2)])
  have "wf_db ?d1" using wf_update_job_status [OF assms(1)] by (simp only: d1 [symmetric])
  moreover have "started_job io job \<in> set (jobs ?d1)" using assms(2) by auto
  ultimately have "respond_start gen io job ?d1 = JsonReply 200 \<lparr>sp_commit_sha = jcommit job,
       sp_branch = jbranch job, sp_repo_full_name = rfull_name repo, sp_clone_token = clone_token,
       sp_installation_id = rinstallation repo\<rparr>"
    by (rule respond_start_ok) (use assms in simp_all)
  then show ?thesis using assms(3,7,9) by (simp add: start_locked_def d1)
qed

text \<open>
  C23: \<open>Start\<close> by the status of the job, when no outside call fails.  A queued job becomes running,
  with its starting time, and the reply carries the job's commit and branch, the repository's full
  name and a clone token for its installation; sending the request again (the job is now running)
  gives the same reply and changes nothing; a finished job is never restarted: 409.
\<close>

theorem start_by_status:
  assumes "wf_db d" and "job \<in> set (jobs d)" and "decode_start (rq_body r) = Some req" and "vstruct req = []"
    and "sr_job_id req = job_id_from_context r" and "uuid_scan (sr_job_id req) = Some (jid job)"
    and "repo \<in> set (repositories d)" and "rid repo = jrepo job"
    and "gen (rinstallation repo) = Inr clone_token"
    and io: "sio_begin io = None" "sio_get io = None" "sio_update io = None" "sio_repo io = None"
        "sio_commit io = Committed"
  shows "let info = JsonReply 200 \<lparr>sp_commit_sha = jcommit job, sp_branch = jbranch job,
                sp_repo_full_name = rfull_name repo, sp_clone_token = clone_token,
                sp_installation_id = rinstallation repo\<rparr>;
             d1 = d\<lparr>jobs := map (\<lambda>x. if jid x = jid job then started_job io job else x) (jobs d)\<rparr>
         in (jstatus job = Queued \<longrightarrow>
               start_handler vstruct uuid_scan gen io r d = (info, d1) \<and>
               start_handler vstruct uuid_scan gen io r d1 = (info, d1)) \<and>
            (jstatus job = Running \<longrightarrow> start_handler vstruct uuid_scan gen io r d = (info, d)) \<and>
            (is_terminal (jstatus job) \<longrightarrow>
               start_handler vstruct uuid_scan gen io r d =
                 (err_response 409 (''job already in terminal state: '' @ status_string (jstatus job)), d))"
proof -
  let ?d1 = "d\<lparr>jobs := map (\<lambda>x. if jid x = jid job then started_job io job else x) (jobs d)\<rparr>"
  have "update_job_status (sio_now io) (jid job) Running None d = ?d1"
    by (rule start_update_jobs [OF assms(1,2)])
  then have wf1: "wf_db ?d1" using wf_update_job_status [OF assms(1)] by metis
  have mem: "started_job io job \<in> set (jobs ?d1)" using assms(2) by auto
  have h: "start_handler vstruct uuid_scan gen io r d = start_locked gen io job d"
    by (rule start_handler_locked [where req = req]) (use assms in simp_all)
  have h1: "start_handler vstruct uuid_scan gen io r ?d1 = start_locked gen io (started_job io job) ?d1"
    by (rule start_handler_locked [where req = req]) (use assms wf1 mem in simp_all)
  note q = start_locked_queued [where gen = gen, OF assms(1,2) _ assms(7,8,9) io(3,4,5)]
  have "respond_start gen io job d = JsonReply 200 \<lparr>sp_commit_sha = jcommit job, sp_branch = jbranch job,
       sp_repo_full_name = rfull_name repo, sp_clone_token = clone_token,
       sp_installation_id = rinstallation repo\<rparr>"
    by (rule respond_start_ok [where gen = gen, OF assms(1,2,7,8) refl io(4) assms(9)])
  moreover have "respond_start gen io (started_job io job) ?d1 = JsonReply 200 \<lparr>sp_commit_sha = jcommit job,
       sp_branch = jbranch job, sp_repo_full_name = rfull_name repo, sp_clone_token = clone_token,
       sp_installation_id = rinstallation repo\<rparr>"
    using respond_start_ok [OF wf1 mem, of repo "started_job io job" io gen clone_token] assms(7-9) io by simp
  ultimately show ?thesis
    unfolding Let_def h h1 using q by (auto simp: start_locked_def io)
qed

theorem start_by_status_witness:
  "let io = ex_start_io; h = start_handler (\<lambda>_. []) ex_scan
            (\<lambda>_. Inr ''ghs'') io (ex_callback [])
   in (\<exists>info. fst (h (ex_db [ex_job 3 Queued ''abc'' 20])) = JsonReply 200 info \<and>
          sp_commit_sha info = ''abc'' \<and> sp_repo_full_name info = ''acme/app'') \<and>
      reply_status (fst (h (ex_db [ex_job 3 Failed ''abc'' 20]))) = 409"
  using start_by_status [of "ex_db [ex_job 3 Queued ''abc'' 20]" "ex_job 3 Queued ''abc'' 20"
      "ex_callback []" "\<lparr>sr_job_id = ''u''\<rparr>" "\<lambda>_. []" ex_scan ex_repo
      "\<lambda>_. Inr ''ghs''" "''ghs''" ex_start_io]
    start_by_status [of "ex_db [ex_job 3 Failed ''abc'' 20]" "ex_job 3 Failed ''abc'' 20"
      "ex_callback []" "\<lparr>sr_job_id = ''u''\<rparr>" "\<lambda>_. []" ex_scan ex_repo
      "\<lambda>_. Inr ''ghs''" "''ghs''" ex_start_io]
  by (simp add: Let_def err_response_def ex_repo_def)

end
