(* ===== verification/Watchdog.thy ===== *)
theory Watchdog
  imports Tx Http Samples
begin

text \<open>
  The watchdog and the probes: \<^verbatim>\<open>api/internal/handler/watchdog\<close> and \<^verbatim>\<open>api/internal/handler/health\<close>.

  \<open>timeout_handler\<close> is the method \<open>Timeout\<close>: its arguments are the failure of the statement and
  the time at which it runs.  \<open>health_check\<close>, \<open>liveness\<close> and \<open>readiness\<close> take the outcome of the
  pool's \<open>Ping\<close>.  The lemmas say which jobs a sweep fails, and that those it does not fail keep
  every column.
\<close>

definition default_timeout_minutes :: int where
  "default_timeout_minutes = 20"

definition timeout_handler :: "string option \<Rightarrow> pgtime \<Rightarrow> request \<Rightarrow> db \<Rightarrow> int reply \<times> db" where
  "timeout_handler fault now r d =
     (case with_fault fault (Inr (timeout_running_jobs now default_timeout_minutes d)) of
        Inl _ \<Rightarrow> (internal_error, d)
      | Inr (count, d') \<Rightarrow> (JsonReply 200 count, d'))"

definition health_check :: "string option \<Rightarrow> unit reply" where
  "health_check ping_error =
     (if ping_error \<noteq> None then err_response 503 ''internal error'' else EmptyReply 200)"

definition liveness :: "(string \<times> string) reply" where
  "liveness = JsonReply 200 (''ok'', [])"

definition readiness :: "string option \<Rightarrow> (string \<times> string) reply" where
  "readiness ping_error =
     (if ping_error \<noteq> None then JsonReply 503 (''unavailable'', ''db unreachable'')
      else JsonReply 200 (''ready'', []))"

definition timeout_json :: "int \<Rightarrow> json" where
  \<comment> \<open>the struct \<open>TimeoutResponse\<close>\<close>
  "timeout_json count = JObject [(''timed_out'', JNumber (format_int64 (word_of_int count)))]"

definition probe_json :: "string \<times> string \<Rightarrow> json" where
  \<comment> \<open>the struct \<open>health.Response\<close>\<close>
  "probe_json x = (case x of (status, reason) \<Rightarrow> JObject ((''status'', JString status) # omit_empty ''reason'' reason))"

subsection \<open>Which jobs a sweep fails\<close>

definition timed_out :: "pgtime \<Rightarrow> job \<Rightarrow> job" where
  "timed_out now j =
     touch now (j\<lparr>jstatus := Failed, jerror := Some ''Job timed out'', jfinished := Some now\<rparr>)"

lemma timed_out_simps [simp]:
  "jid (timed_out now j) = jid j" "jrepo (timed_out now j) = jrepo j"
  "jbranch (timed_out now j) = jbranch j" "jcommit (timed_out now j) = jcommit j"
  "jstatus (timed_out now j) = Failed" "jerror (timed_out now j) = Some ''Job timed out''"
  by (simp_all add: timed_out_def)

lemma overdue_running: "overdue now mins j \<Longrightarrow> jstatus j = Running"
  by (simp add: overdue_def)

lemma overdue_minutes:
  "overdue now default_timeout_minutes j \<longleftrightarrow>
     jstatus j = Running \<and> (\<exists>t. jstarted j = Some t \<and> now - t > 20 * 60 * 1000000)"
  by (auto simp: overdue_def default_timeout_minutes_def split: option.splits)

lemma timeout_handler_eq:
  "timeout_handler fault now r d =
     (case fault of
        Some _ \<Rightarrow> (internal_error, d)
      | None \<Rightarrow>
          (JsonReply 200 (int (length (filter (overdue now default_timeout_minutes) (jobs d)))),
           d\<lparr>jobs := map (\<lambda>j. if overdue now default_timeout_minutes j then timed_out now j else j)
                      (jobs d)\<rparr>))"
  using timeout_status [of now default_timeout_minutes d]
  by (cases fault)
     (simp_all add: timeout_handler_def with_fault_def timed_out_def timeout_running_jobs_def)

lemma wf_timeout_handler:
  assumes "timeout_handler fault now r d = (reply, d')" and "wf_db d"
  shows "wf_db d'"
  using assms wf_timeout_running_jobs [OF assms(2), of now default_timeout_minutes]
  by (auto simp: timeout_handler_def with_fault_def split: option.splits prod.splits)

subsection \<open>Properties\<close>

text \<open>
  C26: A sweep of the watchdog fails exactly the jobs that are running and were started more than 20
  minutes ago, gives them an error message and their finishing time, reports how many they were,
  and leaves every other row untouched; after it no running job is overdue.
\<close>

theorem watchdog_fails_overdue_jobs:
  assumes "timeout_handler fault now r d = (JsonReply 200 count, d')"
  shows "jobs d' = map (\<lambda>j. if jstatus j = Running \<and> (\<exists>t. jstarted j = Some t \<and> now - t > 20 * 60 * 1000000)
                           then timed_out now j else j) (jobs d) \<and>
         snapshots d' = snapshots d \<and>
         count = int (length (filter (\<lambda>j. jstatus j = Failed) (jobs d'))) -
                 int (length (filter (\<lambda>j. jstatus j = Failed) (jobs d))) \<and>
         (\<forall>j \<in> set (jobs d'). \<not> overdue now default_timeout_minutes j)"
proof -
  let ?o = "overdue now default_timeout_minutes"
  have eq: "count = int (length (filter ?o (jobs d)))"
       "d' = d\<lparr>jobs := map (\<lambda>j. if ?o j then timed_out now j else j) (jobs d)\<rparr>"
    using assms
    by (auto simp: timeout_handler_eq internal_error_def err_response_def split: option.splits)
  have "length (filter (\<lambda>j. jstatus j = Failed) (map (\<lambda>j. if ?o j then timed_out now j else j) js)) =
          length (filter ?o js) + length (filter (\<lambda>j. jstatus j = Failed) js)" for js
    by (induction js) (auto dest: overdue_running)
  moreover have "\<not> ?o (timed_out now j)" for j by (simp add: overdue_def)
  ultimately show ?thesis
    unfolding eq overdue_minutes [symmetric] by (auto split: if_splits)
qed

theorem watchdog_fails_overdue_jobs_witness:
  "\<exists>d'. timeout_handler None 2000000000 ex_request
          (ex_db [ex_job 3 Running ''a'' 20, ex_job 4 Queued ''b'' 20]) = (JsonReply 200 1, d') \<and>
        map jstatus (jobs d') = [Failed, Queued]"
proof -
  have "timeout_handler None 2000000000 ex_request (ex_db [ex_job 3 Running ''a'' 20, ex_job 4 Queued ''b'' 20]) =
      (JsonReply 200 1, snd (timeout_handler None 2000000000 ex_request
          (ex_db [ex_job 3 Running ''a'' 20, ex_job 4 Queued ''b'' 20])))"
    by (simp add: timeout_handler_def timeout_running_jobs_def overdue_def default_timeout_minutes_def ex_job_def)
  moreover note watchdog_fails_overdue_jobs [OF this]
  ultimately show ?thesis
    by (intro exI [of _ "snd (timeout_handler None 2000000000 ex_request
          (ex_db [ex_job 3 Running ''a'' 20, ex_job 4 Queued ''b'' 20]))"]) (simp add: ex_job_def)
qed

end
