(* ===== verification/Poller.thy ===== *)
theory Poller
  imports Tx Samples
begin

text \<open>
  The polling worker: \<^verbatim>\<open>worker/internal/worker/poller/poller.go\<close>.

  \<open>claim_one\<close> and \<open>poll_batch\<close> are the methods \<open>claimOne\<close> and \<open>pollBatch\<close>; \<open>claim_rest\<close> is what
  \<open>claimOne\<close> does once its first statement has claimed a job.  The state is the
  database, the runner's count of jobs in flight, and the executions handed to the runner so far
  (the three arguments of \<open>Execute\<close>).  \<open>claim_io\<close> holds what the outside decides in one call;
  the context's cancellation is a predicate on the iteration.
\<close>

record poller_state =
  pl_db :: db
  pl_inflight :: int
  pl_dispatched :: "(string \<times> string \<times> string) list"

record claim_io =
  ci_claim :: "string option"
  ci_locked :: "uuid set"
  ci_now :: pgtime
  ci_get_repo :: "string option"
  ci_update :: "string option"
  ci_update_now :: pgtime

datatype poll_error = ErrNoJobs | ClaimFailed pg_error | RepoFailed pg_error

definition claim_one :: "(uuid \<Rightarrow> string) \<Rightarrow> claim_io \<Rightarrow> poller_state \<Rightarrow> poll_error option \<times> poller_state" where
  "claim_one uuid_string io s =
     (case with_fault (ci_claim io) (claim_job (ci_now io) (ci_locked io) (pl_db s)) of
        Inl err \<Rightarrow> if err = NoRows then (Some ErrNoJobs, s) else (Some (ClaimFailed err), s)
      | Inr (job, d1) \<Rightarrow>
          (case with_fault (ci_get_repo io) (get_repo_for_job (jid job) d1) of
             Inl err \<Rightarrow>
               (case with_fault (ci_update io)
                       (Inr (update_job_status (ci_update_now io) (jid job) Failed
                          (Some ''repo not found for job'') d1)) of
                  Inl _ \<Rightarrow> (Some (RepoFailed err), s\<lparr>pl_db := d1\<rparr>)
                | Inr d2 \<Rightarrow> (Some (RepoFailed err), s\<lparr>pl_db := d2\<rparr>))
           | Inr repo \<Rightarrow>
               (None, s\<lparr>pl_db := d1, pl_inflight := pl_inflight s + 1,
                        pl_dispatched := pl_dispatched s @
                          [(uuid_string (jid job), uuid_string (rj_id repo), uuid_string (jrepo job))]\<rparr>)))"

definition claim_rest :: "(uuid \<Rightarrow> string) \<Rightarrow> claim_io \<Rightarrow> job \<Rightarrow> poller_state \<Rightarrow> poll_error option \<times> poller_state" where
  \<comment> \<open>\<open>claimOne\<close> after its first statement; no transaction spans the statements\<close>
  "claim_rest uuid_string io job s =
     (case with_fault (ci_get_repo io) (get_repo_for_job (jid job) (pl_db s)) of
        Inl err \<Rightarrow>
          (case with_fault (ci_update io)
                  (Inr (update_job_status (ci_update_now io) (jid job) Failed
                     (Some ''repo not found for job'') (pl_db s))) of
             Inl _ \<Rightarrow> (Some (RepoFailed err), s)
           | Inr d' \<Rightarrow> (Some (RepoFailed err), s\<lparr>pl_db := d'\<rparr>))
      | Inr repo \<Rightarrow>
          (None, s\<lparr>pl_inflight := pl_inflight s + 1,
                   pl_dispatched := pl_dispatched s @
                     [(uuid_string (jid job), uuid_string (rj_id repo), uuid_string (jrepo job))]\<rparr>))"

lemma claim_one_stages:
  "claim_one us io s =
     (case with_fault (ci_claim io) (claim_job (ci_now io) (ci_locked io) (pl_db s)) of
        Inl err \<Rightarrow> if err = NoRows then (Some ErrNoJobs, s) else (Some (ClaimFailed err), s)
      | Inr (job, d1) \<Rightarrow> claim_rest us io job (s\<lparr>pl_db := d1\<rparr>))"
  by (simp add: claim_one_def claim_rest_def split: sum.split prod.split)

fun poll_loop ::
  "(uuid \<Rightarrow> string) \<Rightarrow> (nat \<Rightarrow> claim_io) \<Rightarrow> (nat \<Rightarrow> bool) \<Rightarrow> nat \<Rightarrow> nat \<Rightarrow> poller_state \<Rightarrow> poller_state" where
  "poll_loop uuid_string ios cancelled i 0 s = s"
| "poll_loop uuid_string ios cancelled i (Suc n) s =
     (if cancelled i then s
      else case claim_one uuid_string (ios i) s of
        (Some _, s') \<Rightarrow> s'
      | (None, s') \<Rightarrow> poll_loop uuid_string ios cancelled (Suc i) n s')"

definition poll_batch ::
  "(uuid \<Rightarrow> string) \<Rightarrow> int \<Rightarrow> (nat \<Rightarrow> claim_io) \<Rightarrow> (nat \<Rightarrow> bool) \<Rightarrow> poller_state \<Rightarrow> poller_state" where
  "poll_batch uuid_string max_concurrency ios cancelled s =
     (let slots = max_concurrency - pl_inflight s
      in poll_loop uuid_string ios cancelled 0 (nat slots) s)"

subsection \<open>One claim\<close>

definition queued_ids :: "db \<Rightarrow> uuid set" where
  "queued_ids d = {jid x | x. x \<in> set (jobs d) \<and> jstatus x = Queued}"

lemma finite_queued_ids [simp]: "finite (queued_ids d)"
proof -
  have "queued_ids d = jid ` {x \<in> set (jobs d). jstatus x = Queued}" by (auto simp: queued_ids_def)
  then show ?thesis by simp
qed

lemma queued_ids_claim:
  "wf_db d \<Longrightarrow> claim_job now locked d = Inr (j, d') \<Longrightarrow> queued_ids d' = queued_ids d - {jid j}"
  unfolding queued_ids_def by (rule store_claims.queued_after_claim)

lemma claimed_was_queued:
  assumes "wf_db d" and "claim_job now locked d = Inr (j, d')"
  shows "jid j \<in> queued_ids d - locked"
proof -
  obtain j0 where "j0 \<in> set (jobs d)" "jid j0 = jid j" "jstatus j0 = Queued" "jid j0 \<notin> locked"
    using store_claims.claim_queued [OF assms] by blast
  then show ?thesis by (auto simp: queued_ids_def intro!: exI [of _ j0])
qed

lemma job_repo_found:
  assumes "wf_db d" and "j \<in> set (jobs d)"
  obtains repo where "get_repo_for_job (jid j) d = Inr repo"
proof -
  obtain r where "r \<in> set (repositories d)" "rid r = jrepo j"
    using assms by (force simp: wf_defs image_subset_iff image_iff)
  with get_repo_for_job_wf [OF assms] that show ?thesis by blast
qed

lemma claimed_in_db:
  assumes "wf_db d" and "claim_job now locked d = Inr (j, d')"
  shows "j \<in> set (jobs d')"
proof -
  obtain j0 where "j0 \<in> set (jobs d)" "jid j0 = jid j"
    using store_claims.claim_queued [OF assms] by blast
  then show ?thesis using store_claims.claim_rows [OF assms] by force
qed

lemma claim_one_cases:
  assumes "wf_db (pl_db s)"
  obtains (none) err where "claim_one us io s = (Some err, s)"
  | (lost) err j d1 d' where "claim_one us io s = (Some err, s\<lparr>pl_db := d'\<rparr>)"
      and "claim_job (ci_now io) (ci_locked io) (pl_db s) = Inr (j, d1)" and "ci_get_repo io \<noteq> None"
      and "d' = d1 \<or> d' = update_job_status (ci_update_now io) (jid j) Failed (Some ''repo not found for job'') d1"
  | (dispatched) j d1 repo where "ci_claim io = None"
      and "claim_job (ci_now io) (ci_locked io) (pl_db s) = Inr (j, d1)"
      and "get_repo_for_job (jid j) d1 = Inr repo"
      and "claim_one us io s = (None, s\<lparr>pl_db := d1, pl_inflight := pl_inflight s + 1,
             pl_dispatched := pl_dispatched s @ [(us (jid j), us (rj_id repo), us (jrepo j))]\<rparr>)"
proof (cases "ci_claim io = None \<and> (\<exists>j d1. claim_job (ci_now io) (ci_locked io) (pl_db s) = Inr (j, d1))")
  case False
  then have "\<exists>err. claim_one us io s = (Some err, s)"
    by (cases "ci_claim io"; cases "claim_job (ci_now io) (ci_locked io) (pl_db s)")
       (auto simp: claim_one_def with_fault_def)
  then show ?thesis using none by blast
next
  case True
  then obtain j d1 where c: "claim_job (ci_now io) (ci_locked io) (pl_db s) = Inr (j, d1)"
    and io: "ci_claim io = None" by blast
  obtain repo where r: "get_repo_for_job (jid j) d1 = Inr repo"
    by (rule job_repo_found [OF wf_claim_job [OF assms c] claimed_in_db [OF assms c]])
  show ?thesis
  proof (cases "ci_get_repo io")
    case None
    then show ?thesis using dispatched [OF io c r] by (simp add: claim_one_def io c r)
  next
    case (Some m)
    then show ?thesis
      using lost [OF _ c] by (cases "ci_update io") (auto simp: claim_one_def io c with_fault_def)
  qed
qed

lemma wf_claim_one:
  assumes "wf_db (pl_db s)"
  shows "wf_db (pl_db (snd (claim_one us io s)))"
  using assms
  by (cases rule: claim_one_cases [OF assms, of us io])
     (auto intro: wf_claim_job wf_update_job_status)

subsection \<open>A batch\<close>

lemma poll_loop_inflight:
  assumes "wf_db (pl_db s)"
  shows "pl_inflight s \<le> pl_inflight (poll_loop us ios c i n s) \<and>
         pl_inflight (poll_loop us ios c i n s) \<le> pl_inflight s + int n"
  using assms
proof (induction n arbitrary: i s)
  case 0
  then show ?case by simp
next
  case (Suc n)
  show ?case
    using Suc.IH [OF wf_claim_one [OF Suc.prems, of us "ios i"], of "Suc i"]
    by (cases rule: claim_one_cases [OF Suc.prems, of us "ios i"]) auto
qed

definition quiet :: "claim_io \<Rightarrow> bool" where
  "quiet io \<longleftrightarrow> ci_claim io = None \<and> ci_get_repo io = None \<and> ci_locked io = {}"

lemma claim_one_quiet:
  assumes "wf_db (pl_db s)" and "quiet io"
  shows "if queued_ids (pl_db s) = {} then claim_one us io s = (Some ErrNoJobs, s)
         else \<exists>(j :: job) d1 (repo :: repo_for_job_row). jid j \<in> queued_ids (pl_db s) \<and> queued_ids d1 = queued_ids (pl_db s) - {jid j} \<and>
            wf_db d1 \<and>
            claim_one us io s = (None, s\<lparr>pl_db := d1, pl_inflight := pl_inflight s + 1,
               pl_dispatched := pl_dispatched s @ [(us (jid j), us (rj_id repo), us (jrepo j))]\<rparr>)"
proof (cases "claim_job (ci_now io) (ci_locked io) (pl_db s)")
  case (Inl e)
  then have "e = NoRows" and "queued_ids (pl_db s) = {}"
    using assms(2) by (auto simp: claim_job_Inl quiet_def queued_ids_def)
  then show ?thesis using Inl assms(2) by (simp add: claim_one_def quiet_def)
next
  case (Inr jd)
  obtain j d1 where jd: "jd = (j, d1)" by (cases jd)
  note c = Inr [unfolded jd]
  note wf1 = wf_claim_job [OF assms(1) c]
  obtain repo where "get_repo_for_job (jid j) d1 = Inr repo"
    by (rule job_repo_found [OF wf1 claimed_in_db [OF assms(1) c]])
  then have eqn: "claim_one us io s = (None, s\<lparr>pl_db := d1, pl_inflight := pl_inflight s + 1,
               pl_dispatched := pl_dispatched s @ [(us (jid j), us (rj_id repo), us (jrepo j))]\<rparr>)"
    using assms(2) c by (simp add: claim_one_def quiet_def)
  have q: "jid j \<in> queued_ids (pl_db s)" using claimed_was_queued [OF assms(1) c] by simp
  then have ne: "queued_ids (pl_db s) \<noteq> {}" by blast
  show ?thesis
    unfolding if_not_P [OF ne]
    using q queued_ids_claim [OF assms(1) c] wf1 eqn
    by (intro exI [of _ j] exI [of _ d1] exI [of _ repo] conjI)
qed

lemma poll_loop_quiet:
  assumes "wf_db (pl_db s)" and "\<And>k. quiet (ios k)"   shows "\<exists>js. distinct js \<and> set js \<subseteq> queued_ids (pl_db s) \<and>
     length js = min n (card (queued_ids (pl_db s))) \<and>
     map fst (pl_dispatched (poll_loop us ios (\<lambda>_. False) i n s)) = map fst (pl_dispatched s) @ map us js \<and>
     queued_ids (pl_db (poll_loop us ios (\<lambda>_. False) i n s)) = queued_ids (pl_db s) - set js"
  using assms(1)
proof (induction n arbitrary: i s)
  case 0
  then show ?case by simp
next
  case (Suc n)
  show ?case
  proof (cases "queued_ids (pl_db s) = {}")
    case True
    then show ?thesis using claim_one_quiet [OF Suc.prems assms(2), of us i] by simp
  next
    case False
    then obtain j :: job and d1 and repo :: repo_for_job_row where j: "jid j \<in> queued_ids (pl_db s)" "queued_ids d1 = queued_ids (pl_db s) - {jid j}"
      and wf1: "wf_db d1"
      and c: "claim_one us (ios i) s = (None, s\<lparr>pl_db := d1, pl_inflight := pl_inflight s + 1,
               pl_dispatched := pl_dispatched s @ [(us (jid j), us (rj_id repo), us (jrepo j))]\<rparr>)" (is "_ = (None, ?s1)")
      using claim_one_quiet [OF Suc.prems assms(2), of us i] unfolding if_not_P [OF False] by (elim exE conjE) (rule that)
    obtain js where js: "distinct js" "set js \<subseteq> queued_ids (pl_db ?s1)"
      "length js = min n (card (queued_ids (pl_db ?s1)))"
      "map fst (pl_dispatched (poll_loop us ios (\<lambda>_. False) (Suc i) n ?s1)) = map fst (pl_dispatched ?s1) @ map us js"
      "queued_ids (pl_db (poll_loop us ios (\<lambda>_. False) (Suc i) n ?s1)) = queued_ids (pl_db ?s1) - set js"
      using Suc.IH [of ?s1 "Suc i"] wf1 by auto
    have "card (queued_ids d1) = card (queued_ids (pl_db s)) - 1" "0 < card (queued_ids (pl_db s))"
      using j by (simp_all add: card_gt_0_iff) auto
    then show ?thesis
      using js j c by (intro exI [of _ "jid j # js"]) auto
  qed
qed

subsection \<open>Properties\<close>

definition ex_poller :: "job list \<Rightarrow> poller_state" where
  "ex_poller js = \<lparr>pl_db = ex_db js, pl_inflight = 1, pl_dispatched = []\<rparr>"

definition ex_claim_io :: claim_io where
  "ex_claim_io = \<lparr>ci_claim = None, ci_locked = {}, ci_now = 900, ci_get_repo = None, ci_update = None,
     ci_update_now = 901\<rparr>"

lemma ex_poller_simps [simp]:
  "pl_db (ex_poller js) = ex_db js" "pl_inflight (ex_poller js) = 1" "pl_dispatched (ex_poller js) = []"
  "quiet ex_claim_io"
  by (simp_all add: ex_poller_def quiet_def ex_claim_io_def)

lemma poll_respects_concurrency:
  assumes "wf_db (pl_db s)"
  shows "pl_inflight s \<le> pl_inflight (poll_batch us maxc ios cancelled s) \<and>
         pl_inflight (poll_batch us maxc ios cancelled s) \<le> max maxc (pl_inflight s)"
  using poll_loop_inflight [OF assms, of us ios cancelled 0 "nat (maxc - pl_inflight s)"]
  by (auto simp: poll_batch_def Let_def max_def split: if_splits)

lemma poll_batch_fills_slots:
  assumes "wf_db (pl_db s)" and "\<And>k. quiet (ios k)"
  shows "\<exists>js. distinct js \<and> set js \<subseteq> queued_ids (pl_db s) \<and>
     length js = min (nat (maxc - pl_inflight s)) (card (queued_ids (pl_db s))) \<and>
     map fst (pl_dispatched (poll_batch us maxc ios (\<lambda>_. False) s)) = map fst (pl_dispatched s) @ map us js \<and>
     queued_ids (pl_db (poll_batch us maxc ios (\<lambda>_. False) s)) = queued_ids (pl_db s) - set js"
  unfolding poll_batch_def Let_def by (rule poll_loop_quiet [OF assms])

end
