(* ===== verification/Lifecycle.thy ===== *)
theory Lifecycle
  imports CallbackProps Watchdog Poller
begin

text \<open>
  The job system as a whole: every operation that changes the database as a step of one relation,
  and what holds of the jobs and snapshots however the steps interleave.

  \<open>db_step d d'\<close>: one \<open>Start\<close> or \<open>Complete\<close> callback, one watchdog sweep, or one claim of a poller;
  \<open>sys_step w w'\<close>: such a step or one webhook push.  Requests, failures of the calls they make, and
  the clock are arbitrary.  Each operation takes effect at once, \<open>claim_one\<close> too, although no transaction
  spans its statements; \<open>Interleave\<close> and \<open>RowLocks\<close> take the operations apart.  \<open>job_le\<close> is the progress order of one job, \<open>evolves\<close> that of the
  whole table.
\<close>

inductive db_step :: "db \<Rightarrow> db \<Rightarrow> bool" where
  start: "start_handler vs uuid_scan gen sio r d = (reply, d') \<Longrightarrow> db_step d d'"
| complete: "complete_validator vstruct \<Longrightarrow>
     complete_handler vstruct uuid_scan cio r d = (reply', d') \<Longrightarrow> db_step d d'"
| sweep: "timeout_handler fault now r d = (reply'', d') \<Longrightarrow> db_step d d'"
| poll: "claim_one us cio' s = (err, s') \<Longrightarrow> db_step (pl_db s) (pl_db s')"

inductive sys_step :: "world \<Rightarrow> world \<Rightarrow> bool" where
  push: "handle_push hmac us sg enq io ev dl w = (res, w') \<Longrightarrow> sys_step w w'"
| other: "db_step (w_db w) d' \<Longrightarrow> sys_step w (w\<lparr>w_db := d'\<rparr>)"

inductive sys_reachable :: "world \<Rightarrow> world \<Rightarrow> bool" for w0 :: world where
  init: "sys_reachable w0 w0"
| step: "sys_reachable w0 w \<Longrightarrow> sys_step w w' \<Longrightarrow> sys_reachable w0 w'"

subsection \<open>Progress of one job\<close>

definition job_le :: "job \<Rightarrow> job \<Rightarrow> bool" where
  "job_le j j' \<longleftrightarrow> jid j' = jid j \<and> jrepo j' = jrepo j \<and> jbranch j' = jbranch j \<and> jdelivery j' = jdelivery j \<and>
     jstatus j \<le> jstatus j' \<and> (jstatus j \<noteq> Queued \<longrightarrow> jcommit j' = jcommit j) \<and>
     (is_terminal (jstatus j) \<longrightarrow> j' = j)"

lemma job_le_refl [simp]: "job_le j j"
  by (simp add: job_le_def)

lemma status_le_Queued [simp]: "s \<le> Queued \<longleftrightarrow> s = (Queued :: job_status)"
  by (auto simp: status_le_iff)

lemma job_le_trans: "job_le a b \<Longrightarrow> job_le b c \<Longrightarrow> job_le a c"
  by (auto simp: job_le_def intro: order_trans)

definition evolves :: "job list \<Rightarrow> job list \<Rightarrow> bool" where
  "evolves js js' \<longleftrightarrow> (\<exists>f new. js' = map f js @ new \<and> (\<forall>j \<in> set js. job_le j (f j)))"

lemma evolves_refl: "evolves js js"
  unfolding evolves_def by (intro exI [of _ id] exI [of _ "[]"]) simp

lemma evolves_trans:
  assumes "evolves a b" and "evolves b c"
  shows "evolves a c"
proof -
  obtain f n where b: "b = map f a @ n" "\<forall>j \<in> set a. job_le j (f j)"
    using assms(1) by (auto simp: evolves_def)
  obtain g m where c: "c = map g b @ m" "\<forall>j \<in> set b. job_le j (g j)"
    using assms(2) by (auto simp: evolves_def)
  show ?thesis
    unfolding evolves_def using b c
    by (intro exI [of _ "g \<circ> f"] exI [of _ "map g n @ m"]) (auto intro: job_le_trans)
qed

lemma evolves_mem:
  "evolves js js' \<Longrightarrow> j \<in> set js \<Longrightarrow> \<exists>j' \<in> set js'. job_le j j'"
  by (auto simp: evolves_def)

subsection \<open>Steps that add no snapshot\<close>

definition settles :: "job \<Rightarrow> job \<Rightarrow> bool" where
  \<comment> \<open>progress that neither queues a job again nor makes it succeed\<close>
  "settles j j' \<longleftrightarrow> job_le j j' \<and> (jstatus j' = Succeeded \<longrightarrow> jstatus j = Succeeded) \<and>
     (jstatus j' = Queued \<longrightarrow> jstatus j = Queued)"

lemma settles_refl [simp]: "settles j j"
  by (simp add: settles_def)

lemma settles_trans: "settles a b \<Longrightarrow> settles b c \<Longrightarrow> settles a c"
  by (auto simp: settles_def intro: job_le_trans)

definition settle_map :: "db \<Rightarrow> db \<Rightarrow> bool" where
  "settle_map d d' \<longleftrightarrow> snapshots d' = snapshots d \<and>
     (\<exists>f. jobs d' = map f (jobs d) \<and> (\<forall>j \<in> set (jobs d). settles j (f j)))"

lemma settle_mapI:
  "snapshots d' = snapshots d \<Longrightarrow> jobs d' = map f (jobs d) \<Longrightarrow>
     (\<And>j. j \<in> set (jobs d) \<Longrightarrow> settles j (f j)) \<Longrightarrow> settle_map d d'"
  unfolding settle_map_def by blast

lemma settle_map_refl: "settle_map d d"
  by (rule settle_mapI [where f = id]) simp_all

lemma settle_map_trans:
  assumes "settle_map a b" and "settle_map b c"
  shows "settle_map a c"
proof -
  obtain f where b: "jobs b = map f (jobs a)" "\<And>j. j \<in> set (jobs a) \<Longrightarrow> settles j (f j)"
    using assms(1) by (auto simp: settle_map_def)
  obtain g where c: "jobs c = map g (jobs b)" "\<And>j. j \<in> set (jobs b) \<Longrightarrow> settles j (g j)"
    using assms(2) by (auto simp: settle_map_def)
  show ?thesis
    by (rule settle_mapI [where f = "g \<circ> f"])
       (use assms b c in \<open>auto simp: settle_map_def intro: settles_trans\<close>)
qed

lemma settle_update_jobs:
  assumes "\<And>j. j \<in> set (jobs d) \<Longrightarrow> P j \<Longrightarrow> settles j (touch now (f j))"
  shows "settle_map d (update_jobs now P f d)"
  by (rule settle_mapI [where f = "\<lambda>j. if P j then touch now (f j) else j"])
     (use assms in \<open>simp_all add: update_jobs_def update_where_def\<close>)

lemma settle_map_evolves: "settle_map d d' \<Longrightarrow> evolves (jobs d) (jobs d')"
  unfolding settle_map_def evolves_def settles_def by (metis append_Nil2)

lemma one_queued_settle:
  assumes "settle_map d d'" and "one_queued d"
  shows "one_queued d'"
proof -
  obtain f where f: "jobs d' = map f (jobs d)" "\<And>j. j \<in> set (jobs d) \<Longrightarrow> settles j (f j)"
    using assms(1) by (auto simp: settle_map_def)
  have "length (filter (queued_on r b) (map f js)) \<le> length (filter (queued_on r b) js)"
    if "\<And>j. j \<in> set js \<Longrightarrow> settles j (f j)" for r b js
    using that
  proof (induction js)
    case (Cons j js)
    have "settles j (f j)" by (rule Cons.prems) simp
    then have q: "queued_on r b (f j) \<Longrightarrow> queued_on r b j"
      by (auto simp: settles_def job_le_def queued_on_def)
    have "length (filter (queued_on r b) (map f js)) \<le> length (filter (queued_on r b) js)"
      by (rule Cons.IH) (rule Cons.prems, simp)
    with q show ?case by (simp add: le_SucI)
  qed simp
  from this [OF f(2)] show ?thesis
    using assms(2) unfolding one_queued_def f(1) by (meson le_trans)
qed

lemma settle_claim:
  assumes "wf_db d" and "claim_job now locked d = Inr (j, d')"
  shows "settle_map d d'"
  using assms(2)
proof (rule claim_job_InrE)
  fix j0
  assume j0: "j0 \<in> set (jobs d)" "jstatus j0 = Queued"
    and d': "d' = d\<lparr>jobs := update_where (\<lambda>x. jid x = jid j0) (claimed now) (jobs d)\<rparr>"
  have "settles x (claimed now x)" if "x \<in> set (jobs d)" "jid x = jid j0" for x
    using wf_job_unique [OF assms(1) that(1) j0(1) that(2)] j0(2)
    by (simp add: settles_def job_le_def)
  then show ?thesis
    by (intro settle_mapI [where f = "\<lambda>x. if jid x = jid j0 then claimed now x else x"])
       (simp_all add: d' update_where_def)
qed

lemma settle_start:
  assumes "start_handler vs uuid_scan gen io r d = (reply, d')" and "wf_db d"
  shows "settle_map d d'"
proof (cases "d' = d")
  case False
  obtain job where job: "job \<in> set (jobs d)" "jstatus job = Queued"
    and d': "d' = d\<lparr>jobs := map (\<lambda>x. if jid x = jid job then started_job io job else x) (jobs d)\<rparr>"
    by (rule start_effect [OF assms False])
  have "settles x (started_job io job)" if "x \<in> set (jobs d)" "jid x = jid job" for x
    using wf_job_unique [OF assms(2) that(1) job(1) that(2)] job(2) by (simp add: settles_def job_le_def)
  then show ?thesis
    by (intro settle_mapI [where f = "\<lambda>x. if jid x = jid job then started_job io job else x"]) (simp_all add: d')
qed (simp add: settle_map_refl)

lemma settle_timeout:
  assumes "timeout_handler fault now r d = (reply, d')"
  shows "settle_map d d'"
proof (cases fault)
  case None
  have "settles j (timed_out now j)" if "overdue now default_timeout_minutes j" for j
    using overdue_running [OF that] by (simp add: settles_def job_le_def timed_out_def)
  then show ?thesis
    using assms None
    by (intro settle_mapI [where f = "\<lambda>j. if overdue now default_timeout_minutes j then timed_out now j else j"])
       (auto simp: timeout_handler_eq)
qed (use assms in \<open>simp add: timeout_handler_eq settle_map_refl\<close>)

lemma settle_fail_running:
  assumes "wf_db d" and "j \<in> set (jobs d)" and "jstatus j = Running"
  shows "settle_map d (update_job_status now (jid j) Failed msg d)"
  unfolding update_job_status_def
proof (rule settle_update_jobs)
  fix x assume "x \<in> set (jobs d)" "jid x = jid j"
  then have "x = j" using wf_job_unique [OF assms(1) _ assms(2)] by simp
  then show "settles x (touch now (x\<lparr>jstatus := Failed, jerror := msg,
      jstarted := if Failed = Running then Some now else jstarted x,
      jfinished := if Failed = Succeeded \<or> Failed = Failed \<or> Failed = Cancelled \<or> Failed = Superseded
                   then Some now else jfinished x\<rparr>))"
    using assms(3) by (simp add: settles_def job_le_def)
qed

lemma settle_poll:
  assumes "claim_one us io s = (err, s')" and "wf_db (pl_db s)"
  shows "settle_map (pl_db s) (pl_db s')"
  using assms(2)
proof (cases rule: claim_one_cases [where us = us and io = io])
  case none
  then show ?thesis using assms(1) by (simp add: settle_map_refl)
next
  case (lost err' j d1 d')
  note c = settle_claim [OF assms(2) lost(2)]
  have "settle_map d1 (update_job_status (ci_update_now io) (jid j) Failed (Some ''repo not found for job'') d1)"
    by (rule settle_fail_running [OF wf_claim_job [OF assms(2) lost(2)] claimed_in_db [OF assms(2) lost(2)]])
       (rule store_claims.claim_running [OF assms(2) lost(2)])
  then show ?thesis using settle_map_trans [OF c] c lost(1,4) assms(1) by auto
next
  case (dispatched j d1 repo)
  then show ?thesis using settle_claim [OF assms(2) dispatched(2)] assms(1) by simp
qed

subsection \<open>Every step\<close>

lemma settle_commit_sha: "settle_map d (update_job_commit_sha now i c d)"
  unfolding update_job_commit_sha_def
  by (rule settle_update_jobs) (simp add: settles_def job_le_def)

lemma create_effect:
  "create_job now i r b c dl d = Inr (j, d') \<Longrightarrow>
     jobs d' = jobs d @ [j] \<and> snapshots d' = snapshots d \<and> jstatus j = Queued"
  by (simp add: create_job_Inr)

lemma db_step_effect:
  assumes "db_step d d'" and "wf_db d"
  obtains (settled) "settle_map d d'"
  | (succeeded) cio req job s where "job \<in> set (jobs d)" and "\<not> is_terminal (jstatus job)"
      and "jobs d' = map (\<lambda>x. if jid x = jid job then completed_job cio req Succeeded job else x) (jobs d)"
      and "snapshots d' = snapshots d @ [s]" and "sjob s = jid job" and "srepo s = jrepo job"
      and "sbranch s = jbranch job" and "scommit s = jcommit job" and "sgcs_path s \<noteq> []"
  using assms(1)
proof (cases rule: db_step.cases)
  case start
  then show ?thesis using settled settle_start [OF start assms(2)] by simp
next
  case (complete vstruct uuid_scan cio r reply')
  show ?thesis
  proof (cases "d' = d")
    case False
    show ?thesis
    proof (rule complete_effect [OF complete(2) assms(2) complete(1) False])
      fix req job s
      assume "job \<in> set (jobs d)" "\<not> is_terminal (jstatus job)"
        "jobs d' = map (\<lambda>x. if jid x = jid job then completed_job cio req Succeeded job else x) (jobs d)"
        "snapshots d' = snapshots d @ [s]" "sjob s = jid job" "srepo s = jrepo job"
        "sbranch s = jbranch job" "scommit s = jcommit job" "sgcs_path s \<noteq> []"
      then show ?thesis using succeeded [of job cio req s] by simp
    next
      fix req job
      assume job: "job \<in> set (jobs d)" "\<not> is_terminal (jstatus job)"
        and d': "jobs d' = map (\<lambda>x. if jid x = jid job then completed_job cio req Failed job else x) (jobs d)"
          "snapshots d' = snapshots d"
      have "settles x (completed_job cio req Failed job)" if "x \<in> set (jobs d)" "jid x = jid job" for x
        using wf_job_unique [OF assms(2) that(1) job(1) that(2)] job(2)
        by (auto simp: settles_def job_le_def not_terminal_iff)
      then have "settle_map d d'"
        by (intro settle_mapI [where f = "\<lambda>x. if jid x = jid job then completed_job cio req Failed job else x"])
           (simp_all add: d')
      then show ?thesis by (rule settled)
    qed
  qed (use settled in \<open>simp add: settle_map_refl\<close>)
next
  case sweep
  then show ?thesis using settled settle_timeout by blast
next
  case (poll us cio' s err s')
  then show ?thesis using settled settle_poll [OF poll(3)] assms(2) by simp
qed

lemma step_effect:
  assumes "sys_step w w'" and "wf_db (w_db w)"
  obtains (settled) "settle_map (w_db w) (w_db w')"
  | (created) j where "jobs (w_db w') = jobs (w_db w) @ [j]" and "snapshots (w_db w') = snapshots (w_db w)"
      and "jstatus j = Queued"
  | (other) "db_step (w_db w) (w_db w')"
  using assms(1)
proof (cases rule: sys_step.cases)
  case (push hmac us sg enq io ev dl res)
  from push(1) show ?thesis
  proof (cases rule: handle_push_outcomes)
    case unchanged
    then show ?thesis using settled by (simp add: settle_map_refl)
  next
    case updated
    then show ?thesis using settled by (simp add: settle_commit_sha)
  next
    case created
    then show ?thesis using that(2) create_effect [OF created(4)] by simp
  next
    case created_lost
    then show ?thesis using that(2) create_effect [OF created_lost(4)] by simp
  qed
next
  case (other d')
  then show ?thesis using that(3) by simp
qed

definition snapshots_match :: "db \<Rightarrow> bool" where
  \<comment> \<open>the succeeded jobs are exactly the jobs with a snapshot, and the snapshot describes its job\<close>
  "snapshots_match d \<longleftrightarrow>
     (\<forall>j \<in> set (jobs d). jstatus j = Succeeded \<longrightarrow> (\<exists>s \<in> set (snapshots d). sjob s = jid j)) \<and>
     (\<forall>s \<in> set (snapshots d). \<exists>j \<in> set (jobs d). jid j = sjob s \<and> jstatus j = Succeeded \<and>
        jrepo j = srepo s \<and> jbranch j = sbranch s \<and> jcommit j = scommit s)"

lemma settles_succeeded: "settles j j' \<Longrightarrow> jstatus j = Succeeded \<Longrightarrow> j' = j"
  by (auto simp: settles_def job_le_def)

lemma snapshots_match_settle:
  assumes "settle_map d d'" and "snapshots_match d"
  shows "snapshots_match d'"
proof -
  obtain f where f: "jobs d' = map f (jobs d)" "snapshots d' = snapshots d"
      "\<And>j. j \<in> set (jobs d) \<Longrightarrow> settles j (f j)"
    using assms(1) by (auto simp: settle_map_def)
  have same: "f j = j" if "j \<in> set (jobs d)" "jstatus j = Succeeded" for j
    using settles_succeeded [OF f(3) that(2)] that(1) by simp
  have was: "jstatus j = Succeeded" if "j \<in> set (jobs d)" "jstatus (f j) = Succeeded" for j
    using f(3) [OF that(1)] that(2) by (simp add: settles_def)
  show ?thesis
    unfolding snapshots_match_def f
  proof (intro conjI ballI impI)
    fix j assume "j \<in> set (map f (jobs d))" "jstatus j = Succeeded"
    then obtain j0 where "j0 \<in> set (jobs d)" "j = f j0" "jstatus j0 = Succeeded" using was by auto
    then show "\<exists>s \<in> set (snapshots d). sjob s = jid j"
      using same [of j0] assms(2) by (simp add: snapshots_match_def)
  next
    fix s assume "s \<in> set (snapshots d)"
    then obtain j where "j \<in> set (jobs d)" "jid j = sjob s \<and> jstatus j = Succeeded \<and>
        jrepo j = srepo s \<and> jbranch j = sbranch s \<and> jcommit j = scommit s"
      using assms(2) by (auto simp: snapshots_match_def)
    then show "\<exists>j \<in> set (map f (jobs d)). jid j = sjob s \<and> jstatus j = Succeeded \<and>
        jrepo j = srepo s \<and> jbranch j = sbranch s \<and> jcommit j = scommit s"
      using same [of j] by (intro bexI [of _ j]) force+
  qed
qed

lemma snapshots_match_succeeded:
  assumes "snapshots_match d" and "wf_db d" and "job \<in> set (jobs d)" and "\<not> is_terminal (jstatus job)"
    and "jobs d' = map (\<lambda>x. if jid x = jid job then completed_job cio req Succeeded job else x) (jobs d)"
    and "snapshots d' = snapshots d @ [s]" and "sjob s = jid job" "srepo s = jrepo job"
        "sbranch s = jbranch job" "scommit s = jcommit job"
  shows "snapshots_match d'"
  unfolding snapshots_match_def
proof (intro conjI ballI impI)
  fix j assume "j \<in> set (jobs d')" "jstatus j = Succeeded"
  then show "\<exists>s \<in> set (snapshots d'). sjob s = jid j"
    using assms(1,5-7) by (auto simp: snapshots_match_def split: if_splits)
next
  have new: "completed_job cio req Succeeded job \<in> set (jobs d')"
    using assms(3,5) by auto
  fix t assume "t \<in> set (snapshots d')"
  then consider "t = s" | "t \<in> set (snapshots d)" using assms(6) by auto
  then show "\<exists>j \<in> set (jobs d'). jid j = sjob t \<and> jstatus j = Succeeded \<and>
        jrepo j = srepo t \<and> jbranch j = sbranch t \<and> jcommit j = scommit t"
  proof cases
    case 1
    then show ?thesis using new assms(7-10) by (intro bexI [of _ "completed_job cio req Succeeded job"]) simp_all
  next
    case 2
    then obtain j where j: "j \<in> set (jobs d)" "jid j = sjob t" "jstatus j = Succeeded"
        "jrepo j = srepo t" "jbranch j = sbranch t" "jcommit j = scommit t"
      using assms(1) by (auto simp: snapshots_match_def)
    then have "jid j \<noteq> jid job" using wf_job_unique [OF assms(2) j(1) assms(3)] assms(4) by auto
    then have "j \<in> set (jobs d')" using j(1) assms(5) by force
    then show ?thesis using j by blast
  qed
qed

lemma wf_poll: "claim_one us io s = (err, s') \<Longrightarrow> wf_db (pl_db s) \<Longrightarrow> wf_db (pl_db s')"
  using wf_claim_one [of s us io] by simp

lemma wf_db_step: "db_step d d' \<Longrightarrow> wf_db d \<Longrightarrow> wf_db d'"
  by (erule db_step.cases)
     (auto intro: wf_start_handler wf_complete_handler wf_timeout_handler wf_poll)

lemma wf_step:
  assumes "sys_step w w'" and "wf_db (w_db w)" and "one_queued (w_db w)"
  shows "wf_db (w_db w')"
  using assms(1)
proof (cases rule: sys_step.cases)
  case push
  then show ?thesis using handle_push_keeps [OF push(1) assms(2,3)] by simp
next
  case other
  then show ?thesis using wf_db_step [OF other(2) assms(2)] by simp
qed

lemma one_queued_succeeded:
  assumes "one_queued d" and "job \<in> set (jobs d)"
    and "jobs d' = map (\<lambda>x. if jid x = jid job then completed_job cio req Succeeded job else x) (jobs d)"
  shows "one_queued d'"
  unfolding one_queued_def
proof (intro allI)
  fix r b
  have "length (filter (queued_on r b)
          (map (\<lambda>x. if jid x = jid job then completed_job cio req Succeeded job else x) js))
        \<le> length (filter (queued_on r b) js)" for js
    by (induction js) (simp_all add: queued_on_def le_SucI)
  then show "length (filter (queued_on r b) (jobs d')) \<le> 1"
    using assms(1) unfolding assms(3) one_queued_def by (meson le_trans)
qed

lemma one_queued_db_step:
  assumes "db_step d d'" and "wf_db d" and "one_queued d"
  shows "one_queued d'"
  by (rule db_step_effect [OF assms(1,2)])
     (use one_queued_settle one_queued_succeeded assms(3) in blast)+

lemma one_queued_step:
  assumes "sys_step w w'" and "wf_db (w_db w)" and "one_queued (w_db w)"
  shows "one_queued (w_db w')"
  using assms(1)
proof (cases rule: sys_step.cases)
  case push
  then show ?thesis using handle_push_keeps [OF push(1) assms(2,3)] by simp
next
  case other
  then show ?thesis using one_queued_db_step [OF other(2) assms(2,3)] by simp
qed

lemma snapshots_match_db_step:
  assumes "db_step d d'" and "wf_db d" and "snapshots_match d"
  shows "snapshots_match d'"
proof (rule db_step_effect [OF assms(1,2)])
  show ?thesis if "settle_map d d'" using snapshots_match_settle that assms(3) by blast
qed (rule snapshots_match_succeeded [OF assms(3,2)])

lemma snapshots_match_step:
  assumes "sys_step w w'" and "wf_db (w_db w)" and "snapshots_match (w_db w)"
  shows "snapshots_match (w_db w')"
proof (cases rule: step_effect [OF assms(1,2)])
  case 1
  then show ?thesis using snapshots_match_settle assms(3) by blast
next
  case (2 j)
  then show ?thesis using assms(3) by (auto simp: snapshots_match_def)
next
  case 3
  then show ?thesis using snapshots_match_db_step assms(2,3) by blast
qed

lemma evolves_db_step:
  assumes "db_step d d'" and "wf_db d"
  shows "evolves (jobs d) (jobs d')"
proof (rule db_step_effect [OF assms])
  show ?thesis if "settle_map d d'" using that by (rule settle_map_evolves)
next
  fix cio :: complete_io and req job and s :: snapshot
  assume job: "job \<in> set (jobs d)" "\<not> is_terminal (jstatus job)"
    and d': "jobs d' = map (\<lambda>x. if jid x = jid job then completed_job cio req Succeeded job else x) (jobs d)"
  have "job_le x (completed_job cio req Succeeded job)" if "x \<in> set (jobs d)" "jid x = jid job" for x
    using wf_job_unique [OF assms(2) that(1) job(1) that(2)] job(2)
    by (auto simp: job_le_def completed_job_def not_terminal_iff)
  then show ?thesis
    unfolding evolves_def d'
    by (intro exI [of _ "\<lambda>x. if jid x = jid job then completed_job cio req Succeeded job else x"] exI [of _ "[]"]) simp
qed

lemma evolves_step:
  assumes "sys_step w w'" and "wf_db (w_db w)"
  shows "evolves (jobs (w_db w)) (jobs (w_db w'))"
proof (cases rule: step_effect [OF assms])
  case 1
  then show ?thesis by (rule settle_map_evolves)
next
  case (2 j)
  then show ?thesis unfolding evolves_def by (intro exI [of _ id] exI [of _ "[j]"]) simp
next
  case 3
  then show ?thesis using evolves_db_step assms(2) by blast
qed

definition sys_inv :: "db \<Rightarrow> bool" where
  "sys_inv d \<longleftrightarrow> wf_db d \<and> one_queued d \<and> snapshots_match d"

definition base_inv :: "db \<Rightarrow> bool" where
  \<comment> \<open>the part of the invariant that no step breaks, not even the late failure of a claim (\<open>RowLocks\<close>)\<close>
  "base_inv d \<longleftrightarrow> wf_db d \<and> one_queued d"

lemma sys_inv_base: "sys_inv d \<longleftrightarrow> base_inv d \<and> snapshots_match d"
  by (simp add: sys_inv_def base_inv_def)

lemma base_inv_db_step: "db_step d d' \<Longrightarrow> base_inv d \<Longrightarrow> base_inv d'"
  by (simp add: base_inv_def wf_db_step one_queued_db_step)

lemma sys_inv_db_step: "db_step d d' \<Longrightarrow> sys_inv d \<Longrightarrow> sys_inv d'"
  by (simp add: sys_inv_def wf_db_step one_queued_db_step snapshots_match_db_step)

lemma sys_inv_step: "sys_step w w' \<Longrightarrow> sys_inv (w_db w) \<Longrightarrow> sys_inv (w_db w')"
  by (simp add: sys_inv_def wf_step one_queued_step snapshots_match_step)

lemma sys_inv_reachable:
  "sys_reachable w0 w \<Longrightarrow> sys_inv (w_db w0) \<Longrightarrow> sys_inv (w_db w) \<and> evolves (jobs (w_db w0)) (jobs (w_db w))"
proof (induction rule: sys_reachable.induct)
  case init
  then show ?case by (simp add: evolves_refl)
next
  case (step w w')
  then show ?case
    using wf_step [OF step(2)] one_queued_step [OF step(2)] snapshots_match_step [OF step(2)]
      evolves_trans [OF _ evolves_step [OF step(2)]] by (auto simp: sys_inv_def)
qed

subsection \<open>Properties\<close>

lemma sys_inv_ex_queued [simp]: "sys_inv (ex_db [ex_job 3 Queued c t])"
  by (simp add: sys_inv_def snapshots_match_def)

lemma ex_reachable: "sys_reachable (ex_world js) ((ex_world js)\<lparr>w_db := snd (timeout_handler None 5 ex_request (ex_db js))\<rparr>)"
  by (rule sys_reachable.step [OF sys_reachable.init], rule sys_step.other,
      rule db_step.sweep [where reply'' = "fst (timeout_handler None 5 ex_request (ex_db js))"]) simp

lemma system_invariant:
  assumes "sys_reachable w0 w" and "sys_inv (w_db w0)"
  shows "wf_db (w_db w) \<and> one_queued (w_db w) \<and> snapshots_match (w_db w)"
  using sys_inv_reachable [OF assms] by (simp add: sys_inv_def)


fun sweeps :: "(pgtime \<times> request) list \<Rightarrow> db \<Rightarrow> db" where
  "sweeps [] d = d"
| "sweeps ((now, r) # rest) d = sweeps rest (snd (timeout_handler None now r d))"

lemma sweeps_keep_queued:
  "j \<in> set (jobs d) \<Longrightarrow> jstatus j = Queued \<Longrightarrow> j \<in> set (jobs (sweeps rs d))"
proof (induction rs d rule: sweeps.induct)
  case (2 now r rest d)
  have "\<not> overdue now default_timeout_minutes j" using 2(3) by (simp add: overdue_def)
  then have "j \<in> set (jobs (snd (timeout_handler None now r d)))"
    using 2(2) by (force simp: timeout_handler_eq)
  with 2 show ?case by simp
qed simp

text \<open>
  C35: A lost task is not recovered: when \<open>HandlePush\<close> creates a job and its task cannot be enqueued, the
  push still succeeds, no task was added, and any number of watchdog sweeps leave the job queued, as
  they only look at running jobs.  The comment at the call says the watchdog will catch it.
\<close>

theorem lost_task_not_recovered:
  assumes "no_push_faults io" and "pio_enqueue io = Some fault"
    and "get_repo_by_github_id (ev_repo_id ev) (w_db w) = Inr repo"
    and "pending (w_db w) (rid repo, ev_branch ev) = None" and "new_job_ok io dl (w_db w)"
    and "handle_push hmac us sg (CloudTasksEnqueuer cfg) io ev dl w = (res, w')"
  shows "res = None \<and> w_queue w' = w_queue w \<and>
     (\<exists>j \<in> set (jobs (sweeps rs (w_db w'))). jid j = pio_new_id io \<and> jstatus j = Queued)"
proof (rule handle_push_pending_None [OF assms(1,3,4,5), of hmac us sg "CloudTasksEnqueuer cfg"])
  fix j d'
  assume h: "handle_push hmac us sg (CloudTasksEnqueuer cfg) io ev dl w =
       (None, w\<lparr>w_db := d', w_queue := snd (enqueue (CloudTasksEnqueuer cfg) (pio_enqueue io) (us (pio_new_id io))
          (signer_sign hmac sg (pio_clock io) (us (pio_new_id io))) (w_queue w))\<rparr>)"
    and c: "create_job (pio_now io) (pio_new_id io) (rid repo) (ev_branch ev) (ev_commit ev) dl (w_db w) = Inr (j, d')"
  have j: "j \<in> set (jobs d')" "jid j = pio_new_id io" "jstatus j = Queued"
    using c by (auto simp: create_job_Inr)
  show ?thesis
    using h assms(2,6) sweeps_keep_queued [OF j(1,3), of rs] j(2,3) by (auto simp: enqueue_defs)
qed

theorem lost_task_not_recovered_witness:
  "\<exists>w'. handle_push ex_hmac ex_uuid ex_signer (CloudTasksEnqueuer ex_cfg)
           ((ex_io 9 100)\<lparr>pio_enqueue := Some ''unavailable''\<rparr>) (ex_event ''b'') ''d'' (ex_world []) = (None, w') \<and>
        w_queue w' = [] \<and>
        (\<exists>j \<in> set (jobs (sweeps [(10 ^ 15, ex_request)] (w_db w'))). jid j = 9 \<and> jstatus j = Queued)"
proof -
  let ?io = "(ex_io 9 100)\<lparr>pio_enqueue := Some ''unavailable''\<rparr>"
  let ?h = "handle_push ex_hmac ex_uuid ex_signer (CloudTasksEnqueuer ex_cfg) ?io (ex_event ''b'') ''d'' (ex_world [])"
  have "fst ?h = None \<and> w_queue (snd ?h) = w_queue (ex_world []) \<and>
     (\<exists>j \<in> set (jobs (sweeps [(10 ^ 15, ex_request)] (w_db (snd ?h)))). jid j = pio_new_id ?io \<and> jstatus j = Queued)"
    by (rule lost_task_not_recovered [where fault = "''unavailable''" and repo = ex_repo])
       (simp_all add: no_push_faults_def ex_io_def new_job_ok_def)
  then show ?thesis by (intro exI [of _ "snd ?h"]) (simp add: prod_eq_iff)
qed

end
