(* ===== verification/Interleave.thy ===== *)
theory Interleave
  imports Lifecycle
begin

text \<open>
  Pushes statement by statement: \<open>HandlePush\<close> (\<^verbatim>\<open>api/internal/service/job.go\<close>) runs at READ COMMITTED, so
  each of its statements sees what other transactions have committed meanwhile.

  \<open>push_lookup\<close>, \<open>push_read\<close> and \<open>push_write\<close> are the statements of \<open>HandlePush\<close> before the advisory
  lock, after it up to the choice of the queued job, and from the write to the commit and the task;
  \<open>handle_push_stages\<close> says that they compose to \<open>handle_push\<close>.  \<open>conc_step\<close> interleaves the stages of
  any number of pushes (\<open>push_step\<close>, in which a job may also be locked by another transaction) with
  callbacks, sweeps and claims.  The advisory lock is the only exclusion; its
  key is a function of the repository and the branch about which nothing else is assumed (PostgreSQL's
  \<open>hashtext\<close> may collide).
\<close>

type_synonym push_call = "push_io \<times> webhook_event \<times> string"

definition push_lookup :: "push_io \<Rightarrow> webhook_event \<Rightarrow> db \<Rightarrow> push_error option + repository" where
  \<comment> \<open>\<open>Inl\<close>: the call returns this error, or nil for a repository that is not registered\<close>
  "push_lookup io event d =
     (case pio_begin io of Some m \<Rightarrow> Inl (Some (BeginTx m)) | None \<Rightarrow>
      (case with_fault (pio_get_repo io) (get_repo_by_github_id (ev_repo_id event) d) of
         Inl err \<Rightarrow> if err = NoRows then Inl None else Inl (Some (GetRepo err))
       | Inr repo \<Rightarrow> Inr repo))"

definition push_read :: "push_io \<Rightarrow> webhook_event \<Rightarrow> repository \<Rightarrow> db \<Rightarrow> push_error + job option" where
  "push_read io event repo d =
     (case with_fault (pio_active io) (Inr (get_active_jobs_for_branch (rid repo) (ev_branch event) d)) of
        Inl err \<Rightarrow> Inl (GetActiveJobs err)
      | Inr active \<Rightarrow> Inr (List.find (\<lambda>j. jstatus j = Queued) active))"

definition push_write ::
  "(string \<Rightarrow> string \<Rightarrow> string) \<Rightarrow> (uuid \<Rightarrow> string) \<Rightarrow> signer \<Rightarrow> enqueuer \<Rightarrow> push_call
     \<Rightarrow> repository \<Rightarrow> job option \<Rightarrow> world \<Rightarrow> push_error option \<times> world" where
  "push_write hmac uuid_string signer enq call repo found w =
     (let (io, event, delivery_id) = call; d = w_db w; now = pio_now io in
      case found of
        Some j \<Rightarrow>
          (case with_fault (pio_update io) (Inr (update_job_commit_sha now (jid j) (ev_commit event) d)) of
             Inl err \<Rightarrow> (Some (UpdateCommitSha err), w)
           | Inr d' \<Rightarrow>
               (case commit_tx (pio_commit io) d d' of
                  (Some m, d'') \<Rightarrow> (Some (CommitTx m), w\<lparr>w_db := d''\<rparr>)
                | (None, d'') \<Rightarrow> (None, w\<lparr>w_db := d''\<rparr>)))
      | None \<Rightarrow>
          (case with_fault (pio_create io)
                  (create_job now (pio_new_id io) (rid repo) (ev_branch event) (ev_commit event)
                     delivery_id d) of
             Inl err \<Rightarrow>
               if is_code err unique_violation then (None, w)
               else (Some (CreateJobFailed err), w)
           | Inr (job, d') \<Rightarrow>
               (case commit_tx (pio_commit io) d d' of
                  (Some m, d'') \<Rightarrow> (Some (CommitTx m), w\<lparr>w_db := d''\<rparr>)
                | (None, d'') \<Rightarrow>
                    let job_id = uuid_string (jid job);
                        token = signer_sign hmac signer (pio_clock io) job_id;
                        q = snd (enqueue enq (pio_enqueue io) job_id token (w_queue w))
                    in (None, w\<lparr>w_db := d'', w_queue := q\<rparr>))))"

lemma handle_push_stages:
  "handle_push hmac us sg enq io ev dl w =
     (case push_lookup io ev (w_db w) of Inl res \<Rightarrow> (res, w) | Inr repo \<Rightarrow>
     (case pio_lock io of Some m \<Rightarrow> (Some (AcquireLock m), w) | None \<Rightarrow>
     (case push_read io ev repo (w_db w) of Inl err \<Rightarrow> (Some err, w) | Inr found \<Rightarrow>
        push_write hmac us sg enq (io, ev, dl) repo found w)))"
  by (simp add: handle_push_def push_lookup_def push_read_def push_write_def Let_def
      split: option.split sum.split)

subsection \<open>Interleaving the stages\<close>

datatype push_pc =
    Looked repository
  | Locked repository
  | Decided repository "job option"

record conc =
  c_world :: world
  c_pushes :: "nat \<Rightarrow> (push_call \<times> push_pc) option"

fun lock_held :: "(uuid \<Rightarrow> string \<Rightarrow> 'k) \<Rightarrow> (push_call \<times> push_pc) option \<Rightarrow> 'k option" where
  "lock_held key (Some ((io, ev, dl), Locked repo)) = Some (key (rid repo) (ev_branch ev))"
| "lock_held key (Some ((io, ev, dl), Decided repo found)) = Some (key (rid repo) (ev_branch ev))"
| "lock_held key _ = None"

inductive push_step ::
  "(uuid \<Rightarrow> bool) \<Rightarrow> (uuid \<Rightarrow> string \<Rightarrow> 'k) \<Rightarrow> (string \<Rightarrow> string \<Rightarrow> string) \<Rightarrow> (uuid \<Rightarrow> string) \<Rightarrow> signer
     \<Rightarrow> enqueuer \<Rightarrow> conc \<Rightarrow> conc \<Rightarrow> bool"
  \<comment> \<open>\<open>locked\<close>: the job rows that other transactions hold; an UPDATE of such a row waits\<close>
  for locked key hmac us sg enq where
  look: "c_pushes c i = None \<Longrightarrow> push_lookup io ev (w_db (c_world c)) = Inr repo \<Longrightarrow>
     push_step locked key hmac us sg enq c (c\<lparr>c_pushes := (c_pushes c)(i \<mapsto> ((io, ev, dl), Looked repo))\<rparr>)"
| lock: "c_pushes c i = Some ((io, ev, dl), Looked repo) \<Longrightarrow> pio_lock io = None \<Longrightarrow>
     (\<And>k. lock_held key (c_pushes c k) \<noteq> Some (key (rid repo) (ev_branch ev))) \<Longrightarrow>
     push_step locked key hmac us sg enq c (c\<lparr>c_pushes := (c_pushes c)(i \<mapsto> ((io, ev, dl), Locked repo))\<rparr>)"
| lock_failed: "c_pushes c i = Some ((io, ev, dl), Looked repo) \<Longrightarrow> pio_lock io \<noteq> None \<Longrightarrow>
     push_step locked key hmac us sg enq c (c\<lparr>c_pushes := (c_pushes c)(i := None)\<rparr>)"
| read: "c_pushes c i = Some ((io, ev, dl), Locked repo) \<Longrightarrow>
     push_read io ev repo (w_db (c_world c)) = Inr found \<Longrightarrow>
     push_step locked key hmac us sg enq c (c\<lparr>c_pushes := (c_pushes c)(i \<mapsto> ((io, ev, dl), Decided repo found))\<rparr>)"
| read_failed: "c_pushes c i = Some ((io, ev, dl), Locked repo) \<Longrightarrow>
     push_read io ev repo (w_db (c_world c)) = Inl err \<Longrightarrow>
     push_step locked key hmac us sg enq c (c\<lparr>c_pushes := (c_pushes c)(i := None)\<rparr>)"
| act: "c_pushes c i = Some (call, Decided repo found) \<Longrightarrow>
     (\<And>j. found = Some j \<Longrightarrow> \<not> locked (jid j)) \<Longrightarrow>
     push_write hmac us sg enq call repo found (c_world c) = (res, w') \<Longrightarrow>
     push_step locked key hmac us sg enq c (c\<lparr>c_world := w', c_pushes := (c_pushes c)(i := None)\<rparr>)"

inductive conc_step ::
  "(uuid \<Rightarrow> string \<Rightarrow> 'k) \<Rightarrow> (string \<Rightarrow> string \<Rightarrow> string) \<Rightarrow> (uuid \<Rightarrow> string) \<Rightarrow> signer \<Rightarrow> enqueuer
     \<Rightarrow> conc \<Rightarrow> conc \<Rightarrow> bool"
  for key hmac us sg enq where
  other: "db_step (w_db (c_world c)) d' \<Longrightarrow>
     conc_step key hmac us sg enq c (c\<lparr>c_world := (c_world c)\<lparr>w_db := d'\<rparr>\<rparr>)"
| pushing: "push_step (\<lambda>_. False) key hmac us sg enq c c' \<Longrightarrow> conc_step key hmac us sg enq c c'"

lemma push_step_unlocked:
  "push_step locked key hmac us sg enq c c' \<Longrightarrow> push_step (\<lambda>_. False) key hmac us sg enq c c'"
  by (cases rule: push_step.cases) (auto intro: push_step.intros)

inductive conc_reachable ::
  "(uuid \<Rightarrow> string \<Rightarrow> 'k) \<Rightarrow> (string \<Rightarrow> string \<Rightarrow> string) \<Rightarrow> (uuid \<Rightarrow> string) \<Rightarrow> signer \<Rightarrow> enqueuer
     \<Rightarrow> world \<Rightarrow> conc \<Rightarrow> bool"
  for key hmac us sg enq w0 where
  init: "conc_reachable key hmac us sg enq w0 \<lparr>c_world = w0, c_pushes = (\<lambda>_. None)\<rparr>"
| step: "conc_reachable key hmac us sg enq w0 c \<Longrightarrow> conc_step key hmac us sg enq c c' \<Longrightarrow>
     conc_reachable key hmac us sg enq w0 c'"

subsection \<open>What the steps leave alone\<close>

lemma repositories_update_job_status [simp]:
  "repositories (update_job_status now i st msg d) = repositories d"
  "repositories (update_job_commit_sha now i c d) = repositories d"
  by (simp_all add: update_job_status_def update_job_commit_sha_def update_jobs_def)

lemma repositories_claim_job: "claim_job now locked d = Inr (j, d') \<Longrightarrow> repositories d' = repositories d"
  by (erule claim_job_InrE) simp

lemma repositories_complete_handler:
  assumes "complete_handler vstruct uuid_scan io r d = (reply, d')"
  shows "repositories d' = repositories d"
  using complete_handler_cases [of vstruct uuid_scan io r d]
proof cases
  case (locked req job)
  show ?thesis using complete_locked_cases [of job io req d]
  proof cases
    case (completed status d2 reply')
    have "repositories d2 = repositories d"
      using completed(3) by (auto simp: complete_insert_def insert_snapshot_Inr complete_update_def split: if_splits)
    then show ?thesis using assms locked(6) completed(4) by simp
  qed (use assms locked(6) in simp_all)
qed (use assms in simp)

lemma repositories_db_step:
  assumes "db_step d d'" and "wf_db d"
  shows "repositories d' = repositories d"
  using assms(1)
proof (cases rule: db_step.cases)
  case start
  show ?thesis
  proof (cases "d' = d")
    case False
    show ?thesis by (rule start_effect [OF start assms(2) False]) simp
  qed simp
next
  case complete
  then show ?thesis using repositories_complete_handler by blast
next
  case (sweep fault now r reply'')
  then show ?thesis by (cases fault) (auto simp: timeout_handler_eq)
next
  case (poll us cio' s err s')
  have "wf_db (pl_db s)" using assms(2) poll(1) by simp
  then have "repositories (pl_db (snd (claim_one us cio' s))) = repositories (pl_db s)"
    by (cases rule: claim_one_cases [where us = us and io = cio']) (auto simp: repositories_claim_job)
  with poll show ?thesis by simp
qed

definition no_new_queued :: "uuid \<Rightarrow> string \<Rightarrow> db \<Rightarrow> db \<Rightarrow> bool" where
  "no_new_queued r b d d' \<longleftrightarrow>
     (\<forall>x' \<in> set (jobs d'). queued_on r b x' \<longrightarrow> (\<exists>x \<in> set (jobs d). queued_on r b x \<and> jid x = jid x'))"

lemma no_new_queued_refl [simp]: "no_new_queued r b d d"
  by (auto simp: no_new_queued_def)

lemma settles_queued: "settles x x' \<Longrightarrow> queued_on r b x' \<Longrightarrow> queued_on r b x \<and> jid x = jid x'"
  unfolding settles_def job_le_def queued_on_def by metis

lemma no_new_queued_settle:
  assumes "settle_map d d'"
  shows "no_new_queued r b d d'"
proof -
  obtain f where "jobs d' = map f (jobs d)" "\<And>j. j \<in> set (jobs d) \<Longrightarrow> settles j (f j)"
    using assms by (auto simp: settle_map_def)
  then show ?thesis unfolding no_new_queued_def using settles_queued by fastforce
qed

lemma no_new_queued_db_step:
  assumes "db_step d d'" and "wf_db d"
  shows "no_new_queued r b d d'"
proof (rule db_step_effect [OF assms])
  fix cio :: complete_io and req job
  assume "jobs d' = map (\<lambda>x. if jid x = jid job then completed_job cio req Succeeded job else x) (jobs d)"
  then show ?thesis by (auto simp: no_new_queued_def queued_on_def split: if_splits)
qed (rule no_new_queued_settle)

lemma no_new_queued_create:
  "create_job now i r' b' c dl d = Inr (j, d') \<Longrightarrow> (r, b) \<noteq> (r', b') \<Longrightarrow> no_new_queued r b d d'"
  by (auto simp: create_job_Inr no_new_queued_def queued_on_def)

subsection \<open>The write of a push, seen as a push\<close>

primrec pc_repo :: "push_pc \<Rightarrow> repository" where
  "pc_repo (Looked repo) = repo"
| "pc_repo (Locked repo) = repo"
| "pc_repo (Decided repo found) = repo"

fun push_ok :: "db \<Rightarrow> push_call \<times> push_pc \<Rightarrow> bool" where
  \<comment> \<open>what a push in progress may rely on; while it holds the lock, the queued job of its branch can
      only be the one it has read\<close>
  "push_ok d ((io, ev, dl), pc) \<longleftrightarrow>
     pio_begin io = None \<and> pio_get_repo io = None \<and>
     get_repo_by_github_id (ev_repo_id ev) d = Inr (pc_repo pc) \<and>
     (case pc of
        Looked _ \<Rightarrow> True
      | Locked _ \<Rightarrow> pio_lock io = None
      | Decided repo found \<Rightarrow> pio_lock io = None \<and> pio_active io = None \<and>
          (\<forall>x \<in> set (jobs d). queued_on (rid repo) (ev_branch ev) x \<longrightarrow> map_option jid found = Some (jid x)) \<and>
          (\<forall>j. found = Some j \<longrightarrow>
             (\<exists>x \<in> set (jobs d). jid x = jid j \<and> jrepo x = rid repo \<and> jbranch x = ev_branch ev)))"

definition left_queue :: "db \<Rightarrow> job option \<Rightarrow> bool" where
  \<comment> \<open>the queued job the push has read is no longer queued\<close>
  "left_queue d found \<longleftrightarrow>
     (\<exists>j. found = Some j \<and> (\<forall>x \<in> set (jobs d). jid x = jid j \<longrightarrow> jstatus x \<noteq> Queued))"

lemma update_commit_sha_none:
  "(\<And>x. x \<in> set (jobs d) \<Longrightarrow> jid x = i \<Longrightarrow> jstatus x \<noteq> Queued) \<Longrightarrow> update_job_commit_sha now i c d = d"
  unfolding update_job_commit_sha_def update_jobs_def update_where_def
  by (cases d) (auto intro!: map_idI)

lemma push_write_late:
  assumes "left_queue (w_db w) found"
  shows "snd (push_write hmac us sg enq (io, ev, dl) repo found w) = w"
    and "pio_update io = None \<Longrightarrow> pio_commit io = Committed \<Longrightarrow>
           push_write hmac us sg enq (io, ev, dl) repo found w = (None, w)"
proof -
  obtain j where j: "found = Some j" "\<And>x. x \<in> set (jobs (w_db w)) \<Longrightarrow> jid x = jid j \<Longrightarrow> jstatus x \<noteq> Queued"
    using assms by (auto simp: left_queue_def)
  note same = update_commit_sha_none [OF j(2), where now = "pio_now io" and c = "ev_commit ev"]
  show "snd (push_write hmac us sg enq (io, ev, dl) repo found w) = w"
    by (cases "pio_update io"; cases "pio_commit io") (simp_all add: push_write_def j(1) same with_fault_def Let_def)
  show "push_write hmac us sg enq (io, ev, dl) repo found w = (None, w)"
    if "pio_update io = None" "pio_commit io = Committed"
    using that by (simp add: push_write_def j(1) same Let_def)
qed

lemma push_write_is_push:
  assumes "wf_db (w_db w)" and ok: "push_ok (w_db w) ((io, ev, dl), Decided repo found)"
    and "\<not> left_queue (w_db w) found"
  shows "push_write hmac us sg enq (io, ev, dl) repo found w = handle_push hmac us sg enq io ev dl w"
proof -
  let ?f = "List.find (\<lambda>j. jstatus j = Queued) (get_active_jobs_for_branch (rid repo) (ev_branch ev) (w_db w))"
  have eq: "handle_push hmac us sg enq io ev dl w = push_write hmac us sg enq (io, ev, dl) repo ?f w"
    using ok by (simp add: handle_push_stages push_lookup_def push_read_def)
  have same: "map_option jid ?f = map_option jid found"
  proof (cases ?f)
    case None
    then have none: "\<And>x. x \<in> set (jobs (w_db w)) \<Longrightarrow> \<not> queued_on (rid repo) (ev_branch ev) x"
      by (simp add: find_active_None)
    have "found = None"
    proof (rule ccontr)
      assume "found \<noteq> None"
      then obtain j where j: "found = Some j" by blast
      then obtain y where y: "y \<in> set (jobs (w_db w))" "jid y = jid j" "jstatus y = Queued"
        using assms(3) by (auto simp: left_queue_def)
      obtain x where x: "x \<in> set (jobs (w_db w))" "jid x = jid j" "jrepo x = rid repo" "jbranch x = ev_branch ev"
        using ok j by auto
      have "y = x" using wf_job_unique [OF assms(1) y(1) x(1)] x(2) y(2) by simp
      then show False using none [OF x(1)] x y(3) by (simp add: queued_on_def)
    qed
    then show ?thesis using None by simp
  next
    case (Some j)
    then show ?thesis using find_active_Some [OF Some] ok by (auto simp: Some)
  qed
  then show ?thesis
    unfolding eq by (cases ?f; cases found) (simp_all add: push_write_def)
qed

lemma get_repo_by_github_id_wf:
  assumes "wf_db d" and "repo \<in> set (repositories d)"
  shows "get_repo_by_github_id (rgithub_id repo) d = Inr repo"
  using unique_find [of "\<lambda>r. Some (rgithub_id r)" "repositories d" repo "rgithub_id repo"] assms
  by (simp add: get_repo_by_github_id_def select_one_def wf_defs)

lemma no_new_queued_push:
  assumes "handle_push hmac us sg enq io ev dl w = (res, w')" and "wf_db (w_db w)"
    and "get_repo_by_github_id (ev_repo_id ev) (w_db w) = Inr repo" and "(r, b) \<noteq> (rid repo, ev_branch ev)"
  shows "no_new_queued r b (w_db w) (w_db w')"
proof -
  have same: "repo' = repo" if "repo' \<in> set (repositories (w_db w))" "rgithub_id repo' = ev_repo_id ev" for repo'
    using get_repo_by_github_id_wf [OF assms(2) that(1)] assms(3) that(2) by simp
  from assms(1) show ?thesis
  proof (cases rule: handle_push_outcomes)
    case updated
    then show ?thesis by (simp add: no_new_queued_settle settle_commit_sha)
  next
    case (created repo' j d')
    then show ?thesis using no_new_queued_create [OF created(4)] assms(4) same [OF created(1,2)] by auto
  next
    case (created_lost repo' j d')
    then show ?thesis using no_new_queued_create [OF created_lost(4)] assms(4) same [OF created_lost(1,2)] by auto
  qed simp
qed

subsection \<open>The invariant of the interleaved system\<close>

definition conc_inv :: "(uuid \<Rightarrow> string \<Rightarrow> 'k) \<Rightarrow> conc \<Rightarrow> bool" where
  "conc_inv key c \<longleftrightarrow> base_inv (w_db (c_world c)) \<and>
     (\<forall>i p. c_pushes c i = Some p \<longrightarrow> push_ok (w_db (c_world c)) p) \<and>
     (\<forall>i k l. lock_held key (c_pushes c i) = Some l \<longrightarrow> lock_held key (c_pushes c k) = Some l \<longrightarrow> i = k)"

lemma conc_inv_push: "conc_inv key c \<Longrightarrow> c_pushes c i = Some p \<Longrightarrow> push_ok (w_db (c_world c)) p"
  unfolding conc_inv_def by blast

lemma conc_inv_base: "conc_inv key c \<Longrightarrow> base_inv (w_db (c_world c))"
  by (simp add: conc_inv_def)

lemma conc_inv_lock:
  "conc_inv key c \<Longrightarrow> lock_held key (c_pushes c i) = Some l \<Longrightarrow> lock_held key (c_pushes c k) = Some l \<Longrightarrow> i = k"
  unfolding conc_inv_def by blast

definition same_rows :: "db \<Rightarrow> db \<Rightarrow> bool" where
  \<comment> \<open>every job is still there, on its branch\<close>
  "same_rows d d' \<longleftrightarrow>
     (\<forall>x \<in> set (jobs d). \<exists>y \<in> set (jobs d'). jid y = jid x \<and> jrepo y = jrepo x \<and> jbranch y = jbranch x)"

lemma same_rows_evolves: "evolves (jobs d) (jobs d') \<Longrightarrow> same_rows d d'"
  unfolding same_rows_def
proof
  fix x assume "evolves (jobs d) (jobs d')" "x \<in> set (jobs d)"
  then obtain y where "y \<in> set (jobs d')" "job_le x y" using evolves_mem by blast
  then show "\<exists>y \<in> set (jobs d'). jid y = jid x \<and> jrepo y = jrepo x \<and> jbranch y = jbranch x"
    by (auto simp: job_le_def)
qed

lemma push_ok_stable:
  assumes "push_ok d ((io, ev, dl), pc)" and "repositories d' = repositories d" and "same_rows d d'"
    and "\<And>repo found. pc = Decided repo found \<Longrightarrow> no_new_queued (rid repo) (ev_branch ev) d d'"
  shows "push_ok d' ((io, ev, dl), pc)"
proof (cases pc)
  case (Decided repo found)
  have "\<exists>x \<in> set (jobs d'). jid x = jid j \<and> jrepo x = rid repo \<and> jbranch x = ev_branch ev" if j: "found = Some j" for j
  proof -
    obtain x where x: "x \<in> set (jobs d)" "jid x = jid j" "jrepo x = rid repo" "jbranch x = ev_branch ev"
      using assms(1) j Decided by auto
    then show ?thesis using assms(3) by (metis same_rows_def)
  qed
  moreover have "map_option jid found = Some (jid x)"
    if x: "x \<in> set (jobs d')" "queued_on (rid repo) (ev_branch ev) x" for x
  proof -
    obtain y where "y \<in> set (jobs d)" "queued_on (rid repo) (ev_branch ev) y" "jid y = jid x"
      using assms(4) [OF Decided] x by (auto simp: no_new_queued_def)
    then show ?thesis using assms(1) Decided by auto
  qed
  ultimately show ?thesis
    using assms(1,2) Decided by (simp add: get_repo_by_github_id_def)
qed (use assms(1,2) in \<open>simp_all add: get_repo_by_github_id_def\<close>)

lemma push_write_step:
  assumes inv: "base_inv (w_db w)" and ok: "push_ok (w_db w) ((io, ev, dl), Decided repo found)"
    and w': "push_write hmac us sg enq (io, ev, dl) repo found w = (res, w')"
  shows "base_inv (w_db w') \<and> (snapshots_match (w_db w) \<longrightarrow> snapshots_match (w_db w')) \<and> repositories (w_db w') = repositories (w_db w) \<and>
     evolves (jobs (w_db w)) (jobs (w_db w')) \<and>
     (\<forall>r b. (r, b) \<noteq> (rid repo, ev_branch ev) \<longrightarrow> no_new_queued r b (w_db w) (w_db w'))"
proof (cases "left_queue (w_db w) found")
  case True
  then have "w' = w" using push_write_late(1) [OF True, of hmac us sg enq io ev dl repo] w' by simp
  then show ?thesis using inv by (simp add: evolves_refl)
next
  case False
  have wf: "wf_db (w_db w)" using inv by (simp add: base_inv_def)
  note push = w' [unfolded push_write_is_push [OF wf ok False]]
  note step = sys_step.push [OF push]
  have g: "get_repo_by_github_id (ev_repo_id ev) (w_db w) = Inr repo" using ok by simp
  show ?thesis
    using inv wf_step [OF step wf] one_queued_step [OF step wf] snapshots_match_step [OF step wf]
      evolves_step [OF step wf] push_repo_stable [OF push] no_new_queued_push [OF push wf g]
    by (simp add: base_inv_def)
qed

lemma lock_held_Decided [simp]:
  "lock_held key (Some (call, Decided repo found)) = Some (key (rid repo) (ev_branch (fst (snd call))))"
  by (cases call) simp

lemma conc_inv_push_step:
  assumes "push_step locked key hmac us sg enq c c'" and inv: "conc_inv key c"
  shows "conc_inv key c'"
  using assms(1)
proof (cases rule: push_step.cases)
  case (look i io ev repo dl)
  have "push_ok (w_db (c_world c)) ((io, ev, dl), Looked repo)"
    using look(3) by (simp add: push_lookup_def with_fault_def split: option.splits sum.splits if_splits)
  then show ?thesis using inv by (simp add: conc_inv_def look(1))
next
  case (lock i io ev dl repo)
  note conc_inv_push [OF inv lock(2)]
  moreover have "\<And>k l. lock_held key (c_pushes c k) = Some l \<Longrightarrow> key (rid repo) (ev_branch ev) \<noteq> l"
    using lock(4) by auto
  ultimately show ?thesis using inv lock(3,4) by (simp add: conc_inv_def lock(1))
next
  case (lock_failed i)
  then show ?thesis using inv by (simp add: conc_inv_def)
next
  case (read i io ev dl repo found)
  note ok = conc_inv_push [OF inv read(2)]
  have one: "one_queued (w_db (c_world c))" using inv by (simp add: conc_inv_def base_inv_def)
  have act: "pio_active io = None" and
    f: "found = List.find (\<lambda>j. jstatus j = Queued) (get_active_jobs_for_branch (rid repo) (ev_branch ev) (w_db (c_world c)))"
    using read(3) by (auto simp: push_read_def with_fault_def split: option.splits)
  have "push_ok (w_db (c_world c)) ((io, ev, dl), Decided repo found)"
  proof (cases found)
    case None
    then show ?thesis using ok act f by (simp add: find_active_None [symmetric])
  next
    case (Some j)
    note j = find_active_Some [OF Some [unfolded f]]
    then show ?thesis
      using ok act Some one_queuedD [OF one _ j [THEN conjunct1] _ j [THEN conjunct2]]
      by (auto simp: queued_on_def)
  qed
  moreover have "lock_held key (c_pushes c i) = Some (key (rid repo) (ev_branch ev))" using read(2) by simp
  ultimately show ?thesis using inv by (auto simp: conc_inv_def read(1) split: if_splits)
next
  case (read_failed i)
  then show ?thesis using inv by (simp add: conc_inv_def)
next
  case (act i call repo found res w')
  obtain io ev dl where call: "call = (io, ev, dl)" by (cases call)
  note eff = push_write_step [OF conc_inv_base [OF inv] conc_inv_push [OF inv act(2), unfolded call]
      act(4) [unfolded call]]
  have "push_ok (w_db w') p" if p: "c_pushes c k = Some p" and "k \<noteq> i" for k p
  proof -
    obtain io' ev' dl' pc where pp: "p = ((io', ev', dl'), pc)" by (cases p) auto
    have other: "(rid repo', ev_branch ev') \<noteq> (rid repo, ev_branch ev)" if pc: "pc = Decided repo' found'"
      for repo' found'
    proof
      assume "(rid repo', ev_branch ev') = (rid repo, ev_branch ev)"
      then have "lock_held key (c_pushes c k) = lock_held key (c_pushes c i)"
        using p act(2) pc pp call by simp
      then show False using conc_inv_lock [OF inv, of k _ i] act(2) \<open>k \<noteq> i\<close> by simp
    qed
    show ?thesis
      unfolding pp
      by (rule push_ok_stable [OF conc_inv_push [OF inv p, unfolded pp]])
         (use eff other same_rows_evolves in blast)+
  qed
  then show ?thesis using inv eff by (simp add: conc_inv_def act(1) del: push_ok.simps split_paired_All)
qed

lemma conc_inv_step:
  assumes "conc_step key hmac us sg enq c c'" and inv: "conc_inv key c"
  shows "conc_inv key c'"
  using assms(1)
proof (cases rule: conc_step.cases)
  case (other d')
  have "push_ok d' p" if "c_pushes c i = Some p" for i p
  proof -
    obtain io ev dl pc where p: "p = ((io, ev, dl), pc)" by (cases p) auto
    note ok = conc_inv_push [OF inv that, unfolded p]
    have wf: "wf_db (w_db (c_world c))" using conc_inv_base [OF inv] by (simp add: base_inv_def)
    show ?thesis
      unfolding p
      by (rule push_ok_stable [OF ok repositories_db_step [OF other(2) wf] same_rows_evolves [OF evolves_db_step [OF other(2) wf]]])
         (rule no_new_queued_db_step [OF other(2) wf])
  qed
  then show ?thesis using inv base_inv_db_step [OF other(2)] by (simp add: conc_inv_def other(1))
next
  case pushing
  then show ?thesis using conc_inv_push_step inv by blast
qed

lemma conc_inv_reachable:
  "conc_reachable key hmac us sg enq w0 c \<Longrightarrow> base_inv (w_db w0) \<Longrightarrow> conc_inv key c"
  by (induction rule: conc_reachable.induct) (simp_all add: conc_inv_step, simp add: conc_inv_def)

lemma conc_match_push:
  assumes "push_step locked key hmac us sg enq c c'" and "conc_inv key c"
    and "snapshots_match (w_db (c_world c))"
  shows "snapshots_match (w_db (c_world c'))"
  using assms(1)
proof (cases rule: push_step.cases)
  case (act i call repo found res w')
  obtain io ev dl where call: "call = (io, ev, dl)" by (cases call)
  show ?thesis
    using push_write_step [OF conc_inv_base [OF assms(2)] conc_inv_push [OF assms(2) act(2), unfolded call]
      act(4) [unfolded call]] assms(3) by (simp add: act(1))
qed (use assms(3) in simp_all)

lemma conc_sys_reachable:
  assumes "conc_reachable key hmac us sg enq w0 c" and "sys_inv (w_db w0)"
  shows "sys_inv (w_db (c_world c))"
  using assms(1)
proof (induction rule: conc_reachable.induct)
  case init
  then show ?case using assms(2) by simp
next
  case (step c c')
  have inv: "conc_inv key c" using conc_inv_reachable [OF step(1)] assms(2) by (simp add: sys_inv_base)
  from step(2) show ?case
  proof (cases rule: conc_step.cases)
    case (other d')
    then show ?thesis using sys_inv_db_step [OF other(2) step(3)] by simp
  next
    case pushing
    then show ?thesis
      using conc_match_push [OF _ inv] step(3) conc_inv_base [OF conc_inv_step [OF step(2) inv]] by (auto simp: sys_inv_base)
  qed
qed

lemma conc_reachable_inv:
  "conc_reachable key hmac us sg enq w0 c \<Longrightarrow> sys_inv (w_db w0) \<Longrightarrow> conc_inv key c"
  by (simp add: conc_inv_reachable sys_inv_base)

subsection \<open>Properties\<close>

definition ex_call :: push_call where
  "ex_call = (ex_io 9 100, ex_event ''b'', ''d'')"

definition ex_conc :: "push_pc option \<Rightarrow> db \<Rightarrow> conc" where
  "ex_conc pc d = \<lparr>c_world = \<lparr>w_db = d, w_queue = []\<rparr>, c_pushes = (\<lambda>k. if k = 0 then map_option (Pair ex_call) pc else None)\<rparr>"

lemma ex_conc_frame:
  "w_db (c_world (ex_conc pc d)) = d" "c_world (ex_conc pc d) = \<lparr>w_db = d, w_queue = []\<rparr>"
  "c_pushes (ex_conc (Some p) d) 0 = Some (ex_call, p)"
  by (simp_all add: ex_conc_def)

abbreviation ex_key :: "uuid \<Rightarrow> string \<Rightarrow> string" where
  "ex_key r b \<equiv> b"

lemma ex_conc_decided:
  "conc_reachable ex_key ex_hmac ex_uuid ex_signer NoopEnqueuer (ex_world [ex_job 3 Queued ''a'' 20])
     (ex_conc (Some (Decided ex_repo (Some (ex_job 3 Queued ''a'' 20)))) (ex_db [ex_job 3 Queued ''a'' 20]))"
proof -
  let ?d = "ex_db [ex_job 3 Queued ''a'' 20]"
  let ?R = "conc_reachable ex_key ex_hmac ex_uuid ex_signer NoopEnqueuer (ex_world [ex_job 3 Queued ''a'' 20])"
  have upd: "\<And>pc pc' d. ex_conc (Some pc') d =
      (ex_conc pc d)\<lparr>c_pushes := (c_pushes (ex_conc pc d))(0 \<mapsto> (ex_call, pc'))\<rparr>"
    by (auto simp: ex_conc_def)
  have s0: "?R (ex_conc None ?d)"
    using conc_reachable.init [of ex_key ex_hmac ex_uuid ex_signer NoopEnqueuer "ex_world [ex_job 3 Queued ''a'' 20]"]
    by (simp add: ex_conc_def ex_world_def cong: if_cong)
  have s1: "?R (ex_conc (Some (Looked ex_repo)) ?d)"
    unfolding upd [of "Looked ex_repo" _ None] ex_call_def
    by (rule conc_reachable.step [OF s0], rule conc_step.pushing, rule push_step.look)
       (simp_all add: ex_conc_def push_lookup_def ex_io_def)
  have s2: "?R (ex_conc (Some (Locked ex_repo)) ?d)"
    unfolding upd [of "Locked ex_repo" _ "Some (Looked ex_repo)"] ex_call_def
    by (rule conc_reachable.step [OF s1], rule conc_step.pushing, rule push_step.lock)
       (simp_all add: ex_conc_def ex_call_def ex_io_def)
  show ?thesis
    unfolding upd [of "Decided ex_repo (Some (ex_job 3 Queued ''a'' 20))" _ "Some (Locked ex_repo)"] ex_call_def
    by (rule conc_reachable.step [OF s2], rule conc_step.pushing, rule push_step.read)
       (simp_all add: ex_conc_def ex_call_def ex_io_def push_read_def get_active_jobs_for_branch_def)
qed

lemma concurrent_pushes_safe:
  assumes "conc_reachable key hmac us sg enq w0 c" and "sys_inv (w_db w0)"
  shows "wf_db (w_db (c_world c)) \<and> one_queued (w_db (c_world c)) \<and> snapshots_match (w_db (c_world c))"
  using conc_sys_reachable [OF assms] by (simp add: sys_inv_def)


text \<open>
  C8: Pushes are linearizable but for one race: when a push that holds the lock performs its write, the
  effect and the result are those of a whole \<open>HandlePush\<close> executed at that moment, unless the queued job
  it had read has left the queue in between.
\<close>

theorem push_linearizable:
  assumes "conc_reachable key hmac us sg enq w0 c" and "sys_inv (w_db w0)"
    and "c_pushes c i = Some ((io, ev, dl), Decided repo found)"
  shows "push_write hmac us sg enq (io, ev, dl) repo found (c_world c) =
           handle_push hmac us sg enq io ev dl (c_world c) \<or>
         (\<exists>j. found = Some j \<and> (\<forall>x \<in> set (jobs (w_db (c_world c))). jid x = jid j \<longrightarrow> jstatus x \<noteq> Queued))"
  using push_write_is_push [OF _ conc_inv_push [OF conc_reachable_inv [OF assms(1,2)] assms(3)], of hmac us sg enq]
    conc_sys_reachable [OF assms(1,2)]
  by (auto simp: sys_inv_def left_queue_def)

theorem push_linearizable_witness:
  "push_write ex_hmac ex_uuid ex_signer NoopEnqueuer ex_call ex_repo (Some (ex_job 3 Queued ''a'' 20))
       (ex_world [ex_job 3 Queued ''a'' 20]) =
     handle_push ex_hmac ex_uuid ex_signer NoopEnqueuer (ex_io 9 100) (ex_event ''b'') ''d''
       (ex_world [ex_job 3 Queued ''a'' 20])"
  using push_linearizable [OF ex_conc_decided, of 0 "ex_io 9 100" "ex_event ''b''" "''d''" ex_repo
      "Some (ex_job 3 Queued ''a'' 20)"]
  by (simp add: ex_conc_def ex_call_def ex_world_def)

text \<open>
  C32: The race loses the pushed commit: if a worker starts the queued job after the push has read it and
  before the push updates it, the update matches no row, and the push answers success although it
  changed nothing: no job waits for the new commit.  The comment promises that the worker picks up the
  latest commit.
\<close>

theorem push_lost_to_start:
  assumes "conc_reachable key hmac us sg enq w0 c" and "sys_inv (w_db w0)"
    and "c_pushes c i = Some ((io, ev, dl), Decided repo (Some j))" and "no_push_faults io"
    and "\<And>x. x \<in> set (jobs (w_db (c_world c))) \<Longrightarrow> jid x = jid j \<Longrightarrow> jstatus x \<noteq> Queued"
  shows "push_write hmac us sg enq (io, ev, dl) repo (Some j) (c_world c) = (None, c_world c) \<and>
         pending (w_db (c_world c)) (rid repo, ev_branch ev) = None"
proof -
  note conc_inv_push [OF conc_reachable_inv [OF assms(1,2)] assms(3)]
  then have "\<not> queued_on (rid repo) (ev_branch ev) x" if "x \<in> set (jobs (w_db (c_world c)))" for x
    using assms(5) [OF that] that by (auto simp: queued_on_def)
  moreover have "left_queue (w_db (c_world c)) (Some j)"
    using assms(5) by (auto simp: left_queue_def)
  ultimately show ?thesis
    using push_write_late(2) assms(4) by (simp add: pending_None no_push_faults_def)
qed

theorem push_lost_to_start_witness:
  "\<exists>d. db_step (ex_db [ex_job 3 Queued ''a'' 20]) d \<and> map jcommit (jobs d) = [''a''] \<and>
     push_write ex_hmac ex_uuid ex_signer NoopEnqueuer ex_call ex_repo (Some (ex_job 3 Queued ''a'' 20))
       \<lparr>w_db = d, w_queue = []\<rparr> = (None, \<lparr>w_db = d, w_queue = []\<rparr>) \<and>
     pending d (2, ''main'') = None"
proof -
  let ?j = "ex_job 3 Queued ''a'' 20"
  obtain d where st: "db_step (ex_db [?j]) d" and d: "map jcommit (jobs d) = [''a'']" "map jstatus (jobs d) = [Running]"
  proof
    let ?s = "ex_poller [?j]"
    let ?d = "pl_db (snd (claim_one ex_uuid ex_claim_io ?s))"
    show "db_step (ex_db [?j]) ?d"
      using db_step.poll [of ex_uuid ex_claim_io ?s "fst (claim_one ex_uuid ex_claim_io ?s)"
          "snd (claim_one ex_uuid ex_claim_io ?s)"] by simp
    show "map jcommit (jobs ?d) = [''a'']" "map jstatus (jobs ?d) = [Running]"
      by (simp_all add: claim_one_def claim_job_def ex_claim_io_def update_jobs_def update_where_def
          get_repo_for_job_def select_one_def touch_def)
  qed
  have r: "conc_reachable ex_key ex_hmac ex_uuid ex_signer NoopEnqueuer (ex_world [?j])
      (ex_conc (Some (Decided ex_repo (Some ?j))) d)"
    using conc_reachable.step [OF ex_conc_decided conc_step.other [where d' = d]] st
    by (simp add: ex_conc_def)
  have running: "jstatus x \<noteq> Queued" if "x \<in> set (jobs d)" for x
  proof -
    have "jstatus x \<in> set (map jstatus (jobs d))" using that unfolding set_map by (rule imageI)
    then show ?thesis unfolding d(2) by simp
  qed
  let ?c = "ex_conc (Some (Decided ex_repo (Some ?j))) d"
  have "push_write ex_hmac ex_uuid ex_signer NoopEnqueuer ex_call ex_repo (Some ?j) (c_world ?c) = (None, c_world ?c) \<and>
      pending (w_db (c_world ?c)) (rid ex_repo, ev_branch (ex_event ''b'')) = None"
    unfolding ex_call_def
    by (rule push_lost_to_start [OF r sys_inv_ex_queued [folded ex_db_frame(6)]
          ex_conc_frame(3) [unfolded ex_call_def] ex_io_ok])
       (rule running, simp only: ex_conc_frame(1))
  then have "push_write ex_hmac ex_uuid ex_signer NoopEnqueuer ex_call ex_repo (Some ?j) \<lparr>w_db = d, w_queue = []\<rparr> =
       (None, \<lparr>w_db = d, w_queue = []\<rparr>) \<and> pending d (2, ''main'') = None"
    unfolding ex_conc_frame ex_db_frame ex_event_simps world.select_convs .
  with st d(1) show ?thesis by (intro exI [of _ d] conjI) simp_all
qed

end
