(* ===== verification/RowLocks.thy ===== *)
theory RowLocks
  imports Interleave
begin

text \<open>
  Every transaction statement by statement, with its row locks.

  \<open>callback_begin\<close> is \<open>Start\<close> or \<open>Complete\<close> (\<^verbatim>\<open>api/internal/handler/callback\<close>) up to the answer of
  \<open>SELECT ... FOR UPDATE\<close>, \<open>held_write\<close> the rest of it, up to its commit; \<open>claim_job\<close> and \<open>claim_rest\<close>
  are the statements of \<open>claimOne\<close>, which no transaction spans.  \<open>row_step\<close> interleaves them with the
  sweeps and with the stages of pushes (\<open>push_step\<close>).  A callback holds the lock of its job's row from
  \<open>callback_begin\<close> to \<open>held_write\<close>: meanwhile no other callback reads the row, a claim skips it, and an
  UPDATE that would change it waits, which is a step that is not enabled yet.

  \<open>row_refines\<close> takes this system to the one of whole handlers; the exception, a history variable of
  the state, is the failure path of \<open>claimOne\<close>, which may write over a job that has finished.
\<close>

datatype callback =
    StartCall "start_request \<Rightarrow> field_err list" "string \<Rightarrow> uuid option" "int64 \<Rightarrow> string + string"
      start_io request
  | CompleteCall "complete_request \<Rightarrow> field_err list" "string \<Rightarrow> uuid option" complete_io request

datatype callback_reply = StartReply "start_response reply" | CompleteReply "string reply"

datatype held =
  \<comment> \<open>a callback that holds the lock of the row it has read\<close>
    HoldStart "int64 \<Rightarrow> string + string" start_io job
  | HoldComplete complete_io complete_request job

primrec held_job :: "held \<Rightarrow> job" where
  "held_job (HoldStart gen io job) = job"
| "held_job (HoldComplete io req job) = job"

definition start_begin ::
  "(start_request \<Rightarrow> field_err list) \<Rightarrow> (string \<Rightarrow> uuid option)
     \<Rightarrow> start_io \<Rightarrow> request \<Rightarrow> db \<Rightarrow> start_response reply + job" where
  "start_begin vstruct uuid_scan io r d =
     (case decode_start (rq_body r) of
        None \<Rightarrow> Inl (err_response 400 ''invalid request body'')
      | Some req \<Rightarrow>
     (case validate_struct (vstruct req) of
        Some msg \<Rightarrow> Inl (err_response 400 msg)
      | None \<Rightarrow>
      if sr_job_id req \<noteq> job_id_from_context r then Inl (err_response 400 ''job_id mismatch'')
      else
     (case uuid_scan (sr_job_id req) of
        None \<Rightarrow> Inl (err_response 400 ''invalid job_id'')
      | Some i \<Rightarrow>
     (case sio_begin io of
        Some _ \<Rightarrow> Inl internal_error
      | None \<Rightarrow>
     (case with_fault (sio_get io) (get_job_for_update i d) of
        Inl e \<Rightarrow> Inl (if e = NoRows then err_response 404 ''job not found'' else internal_error)
      | Inr job \<Rightarrow> Inr job)))))"

definition complete_begin ::
  "(complete_request \<Rightarrow> field_err list) \<Rightarrow> (string \<Rightarrow> uuid option)
     \<Rightarrow> complete_io \<Rightarrow> request \<Rightarrow> db \<Rightarrow> string reply + (complete_request \<times> job)" where
  "complete_begin vstruct uuid_scan io r d =
     (case decode_complete (take max_callback_bytes (rq_body r)) of
        None \<Rightarrow> Inl (err_response 400 ''invalid request body'')
      | Some req \<Rightarrow>
     (case validate_struct (vstruct req) of
        Some msg \<Rightarrow> Inl (err_response 400 msg)
      | None \<Rightarrow>
      if cr_job_id req \<noteq> job_id_from_context r then Inl (err_response 400 ''job_id mismatch'')
      else
     (case uuid_scan (cr_job_id req) of
        None \<Rightarrow> Inl (err_response 400 ''invalid job_id'')
      | Some i \<Rightarrow>
     (case cio_begin io of
        Some _ \<Rightarrow> Inl internal_error
      | None \<Rightarrow>
     (case with_fault (cio_get io) (get_job_for_update i d) of
        Inl e \<Rightarrow> Inl (if e = NoRows then err_response 404 ''job not found'' else internal_error)
      | Inr job \<Rightarrow> Inr (req, job))))))"

primrec callback_begin :: "callback \<Rightarrow> db \<Rightarrow> callback_reply + held" where
  "callback_begin (StartCall vstruct uuid_scan gen io r) d =
     map_sum StartReply (HoldStart gen io) (start_begin vstruct uuid_scan io r d)"
| "callback_begin (CompleteCall vstruct uuid_scan io r) d =
     map_sum CompleteReply (\<lambda>(req, job). HoldComplete io req job) (complete_begin vstruct uuid_scan io r d)"

primrec held_write :: "held \<Rightarrow> db \<Rightarrow> callback_reply \<times> db" where
  "held_write (HoldStart gen io job) d = map_prod StartReply id (start_locked gen io job d)"
| "held_write (HoldComplete io req job) d = map_prod CompleteReply id (complete_locked io req job d)"

primrec callback_handler :: "callback \<Rightarrow> db \<Rightarrow> callback_reply \<times> db" where
  "callback_handler (StartCall vstruct uuid_scan gen io r) d =
     map_prod StartReply id (start_handler vstruct uuid_scan gen io r d)"
| "callback_handler (CompleteCall vstruct uuid_scan io r) d =
     map_prod CompleteReply id (complete_handler vstruct uuid_scan io r d)"

lemma callback_handler_stages:
  "callback_handler call d =
     (case callback_begin call d of Inl reply \<Rightarrow> (reply, d) | Inr held \<Rightarrow> held_write held d)"
  by (cases call)
     (simp_all add: start_handler_def start_begin_def complete_handler_def complete_begin_def
        split: option.split sum.split)

primrec validated :: "callback \<Rightarrow> bool" where
  \<comment> \<open>the validator of the call honours the \<open>validate\<close> tags\<close>
  "validated (StartCall vstruct uuid_scan gen io r) \<longleftrightarrow> True"
| "validated (CompleteCall vstruct uuid_scan io r) \<longleftrightarrow> complete_validator vstruct"

subsection \<open>The steps\<close>

record rows =
  r_conc :: conc
  r_callbacks :: "nat \<Rightarrow> (callback \<times> held) option"
  r_claims :: "nat \<Rightarrow> (claim_io \<times> job) option"
  r_overwritten :: bool

abbreviation r_db :: "rows \<Rightarrow> db" where
  "r_db s \<equiv> w_db (c_world (r_conc s))"

abbreviation set_db :: "db \<Rightarrow> conc \<Rightarrow> conc" where
  "set_db d c \<equiv> c\<lparr>c_world := (c_world c)\<lparr>w_db := d\<rparr>\<rparr>"

definition row_locked :: "rows \<Rightarrow> uuid \<Rightarrow> bool" where
  "row_locked s u \<longleftrightarrow> (\<exists>i call held. r_callbacks s i = Some (call, held) \<and> jid (held_job held) = u)"

definition finished_row :: "db \<Rightarrow> uuid \<Rightarrow> bool" where
  "finished_row d u \<longleftrightarrow> (\<exists>j \<in> set (jobs d). jid j = u \<and> is_terminal (jstatus j))"

inductive row_step ::
  "(uuid \<Rightarrow> string \<Rightarrow> 'k) \<Rightarrow> (string \<Rightarrow> string \<Rightarrow> string) \<Rightarrow> (uuid \<Rightarrow> string) \<Rightarrow> signer \<Rightarrow> enqueuer
     \<Rightarrow> rows \<Rightarrow> rows \<Rightarrow> bool"
  for key hmac us sg enq where
  pushing: "push_step (row_locked s) key hmac us sg enq (r_conc s) c' \<Longrightarrow>
     row_step key hmac us sg enq s (s\<lparr>r_conc := c'\<rparr>)"
| cb_begin: "r_callbacks s i = None \<Longrightarrow> validated call \<Longrightarrow>
     callback_begin call (r_db s) = Inr held \<Longrightarrow> \<not> row_locked s (jid (held_job held)) \<Longrightarrow>
     row_step key hmac us sg enq s (s\<lparr>r_callbacks := (r_callbacks s)(i \<mapsto> (call, held))\<rparr>)"
| cb_write: "r_callbacks s i = Some (call, held) \<Longrightarrow> held_write held (r_db s) = (reply, d') \<Longrightarrow>
     row_step key hmac us sg enq s
       (s\<lparr>r_conc := set_db d' (r_conc s), r_callbacks := (r_callbacks s)(i := None)\<rparr>)"
| sweep: "timeout_handler fault now r (r_db s) = (reply', d') \<Longrightarrow>
     (\<And>j. j \<in> set (jobs (r_db s)) \<Longrightarrow> overdue now default_timeout_minutes j \<Longrightarrow> \<not> row_locked s (jid j)) \<Longrightarrow>
     row_step key hmac us sg enq s (s\<lparr>r_conc := set_db d' (r_conc s)\<rparr>)"
| claim: "r_claims s i = None \<Longrightarrow> ci_claim io = None \<Longrightarrow> {u. row_locked s u} \<subseteq> ci_locked io \<Longrightarrow>
     claim_job (ci_now io) (ci_locked io) (r_db s) = Inr (job, d') \<Longrightarrow>
     row_step key hmac us sg enq s
       (s\<lparr>r_conc := set_db d' (r_conc s), r_claims := (r_claims s)(i \<mapsto> (io, job))\<rparr>)"
| claim_rest: "r_claims s i = Some (io, job) \<Longrightarrow> pl_db p = r_db s \<Longrightarrow> claim_rest us io job p = (res, p') \<Longrightarrow>
     (pl_db p' \<noteq> r_db s \<Longrightarrow> \<not> row_locked s (jid job)) \<Longrightarrow>
     row_step key hmac us sg enq s
       (s\<lparr>r_conc := set_db (pl_db p') (r_conc s), r_claims := (r_claims s)(i := None),
          r_overwritten := r_overwritten s \<or> (pl_db p' \<noteq> r_db s \<and> finished_row (r_db s) (jid job))\<rparr>)"

definition row_start :: "world \<Rightarrow> rows" where
  "row_start w = \<lparr>r_conc = \<lparr>c_world = w, c_pushes = (\<lambda>_. None)\<rparr>, r_callbacks = (\<lambda>_. None),
     r_claims = (\<lambda>_. None), r_overwritten = False\<rparr>"

inductive row_reachable ::
  "(uuid \<Rightarrow> string \<Rightarrow> 'k) \<Rightarrow> (string \<Rightarrow> string \<Rightarrow> string) \<Rightarrow> (uuid \<Rightarrow> string) \<Rightarrow> signer \<Rightarrow> enqueuer
     \<Rightarrow> world \<Rightarrow> rows \<Rightarrow> bool"
  for key hmac us sg enq w0 where
  init: "row_reachable key hmac us sg enq w0 (row_start w0)"
| step: "row_reachable key hmac us sg enq w0 s \<Longrightarrow> row_step key hmac us sg enq s s' \<Longrightarrow>
     row_reachable key hmac us sg enq w0 s'"

subsection \<open>What keeps a row\<close>

definition row_kept :: "uuid \<Rightarrow> db \<Rightarrow> db \<Rightarrow> bool" where
  "row_kept u d d' \<longleftrightarrow> (\<forall>job. get_job_for_update u d = Inr job \<longrightarrow> get_job_for_update u d' = Inr job)"

named_theorems row_kept

lemma row_kept_refl [simp]: "row_kept u d d"
  by (simp add: row_kept_def)

lemma row_kept_trans: "row_kept u a b \<Longrightarrow> row_kept u b c \<Longrightarrow> row_kept u a c"
  by (simp add: row_kept_def)

lemma row_kept_jobs: "jobs d' = jobs d \<Longrightarrow> row_kept u d d'"
  by (simp add: row_kept_def get_job_for_update_def)

lemma row_kept_append: "jobs d' = jobs d @ [j] \<Longrightarrow> row_kept u d d'"
  by (auto simp: row_kept_def get_job_for_update_def select_one_def find_snoc split: option.splits)

lemma row_kept_update:
  assumes "\<And>x. x \<in> set (jobs d) \<Longrightarrow> P x \<Longrightarrow> jid x \<noteq> u" and "\<And>x. jid (f x) = jid x"
  shows "row_kept u d (update_jobs now P f d)"
proof -
  have "List.find (\<lambda>x. jid x = u) (update_where P (\<lambda>x. touch now (f x)) js) = List.find (\<lambda>x. jid x = u) js"
    if "\<And>x. x \<in> set js \<Longrightarrow> P x \<Longrightarrow> jid x \<noteq> u" for js
    using that by (induction js) (auto simp: update_where_def assms(2))
  then show ?thesis
    using assms(1) by (simp add: row_kept_def get_job_for_update_def select_one_def update_jobs_def)
qed

lemma row_kept_status [row_kept]: "i \<noteq> u \<Longrightarrow> row_kept u d (update_job_status now i st msg d)"
  unfolding update_job_status_def by (rule row_kept_update) auto

lemma row_kept_sha [row_kept]: "i \<noteq> u \<Longrightarrow> row_kept u d (update_job_commit_sha now i c d)"
  unfolding update_job_commit_sha_def by (rule row_kept_update) auto

lemma row_kept_claim:
  assumes "claim_job now locked d = Inr (j, d')" and "u \<in> locked"
  shows "row_kept u d d'"
  using assms(1)
proof (cases rule: claim_job_InrE)
  case (1 j0)
  have "d' = update_jobs now (\<lambda>x. jid x = jid j0) (\<lambda>j. j\<lparr>jstatus := Running, jstarted := Some now\<rparr>) d"
    using 1(6) by (simp add: update_jobs_def claimed_def [abs_def])
  then show ?thesis using 1(3) assms(2) by (auto intro!: row_kept_update)
qed

lemma row_kept_sweep:
  assumes "timeout_handler fault now r d = (reply, d')"
    and "\<And>x. x \<in> set (jobs d) \<Longrightarrow> overdue now default_timeout_minutes x \<Longrightarrow> jid x \<noteq> u"
  shows "row_kept u d d'"
  using assms
  by (cases fault)
     (auto simp: timeout_handler_def timeout_running_jobs_def with_fault_def Let_def intro!: row_kept_update)

lemma row_kept_commit: "row_kept u d d1 \<Longrightarrow> row_kept u d (snd (commit_tx c d d1))"
  by (cases c) simp_all

lemma row_kept_start:
  assumes "jid job \<noteq> u"
  shows "row_kept u d (snd (start_locked gen io job d))"
  by (cases rule: start_locked_cases [where gen = gen and io = io and job = job and d = d])
     (simp_all add: row_kept_status assms)

lemma row_kept_complete:
  assumes "jid job \<noteq> u"
  shows "row_kept u d (snd (complete_locked io req job d))"
proof (cases rule: complete_locked_cases [where io = io and req = req and job = job and d = d])
  case (completed status d2 reply)
  have up: "row_kept u d (complete_update io req job status d)"
    unfolding complete_update_def by (rule row_kept_status [OF assms])
  have "jobs d2 = jobs (complete_update io req job status d)"
    using completed(3) by (auto simp: complete_insert_def insert_snapshot_Inr split: if_splits)
  then show ?thesis
    using row_kept_trans [OF up row_kept_jobs] completed(4) by simp
qed simp_all

lemma row_kept_held:
  assumes "held_write held d = (reply, d')" and "jid (held_job held) \<noteq> u"
  shows "row_kept u d d'"
proof -
  have "row_kept u d (snd (held_write held d))"
    using assms(2) by (cases held) (simp_all add: row_kept_start row_kept_complete)
  then show ?thesis using assms(1) by simp
qed

lemma row_kept_claim_rest:
  assumes "claim_rest us io job p = (res, p')" and "pl_db p' \<noteq> pl_db p \<Longrightarrow> jid job \<noteq> u"
  shows "row_kept u (pl_db p) (pl_db p')"
proof (cases "pl_db p' = pl_db p")
  case False
  then show ?thesis
    using assms by (auto simp: claim_rest_def with_fault_def row_kept_status split: sum.splits option.splits)
qed simp

lemma row_kept_push_write:
  assumes "push_write hmac us sg enq (io, ev, dl) repo found w = (res, w')"
    and "\<And>j. found = Some j \<Longrightarrow> jid j \<noteq> u"
  shows "row_kept u (w_db w) (w_db w')"
proof (cases found)
  case None
  show ?thesis
  proof (cases "create_job (pio_now io) (pio_new_id io) (rid repo) (ev_branch ev) (ev_commit ev) dl (w_db w)")
    case (Inr jd)
    obtain j d1 where jd: "jd = (j, d1)" by (cases jd)
    have "row_kept u (w_db w) d1" using Inr jd by (auto simp: create_job_Inr intro: row_kept_append)
    then show ?thesis
      using assms(1) None Inr jd
      by (cases "pio_create io"; cases "pio_commit io") (auto simp: push_write_def with_fault_def Let_def split: if_splits)
  qed (use assms(1) None in \<open>cases "pio_create io"; auto simp: push_write_def with_fault_def Let_def split: if_splits\<close>)
next
  case (Some j)
  have "row_kept u (w_db w) (update_job_commit_sha (pio_now io) (jid j) (ev_commit ev) (w_db w))"
    by (rule row_kept_sha) (rule assms(2) [OF Some])
  then show ?thesis
    using assms(1) Some
    by (cases "pio_update io"; cases "pio_commit io") (auto simp: push_write_def with_fault_def Let_def)
qed

lemma row_kept_push_step:
  assumes "push_step locked key hmac us sg enq c c'" and "locked u"
  shows "row_kept u (w_db (c_world c)) (w_db (c_world c'))"
  using assms(1)
proof (cases rule: push_step.cases)
  case (act i call repo found res w')
  obtain io ev dl where call: "call = (io, ev, dl)" by (cases call)
  show ?thesis
    using row_kept_push_write [OF act(4) [unfolded call], of u] act(3) assms(2) unfolding act(1) by auto
qed simp_all

lemma get_job_id: "get_job_for_update u d = Inr job \<Longrightarrow> jid job = u"
  by (auto simp: get_job_for_update_def dest: select_one_Inr)

lemma start_begin_Inr:
  assumes "start_begin vstruct uuid_scan io r d = Inr job"
  shows "get_job_for_update (jid job) d = Inr job \<and>
     (\<forall>d'. get_job_for_update (jid job) d' = Inr job \<longrightarrow> start_begin vstruct uuid_scan io r d' = Inr job)"
proof -
  obtain req i where h: "decode_start (rq_body r) = Some req" "validate_struct (vstruct req) = None"
      "sr_job_id req = job_id_from_context r" "uuid_scan (sr_job_id req) = Some i" "sio_begin io = None"
      "sio_get io = None" "get_job_for_update i d = Inr job"
    using assms
    by (auto simp: start_begin_def with_fault_def split: option.split_asm if_split_asm sum.split_asm)
  then show ?thesis using get_job_id [OF h(7)] by (simp add: start_begin_def)
qed

lemma complete_begin_Inr:
  assumes "complete_begin vstruct uuid_scan io r d = Inr (req, job)"
  shows "get_job_for_update (jid job) d = Inr job \<and>
     (\<forall>d'. get_job_for_update (jid job) d' = Inr job \<longrightarrow>
        complete_begin vstruct uuid_scan io r d' = Inr (req, job))"
proof -
  obtain i where h: "decode_complete (take max_callback_bytes (rq_body r)) = Some req" "validate_struct (vstruct req) = None"
      "cr_job_id req = job_id_from_context r" "uuid_scan (cr_job_id req) = Some i" "cio_begin io = None"
      "cio_get io = None" "get_job_for_update i d = Inr job"
    using assms
    by (auto simp: complete_begin_def with_fault_def split: option.split_asm if_split_asm sum.split_asm)
  then show ?thesis using get_job_id [OF h(7)] by (simp add: complete_begin_def)
qed

lemma callback_begin_Inr:
  assumes "callback_begin call d = Inr held"
  shows "get_job_for_update (jid (held_job held)) d = Inr (held_job held) \<and>
     (\<forall>d'. get_job_for_update (jid (held_job held)) d' = Inr (held_job held) \<longrightarrow> callback_begin call d' = Inr held)"
proof (cases call)
  case (StartCall vs scan gen io r)
  then show ?thesis
    using assms start_begin_Inr [of vs scan io r d] by (cases "start_begin vs scan io r d") auto
next
  case (CompleteCall vs scan io r)
  then show ?thesis
    using assms complete_begin_Inr [of vs scan io r d] by (cases "complete_begin vs scan io r d") auto
qed

lemma begin_kept:
  "callback_begin call d = Inr held \<Longrightarrow> row_kept (jid (held_job held)) d d' \<Longrightarrow> callback_begin call d' = Inr held"
  using callback_begin_Inr [of call d held] by (simp add: row_kept_def)

subsection \<open>The row locks\<close>

definition locks_ok :: "rows \<Rightarrow> bool" where
  \<comment> \<open>what a callback has read under its lock is what it would read now, and no two hold the same row\<close>
  "locks_ok s \<longleftrightarrow>
     (\<forall>i call held. r_callbacks s i = Some (call, held) \<longrightarrow>
        validated call \<and> callback_begin call (r_db s) = Inr held) \<and>
     (\<forall>i k call held call' held'. r_callbacks s i = Some (call, held) \<longrightarrow> r_callbacks s k = Some (call', held') \<longrightarrow>
        jid (held_job held) = jid (held_job held') \<longrightarrow> i = k)"

lemma locks_ok_begin:
  "locks_ok s \<Longrightarrow> r_callbacks s i = Some (call, held) \<Longrightarrow> validated call \<and> callback_begin call (r_db s) = Inr held"
  unfolding locks_ok_def by blast

lemma locks_ok_excl:
  "locks_ok s \<Longrightarrow> r_callbacks s i = Some (call, held) \<Longrightarrow> r_callbacks s k = Some (call', held') \<Longrightarrow>
     jid (held_job held) = jid (held_job held') \<Longrightarrow> i = k"
  unfolding locks_ok_def by blast

lemma row_lockedI: "r_callbacks s i = Some (call, held) \<Longrightarrow> row_locked s (jid (held_job held))"
  unfolding row_locked_def by blast

lemma locks_ok_keep:
  assumes ok: "locks_ok s" and cbs: "\<And>i p. r_callbacks s' i = Some p \<Longrightarrow> r_callbacks s i = Some p"
    and kept: "\<And>i call held. r_callbacks s' i = Some (call, held) \<Longrightarrow> row_kept (jid (held_job held)) (r_db s) (r_db s')"
  shows "locks_ok s'"
  unfolding locks_ok_def
proof (intro conjI allI impI)
  fix i call held
  assume i: "r_callbacks s' i = Some (call, held)"
  note b = locks_ok_begin [OF ok cbs [OF i]]
  show "validated call" using b by simp
  show "callback_begin call (r_db s') = Inr held" using begin_kept [OF _ kept [OF i]] b by simp
next
  fix i k call held call' held'
  assume "r_callbacks s' i = Some (call, held)" "r_callbacks s' k = Some (call', held')"
    "jid (held_job held) = jid (held_job held')"
  then show "i = k" using locks_ok_excl [OF ok cbs cbs] by blast
qed

lemma locks_ok_step:
  assumes "row_step key hmac us sg enq s s'" and ok: "locks_ok s"
  shows "locks_ok s'"
  using assms(1)
proof (cases rule: row_step.cases)
  case (pushing c')
  show ?thesis
    by (rule locks_ok_keep [OF ok]) (use pushing row_kept_push_step [OF pushing(2)] row_lockedI in auto)
next
  case (cb_begin i call held)
  have free: "jid (held_job held') \<noteq> jid (held_job held)" if "r_callbacks s k = Some (call', held')" for k call' held'
    using row_lockedI [OF that] cb_begin(5) by auto
  show ?thesis
    unfolding locks_ok_def
  proof (intro conjI allI impI)
    fix k call' held'
    assume "r_callbacks s' k = Some (call', held')"
    then show "validated call'" "callback_begin call' (r_db s') = Inr held'"
      using cb_begin locks_ok_begin [OF ok] by (auto split: if_splits)
  next
    fix k l call1 held1 call2 held2
    assume "r_callbacks s' k = Some (call1, held1)" "r_callbacks s' l = Some (call2, held2)"
      "jid (held_job held1) = jid (held_job held2)"
    then show "k = l"
      using cb_begin(1) locks_ok_excl [OF ok, of k _ _ l] free free [symmetric] by (auto split: if_splits)
  qed
next
  case (cb_write i call held reply d')
  have "row_kept (jid (held_job held')) (r_db s) d'" if "r_callbacks s k = Some (call', held')" "k \<noteq> i" for k call' held'
    using row_kept_held [OF cb_write(3)] locks_ok_excl [OF ok cb_write(2) that(1)] that(2) by blast
  then show ?thesis
    by (intro locks_ok_keep [OF ok]) (auto simp: cb_write(1) split: if_splits)
next
  case (sweep fault now r reply' d')
  have "row_kept (jid (held_job held)) (r_db s) d'" if "r_callbacks s k = Some (call, held)" for k call held
    using row_kept_sweep [OF sweep(2)] sweep(3) row_lockedI [OF that] by metis
  then show ?thesis
    by (intro locks_ok_keep [OF ok]) (auto simp: sweep(1))
next
  case (claim i io job d')
  have "row_kept (jid (held_job held)) (r_db s) d'" if "r_callbacks s k = Some (call, held)" for k call held
    using row_kept_claim [OF claim(5)] claim(4) row_lockedI [OF that] by blast
  then show ?thesis
    by (intro locks_ok_keep [OF ok]) (auto simp: claim(1))
next
  case (claim_rest i io job p res p')
  have "row_kept (jid (held_job held)) (r_db s) (pl_db p')" if "r_callbacks s k = Some (call, held)" for k call held
    unfolding claim_rest(3) [symmetric]
    by (rule row_kept_claim_rest [OF claim_rest(4)]) (use claim_rest(3,5) row_lockedI [OF that] in auto)
  then show ?thesis
    by (intro locks_ok_keep [OF ok]) (auto simp: claim_rest(1))
qed

lemma locks_ok_reachable: "row_reachable key hmac us sg enq w0 s \<Longrightarrow> locks_ok s"
  by (induction rule: row_reachable.induct) (simp_all add: locks_ok_step, simp add: locks_ok_def row_start_def)

subsection \<open>Refinement\<close>

lemma held_write_whole:
  "callback_begin call d = Inr held \<Longrightarrow> held_write held d = callback_handler call d"
  by (simp add: callback_handler_stages)

lemma db_step_callback:
  assumes "callback_handler call d = (reply, d')" and "validated call"
  shows "db_step d d'"
proof (cases call)
  case (StartCall vs scan gen io r)
  then show ?thesis
    using assms(1) by (cases "start_handler vs scan gen io r d") (auto intro: db_step.start)
next
  case (CompleteCall vs scan io r)
  then show ?thesis
    using assms by (cases "complete_handler vs scan io r d") (auto intro: db_step.complete)
qed

lemma db_step_claim:
  assumes "claim_job now locked d = Inr (job, d')" and "wf_db d"
  shows "db_step d d'"
proof -
  let ?io = "\<lparr>ci_claim = None, ci_locked = locked, ci_now = now, ci_get_repo = None, ci_update = None,
     ci_update_now = now\<rparr>"
  let ?s = "\<lparr>pl_db = d, pl_inflight = 0, pl_dispatched = []\<rparr>"
  obtain repo where r: "get_repo_for_job (jid job) d' = Inr repo"
    by (rule job_repo_found [OF wf_claim_job [OF assms(2,1)] claimed_in_db [OF assms(2,1)]])
  have "pl_db (snd (claim_one (\<lambda>_. []) ?io ?s)) = d'"
    by (simp add: claim_one_stages assms(1) claim_rest_def r)
  then show ?thesis
    using db_step.poll [of "\<lambda>_. []" ?io ?s, OF surjective_pairing] by simp
qed

definition failed_request :: "string \<Rightarrow> complete_body" where
  \<comment> \<open>the callback that reports a failure\<close>
  "failed_request msg = \<lparr>cb_job_id = ''j'', cb_status = ''failed'', cb_error_message = msg,
     cb_snapshot_path = [], cb_zigzag_version = [], cb_size_bytes = 0\<rparr>"

lemma decode_failed_request:
  assumes "valid_utf8 msg" and "length msg \<le> 1000"
  shows "decode_complete (take max_callback_bytes (marshal_complete (failed_request msg))) =
     Some (request_of (failed_request msg))"
proof -
  have "utf8_body (failed_request msg)" using assms(1) by (simp add: utf8_body_def failed_request_def ascii_valid)
  moreover have "length (marshal_complete (failed_request msg)) \<le> max_callback_bytes"
    using length_marshal_complete [of "failed_request msg"] assms(2)
    by (simp add: body_length_def failed_request_def max_callback_bytes_def)
  ultimately show ?thesis by (simp add: decode_complete_marshal clean_utf8_body)
qed

lemma db_step_fail:
  assumes "\<not> finished_row d i" and "msg \<noteq> []" and "valid_utf8 msg" and "length msg \<le> 1000"
  shows "db_step d (update_job_status now i Failed (Some msg) d) \<or> update_job_status now i Failed (Some msg) d = d"
proof (cases "get_job_for_update i d")
  case (Inl e)
  then have "update_job_status now i Failed (Some msg) d = d"
    unfolding update_job_status_def by (intro update_jobs_none) (auto simp: get_job_for_update_def select_one_Inl)
  then show ?thesis ..
next
  case (Inr job)
  have nt: "\<not> is_terminal (jstatus job)" "jid job = i"
    using Inr assms(1) by (auto simp: get_job_for_update_def finished_row_def dest: select_one_Inr)
  let ?req = "request_of (failed_request msg)"
  let ?vs = "\<lambda>q. if q = ?req then [] else [\<lparr>fe_field = [], fe_tag = [], fe_param = []\<rparr>]"
  let ?io = "\<lparr>cio_begin = None, cio_get = None, cio_update = None, cio_insert = None, cio_commit = Committed,
     cio_now = now, cio_new_id = 0\<rparr>"
  let ?r = "ex_request\<lparr>rq_body := marshal_complete (failed_request msg), rq_job_id := Some ''j''\<rparr>"
  have v: "complete_validator ?vs"
    using assms(2) by (auto simp: complete_validator_def failed_request_def request_of_def)
  have "complete_handler ?vs (\<lambda>_. Some i) ?io ?r d =
      (JsonReply 200 ''failed'', update_job_status now i Failed (Some msg) d)"
    using nt assms(2) Inr decode_failed_request [OF assms(3,4)]
    by (simp add: complete_handler_def)
       (simp add: validate_struct_def job_id_from_context_def complete_locked_def
        complete_update_def failed_request_def request_of_def job_status_of_string_def)
  then show ?thesis using db_step.complete [OF v] by blast
qed

lemma claim_rest_db:
  assumes "claim_rest us io job p = (res, p')"
  obtains "pl_db p' = pl_db p"
  | "pl_db p' = update_job_status (ci_update_now io) (jid job) Failed (Some ''repo not found for job'') (pl_db p)"
  using assms by (auto simp: claim_rest_def with_fault_def split: sum.splits option.splits)

definition late_write :: "rows \<Rightarrow> rows \<Rightarrow> bool" where
  \<comment> \<open>the failure path of a claim writes over the row of a job that has finished\<close>
  "late_write s s' \<longleftrightarrow> r_overwritten s' \<and>
     (\<exists>i io job. r_claims s i = Some (io, job) \<and> finished_row (r_db s) (jid job) \<and>
        r_conc s' = set_db (update_job_status (ci_update_now io) (jid job) Failed (Some ''repo not found for job'') (r_db s))
          (r_conc s))"

lemma row_step_conc:
  assumes "row_step key hmac us sg enq s s'" and "locks_ok s" and wf: "wf_db (r_db s)"
  shows "conc_step key hmac us sg enq (r_conc s) (r_conc s') \<or> r_conc s' = r_conc s \<or> late_write s s'"
proof -
  have step: "conc_step key hmac us sg enq (r_conc s) (set_db d' (r_conc s)) \<or> set_db d' (r_conc s) = r_conc s"
    if "db_step (r_db s) d' \<or> d' = r_db s" for d'
    using that by (auto intro: conc_step.other)
  show ?thesis
    using assms(1)
  proof (cases rule: row_step.cases)
    case (pushing c')
    then show ?thesis by (auto intro: conc_step.pushing push_step_unlocked)
  next
    case (cb_begin i call held)
    then show ?thesis by simp
  next
    case (cb_write i call held reply d')
    note b = locks_ok_begin [OF assms(2) cb_write(2)]
    have "db_step (r_db s) d'"
      by (rule db_step_callback [of call _ reply]) (use b held_write_whole [of call "r_db s" held] cb_write(3) in simp_all)
    then show ?thesis using step [of d'] cb_write(1) by auto
  next
    case (sweep fault now r reply' d')
    then show ?thesis using step [of d'] db_step.sweep [OF sweep(2)] sweep(1) by auto
  next
    case (claim i io job d')
    then show ?thesis using step [of d'] db_step_claim [OF claim(5) wf] claim(1) by auto
  next
    case (claim_rest i io job p res p')
    show ?thesis
    proof (cases "pl_db p' = r_db s")
      case True
      then show ?thesis using claim_rest(1) by simp
    next
      case wrote: False
      have d': "pl_db p' = update_job_status (ci_update_now io) (jid job) Failed (Some ''repo not found for job'') (r_db s)"
        by (rule claim_rest_db [OF claim_rest(4)]) (use wrote claim_rest(3) in simp_all)
      show ?thesis
      proof (cases "finished_row (r_db s) (jid job)")
        case True
        then have "late_write s s'"
          unfolding late_write_def using claim_rest(1,2) d' wrote by (intro conjI exI [of _ i] exI [of _ io] exI [of _ job]) auto
        then show ?thesis by simp
      next
        case False
        then have "db_step (r_db s) (pl_db p')"
          using db_step_fail [OF False, of "''repo not found for job''" "ci_update_now io"] wrote
          by (simp add: d' ascii_valid)
        then show ?thesis using step [of "pl_db p'"] claim_rest(1) by auto
      qed
    qed
  qed
qed

lemma row_refines:
  assumes "row_reachable key hmac us sg enq w0 s" and "sys_inv (w_db w0)" and "\<not> r_overwritten s"
  shows "conc_reachable key hmac us sg enq w0 (r_conc s)"
  using assms(1,3)
proof (induction rule: row_reachable.induct)
  case init
  then show ?case by (simp add: row_start_def conc_reachable.init)
next
  case (step s s')
  have "\<not> r_overwritten s" using step(2,4) by (cases rule: row_step.cases) auto
  then have c: "conc_reachable key hmac us sg enq w0 (r_conc s)" using step(3) by simp
  have "wf_db (r_db s)" using conc_sys_reachable [OF c assms(2)] by (simp add: sys_inv_def)
  then show ?case
    using row_step_conc [OF step(2) locks_ok_reachable [OF step(1)]] step(4) conc_reachable.step [OF c] c
    by (auto simp: late_write_def)
qed

lemma statements_match:
  assumes "row_reachable key hmac us sg enq w0 s" and "sys_inv (w_db w0)" and "\<not> r_overwritten s"
  shows "wf_db (r_db s) \<and> one_queued (r_db s) \<and> snapshots_match (r_db s)"
  using conc_sys_reachable [OF row_refines [OF assms] assms(2)] by (simp add: sys_inv_def)

subsection \<open>Properties\<close>

definition ex_late_io :: claim_io where
  "ex_late_io = ex_claim_io\<lparr>ci_get_repo := Some ''timeout''\<rparr>"

definition ex_complete_call :: callback where
  "ex_complete_call = CompleteCall ex_vstruct ex_scan ex_complete_io (ex_callback ''succeeded'')"

definition ex_claimed :: job where
  "ex_claimed = claimed 900 (ex_job 3 Queued ''a'' 20)"

abbreviation ex_row_reachable :: "rows \<Rightarrow> bool" where
  "ex_row_reachable \<equiv> row_reachable ex_key ex_hmac ex_uuid ex_signer NoopEnqueuer (ex_world [ex_job 3 Queued ''a'' 20])"

definition ex_rows :: "db \<Rightarrow> (callback \<times> held) option \<Rightarrow> rows" where
  \<comment> \<open>the poller has claimed the job of the sample database and not yet read its repository\<close>
  "ex_rows d cb = \<lparr>r_conc = \<lparr>c_world = \<lparr>w_db = d, w_queue = []\<rparr>, c_pushes = (\<lambda>_. None)\<rparr>,
     r_callbacks = (\<lambda>_. None)(0 := cb), r_claims = (\<lambda>_. None)(0 \<mapsto> (ex_late_io, ex_claimed)), r_overwritten = False\<rparr>"

lemma ex_rows_simps [simp]:
  "r_db (ex_rows d cb) = d" "r_callbacks (ex_rows d cb) 0 = cb" "r_claims (ex_rows d cb) 0 = Some (ex_late_io, ex_claimed)"
  "r_overwritten (ex_rows d cb) = False"
  "row_locked (ex_rows d cb) u \<longleftrightarrow> (\<exists>call held. cb = Some (call, held) \<and> jid (held_job held) = u)"
  by (auto simp: ex_rows_def row_locked_def split: if_splits)

lemma ex_claim_job:
  "claim_job 900 {} (ex_db [ex_job 3 Queued ''a'' 20]) = Inr (ex_claimed, ex_db [ex_claimed])"
  by (simp add: claim_job_def ex_claimed_def claimed_def update_jobs_def update_where_def ex_db_def)

lemma ex_claimed_simps [simp]: "jid ex_claimed = 3" "jstatus ex_claimed = Running" "wf_db (ex_db [ex_claimed])"
  using wf_claim_job [OF _ ex_claim_job] by (simp_all add: ex_claimed_def)

lemma ex_rows_claimed: "ex_row_reachable (ex_rows (ex_db [ex_claimed]) None)"
proof -
  let ?s = "row_start (ex_world [ex_job 3 Queued ''a'' 20])"
  have eq: "ex_rows (ex_db [ex_claimed]) None =
      ?s\<lparr>r_conc := set_db (ex_db [ex_claimed]) (r_conc ?s), r_claims := (r_claims ?s)(0 \<mapsto> (ex_late_io, ex_claimed))\<rparr>"
    by (simp add: ex_rows_def row_start_def ex_world_def)
  show ?thesis
    unfolding eq
    by (rule row_reachable.step [OF row_reachable.init], rule row_step.claim)
       (simp_all add: row_start_def row_locked_def ex_late_io_def ex_claim_io_def ex_claim_job)
qed

abbreviation ex_row_step :: "rows \<Rightarrow> rows \<Rightarrow> bool" where
  "ex_row_step \<equiv> row_step ex_key ex_hmac ex_uuid ex_signer NoopEnqueuer"

lemma ex_begin_step:
  "ex_row_step (ex_rows (ex_db [ex_claimed]) None) (ex_rows (ex_db [ex_claimed])
     (Some (ex_complete_call, HoldComplete ex_complete_io (ex_complete_req ''succeeded'') ex_claimed)))"
proof -
  let ?s = "ex_rows (ex_db [ex_claimed]) None"
  let ?held = "HoldComplete ex_complete_io (ex_complete_req ''succeeded'') ex_claimed"
  have eq: "ex_rows (ex_db [ex_claimed]) (Some (ex_complete_call, ?held)) =
      ?s\<lparr>r_callbacks := (r_callbacks ?s)(0 \<mapsto> (ex_complete_call, ?held))\<rparr>"
    by (simp add: ex_rows_def)
  show ?thesis
    unfolding eq
    by (rule row_step.cb_begin)
       (simp_all add: ex_complete_call_def complete_begin_def validate_struct_def get_job_for_update_def select_one_def)
qed

lemma ex_rows_begun:
  "ex_row_reachable (ex_rows (ex_db [ex_claimed])
     (Some (ex_complete_call, HoldComplete ex_complete_io (ex_complete_req ''succeeded'') ex_claimed)))"
  by (rule row_reachable.step [OF ex_rows_claimed ex_begin_step])

lemma ex_write_step:
  "held_write (HoldComplete ex_complete_io (ex_complete_req ''succeeded'') ex_claimed) (ex_db [ex_claimed]) = (reply, d) \<Longrightarrow>
   ex_row_step (ex_rows (ex_db [ex_claimed])
     (Some (ex_complete_call, HoldComplete ex_complete_io (ex_complete_req ''succeeded'') ex_claimed))) (ex_rows d None)"
  (is "_ \<Longrightarrow> ex_row_step ?s _")
proof -
  assume w: "held_write (HoldComplete ex_complete_io (ex_complete_req ''succeeded'') ex_claimed) (ex_db [ex_claimed]) = (reply, d)"
  have eq: "ex_rows d None = ?s\<lparr>r_conc := set_db d (r_conc ?s), r_callbacks := (r_callbacks ?s)(0 := None)\<rparr>"
    by (simp add: ex_rows_def)
  show ?thesis
    unfolding eq
    by (rule row_step.cb_write [where call = ex_complete_call and reply = reply
          and held = "HoldComplete ex_complete_io (ex_complete_req ''succeeded'') ex_claimed"]) (use w in simp_all)
qed

lemma ex_rows_completed:
  obtains d x t where "ex_row_reachable (ex_rows d None)"
    and "rtranclp ex_row_step (ex_rows (ex_db [ex_claimed]) None) (ex_rows d None)" and "jobs d = [x]" and "jid x = 3" and "jstatus x = Succeeded"
    and "snapshots d = [t]" and "sjob t = 3"
proof -
  obtain reply d where w: "held_write (HoldComplete ex_complete_io (ex_complete_req ''succeeded'') ex_claimed)
      (ex_db [ex_claimed]) = (reply, d)" by fastforce
  have r: "ex_row_reachable (ex_rows d None)"
    by (rule row_reachable.step [OF ex_rows_begun ex_write_step [OF w]])
  have run: "rtranclp ex_row_step (ex_rows (ex_db [ex_claimed]) None) (ex_rows d None)"
    using ex_begin_step ex_write_step [OF w] by (rule converse_rtranclp_into_rtranclp [OF _ r_into_rtranclp])
  show ?thesis
    by (rule that [OF r run])
       (use w complete_success [of "ex_db [ex_claimed]" ex_claimed "ex_callback ''succeeded''"
          "ex_complete_req ''succeeded''" ex_vstruct ex_scan ex_complete_io]
          complete_handler_locked [of "ex_db [ex_claimed]" "ex_callback ''succeeded''"
          "ex_complete_req ''succeeded''" ex_vstruct ex_scan ex_claimed ex_complete_io] in \<open>auto\<close>)
qed

text \<open>
  C7: The row locks are enough: with every transaction interleaved statement by statement, a callback
  that holds its row's lock writes and answers exactly what the whole handler would, executed at that moment,
  whatever other callbacks, pushes, claims and sweeps have committed since it read the row.
\<close>

theorem callback_atomic:
  assumes "row_reachable key hmac us sg enq w0 s" and "r_callbacks s i = Some (call, held)"
  shows "held_write held (r_db s) = callback_handler call (r_db s)"
  using held_write_whole locks_ok_begin [OF locks_ok_reachable [OF assms(1)] assms(2)] by blast

theorem callback_atomic_witness:
  "held_write (HoldComplete ex_complete_io (ex_complete_req ''succeeded'') ex_claimed) (ex_db [ex_claimed]) =
     callback_handler ex_complete_call (ex_db [ex_claimed])"
  using callback_atomic [OF ex_rows_begun, of 0] by simp

text \<open>
  C6: The system of statements refines the system of whole handlers: unless the failure path of a claim has
  written over a finished job, every state it reaches is reached by whole callbacks, sweeps and claims
  interleaved with the stages of pushes, so the schema invariant, at most one queued job per branch and
  the correspondence of jobs and snapshots hold in it.
\<close>

theorem statements_refine_handlers:
  assumes "row_reachable key hmac us sg enq w0 s" and "sys_inv (w_db w0)" and "\<not> r_overwritten s"
  shows "conc_reachable key hmac us sg enq w0 (r_conc s) \<and> wf_db (r_db s) \<and> one_queued (r_db s) \<and>
     snapshots_match (r_db s)"
  using row_refines [OF assms] statements_match [OF assms] by simp

theorem statements_refine_handlers_witness:
  "\<exists>d x. jobs d = [x] \<and> jstatus x = Succeeded \<and> snapshots_match d"
proof (rule ex_rows_completed)
  fix d :: db and x :: job and t :: snapshot
  assume d: "ex_row_reachable (ex_rows d None)" "jobs d = [x]" "jstatus x = Succeeded"
  have "snapshots_match (r_db (ex_rows d None))"
    using statements_refine_handlers [OF d(1)] by simp
  then show ?thesis using d(2,3) by auto
qed

text \<open>
  C33: The exception is reachable: \<open>claimOne\<close> is three statements without a transaction, and the last has no
  condition on the status.  If reading the repository fails after the claimed job has succeeded, the
  poller marks the job failed although its snapshot is there, which the job's order forbids.
\<close>

theorem late_claim_failure_overwrites_success:
  assumes "row_reachable key hmac us sg enq w0 s" and "sys_inv (w_db w0)" and "\<not> r_overwritten s"
    and "r_claims s i = Some (io, job)" and "\<not> row_locked s (jid job)"
    and "x \<in> set (jobs (r_db s))" and "jid x = jid job" and "jstatus x = Succeeded"
    and "ci_get_repo io = Some m" and "ci_update io = None"
  shows "\<exists>s'. row_step key hmac us sg enq s s' \<and> snapshots (r_db s') = snapshots (r_db s) \<and>
     (\<exists>y \<in> set (jobs (r_db s')). jid y = jid job \<and> jstatus y = Failed) \<and> \<not> snapshots_match (r_db s')"
proof -
  let ?p = "\<lparr>pl_db = r_db s, pl_inflight = 0, pl_dispatched = []\<rparr>"
  let ?d = "update_job_status (ci_update_now io) (jid job) Failed (Some ''repo not found for job'') (r_db s)"
  have rest: "claim_rest us io job ?p = (Some (RepoFailed (OtherErr m)), ?p\<lparr>pl_db := ?d\<rparr>)"
    by (simp add: claim_rest_def assms(9,10) with_fault_def)
  have fail: "jstatus y = Failed" if "y \<in> set (jobs ?d)" "jid y = jid job" for y
    using that by (auto simp: update_job_status_def jobs_update_jobs touch_def split: if_splits)
  have snaps: "snapshots ?d = snapshots (r_db s)" by (simp add: update_job_status_def)
  have "jid x \<in> jid ` set (jobs ?d)"
    using assms(6) by (force simp: update_job_status_def update_jobs_def image_update_where)
  then obtain y where y: "y \<in> set (jobs ?d)" "jid y = jid job" using assms(7) by auto
  obtain t where t: "t \<in> set (snapshots ?d)" "sjob t = jid job"
    using statements_match [OF assms(1-3)] assms(6-8) snaps by (auto simp: snapshots_match_def)
  then have "\<not> snapshots_match ?d" using fail by (fastforce simp: snapshots_match_def)
  then show ?thesis
    using row_step.claim_rest [OF assms(4) _ rest] assms(5) snaps y fail [OF y] by fastforce
qed

theorem late_claim_failure_overwrites_success_witness:
  "\<exists>s. ex_row_reachable s \<and> \<not> snapshots_match (r_db s)"
proof (rule ex_rows_completed)
  fix d :: db and x :: job and t :: snapshot
  assume d: "ex_row_reachable (ex_rows d None)" "jobs d = [x]" "jid x = 3" "jstatus x = Succeeded"
  obtain s' where s': "row_step ex_key ex_hmac ex_uuid ex_signer NoopEnqueuer (ex_rows d None) s'"
      "\<not> snapshots_match (r_db s')"
    using late_claim_failure_overwrites_success [OF d(1), of 0 ex_late_io ex_claimed x "''timeout''"] d(2-4)
    by (auto simp: ex_late_io_def ex_claim_io_def)
  then show ?thesis
    using row_reachable.step [OF d(1) s'(1)] by (intro exI [of _ s'] conjI)
qed

end
