(* ===== verification/Dispatch.thy ===== *)
theory Dispatch
  imports RowLocks
begin

text \<open>
  What is in the task queue while the statements of all transactions interleave: every task is for a job of the
  table and carries a token of the API's signer for it, so a worker that takes a task can start its job.

  \<open>row_push\<close> runs the stages of one push without interruption: \<open>HandlePush\<close> as a whole is one of the
  interleavings of \<open>row_step\<close>.
\<close>

definition job_ids :: "db \<Rightarrow> uuid set" where
  "job_ids d = jid ` set (jobs d)"

definition task_for :: "(string \<Rightarrow> string \<Rightarrow> string) \<Rightarrow> (uuid \<Rightarrow> string) \<Rightarrow> signer \<Rightarrow> uuid set \<Rightarrow> cloud_task \<Rightarrow> bool" where
  \<comment> \<open>the task runs one of these jobs, with a token the signer has issued for it\<close>
  "task_for hmac us sg ids x \<longleftrightarrow>
     (\<exists>i \<in> ids. task_job_id x = us i \<and> (\<exists>clock. task_job_token x = signer_sign hmac sg clock (us i)))"

definition tasks_ok :: "(string \<Rightarrow> string \<Rightarrow> string) \<Rightarrow> (uuid \<Rightarrow> string) \<Rightarrow> signer \<Rightarrow> world \<Rightarrow> bool" where
  "tasks_ok hmac us sg w \<longleftrightarrow> (\<forall>x \<in> set (w_queue w). task_for hmac us sg (job_ids (w_db w)) x)"

lemma task_for_mono: "task_for hmac us sg ids x \<Longrightarrow> ids \<subseteq> ids' \<Longrightarrow> task_for hmac us sg ids' x"
  unfolding task_for_def by blast

lemma tasks_ok_mono:
  "tasks_ok hmac us sg w \<Longrightarrow> job_ids (w_db w) \<subseteq> job_ids d \<Longrightarrow> tasks_ok hmac us sg (w\<lparr>w_db := d\<rparr>)"
  unfolding tasks_ok_def using task_for_mono by fastforce

subsection \<open>No step removes a job\<close>

lemma job_ids_update: "(\<And>x. jid (f x) = jid x) \<Longrightarrow> job_ids (update_jobs now P f d) = job_ids d"
  by (simp add: job_ids_def update_jobs_def image_update_where)

lemma job_ids_simps [simp]:
  "job_ids (update_job_status now i st msg d) = job_ids d"
  "job_ids (update_job_commit_sha now i c d) = job_ids d"
  "job_ids (complete_update io req job status d) = job_ids d"
  by (simp_all add: update_job_status_def update_job_commit_sha_def complete_update_def job_ids_update)

lemma job_ids_cong: "jobs d' = jobs d \<Longrightarrow> job_ids d' = job_ids d"
  by (simp add: job_ids_def)

lemma job_ids_held:
  assumes "held_write held d = (reply, d')"
  shows "job_ids d' = job_ids d"
proof (cases held)
  case (HoldStart gen io job)
  have "job_ids (snd (start_locked gen io job d)) = job_ids d"
    by (cases rule: start_locked_cases [where gen = gen and io = io and job = job and d = d]) simp_all
  then show ?thesis using assms HoldStart by (auto simp: map_prod_def split: prod.splits)
next
  case (HoldComplete io req job)
  have "job_ids (snd (complete_locked io req job d)) = job_ids d"
  proof (cases rule: complete_locked_cases [where io = io and req = req and job = job and d = d])
    case (completed status d2 reply)
    have "jobs d2 = jobs (complete_update io req job status d)"
      using completed(3) by (auto simp: complete_insert_def insert_snapshot_Inr split: if_splits)
    then show ?thesis using completed(4) job_ids_cong [of d2] by simp
  qed simp_all
  then show ?thesis using assms HoldComplete by (auto simp: map_prod_def split: prod.splits)
qed

lemma job_ids_sweep: "timeout_handler fault now r d = (reply, d') \<Longrightarrow> job_ids d' = job_ids d"
  by (cases fault)
     (auto simp: timeout_handler_def timeout_running_jobs_def with_fault_def Let_def job_ids_update)

lemma job_ids_claim: "claim_job now locked d = Inr (j, d') \<Longrightarrow> job_ids d' = job_ids d"
  by (auto simp: claim_job_def Let_def job_ids_update split: list.splits)

lemma job_ids_claim_rest: "claim_rest us io job p = (res, p') \<Longrightarrow> job_ids (pl_db p') = job_ids (pl_db p)"
  by (erule claim_rest_db) simp_all

subsection \<open>The task of a push\<close>

lemma create_job_ids: "create_job now i r b c dl d = Inr (j, d') \<Longrightarrow> jid j = i \<and> job_ids d' = insert i (job_ids d)"
  by (auto simp: create_job_Inr job_ids_def)

lemma tasks_ok_push_write:
  assumes "push_write hmac us sg enq (io, ev, dl) repo found w = (res, w')" and ok: "tasks_ok hmac us sg w"
  shows "tasks_ok hmac us sg w'"
proof (cases found)
  case (Some j)
  then have "\<exists>d. w' = w\<lparr>w_db := d\<rparr> \<and> job_ids d = job_ids (w_db w)"
    using assms(1)
    by (cases "pio_update io"; cases "pio_commit io") (auto simp: push_write_def with_fault_def Let_def intro: exI [of _ "w_db w"])
  then show ?thesis using tasks_ok_mono [OF ok] by auto
next
  case None
  show ?thesis
  proof (cases "with_fault (pio_create io)
      (create_job (pio_now io) (pio_new_id io) (rid repo) (ev_branch ev) (ev_commit ev) dl (w_db w))")
    case (Inl err)
    then show ?thesis using assms None by (auto simp: push_write_def Let_def split: if_splits)
  next
    case (Inr jd)
    obtain j d1 where jd: "jd = (j, d1)" by (cases jd)
    note ids = create_job_ids [of "pio_now io" "pio_new_id io" "rid repo" "ev_branch ev" "ev_commit ev" dl "w_db w" j d1]
    have ids: "jid j = pio_new_id io" "job_ids d1 = insert (pio_new_id io) (job_ids (w_db w))"
      using ids Inr jd by (simp_all add: with_fault_Inr)
    have ok1: "tasks_ok hmac us sg (w\<lparr>w_db := d1\<rparr>)"
      by (rule tasks_ok_mono [OF ok]) (auto simp: ids(2))
    show ?thesis
    proof (cases "pio_commit io")
      case Committed
      let ?q = "snd (enqueue enq (pio_enqueue io) (us (jid j)) (signer_sign hmac sg (pio_clock io) (us (jid j))) (w_queue w))"
      have w': "w' = w\<lparr>w_db := d1, w_queue := ?q\<rparr>"
        using assms(1) None Inr jd Committed by (simp add: push_write_def Let_def)
      have "task_for hmac us sg (job_ids d1) x" if "x \<in> set ?q" for x
        using tasks.enq_task [OF that] ok1 ids by (auto simp: tasks_ok_def task_for_def)
      then show ?thesis by (simp add: w' tasks_ok_def)
    qed (use assms None Inr jd ok1 in \<open>simp_all add: push_write_def Let_def\<close>)
  qed
qed

lemma tasks_ok_push_step:
  assumes "push_step locked key hmac us sg enq c c'" and "tasks_ok hmac us sg (c_world c)"
  shows "tasks_ok hmac us sg (c_world c')"
  using assms(1)
proof (cases rule: push_step.cases)
  case (act i call repo found res w')
  obtain io ev dl where call: "call = (io, ev, dl)" by (cases call)
  show ?thesis using tasks_ok_push_write [OF act(4) [unfolded call] assms(2)] act(1) by simp
qed (use assms(2) in simp_all)

lemma tasks_ok_row_step:
  assumes "row_step key hmac us sg enq s s'" and ok: "tasks_ok hmac us sg (c_world (r_conc s))"
  shows "tasks_ok hmac us sg (c_world (r_conc s'))"
  using assms(1)
proof (cases rule: row_step.cases)
  case (pushing c')
  then show ?thesis using tasks_ok_push_step [OF pushing(2) ok] by simp
next
  case cb_begin
  then show ?thesis using ok by simp
next
  case (cb_write i call held reply d')
  then show ?thesis using tasks_ok_mono [OF ok] job_ids_held [OF cb_write(3)] by simp
next
  case (sweep fault now r reply' d')
  then show ?thesis using tasks_ok_mono [OF ok] job_ids_sweep [OF sweep(2)] by simp
next
  case (claim i io job d')
  then show ?thesis using tasks_ok_mono [OF ok] job_ids_claim [OF claim(5)] by simp
next
  case (claim_rest i io job p res p')
  then show ?thesis using tasks_ok_mono [OF ok] job_ids_claim_rest [OF claim_rest(4)] by simp
qed

lemma tasks_ok_reachable:
  "row_reachable key hmac us sg enq w0 s \<Longrightarrow> tasks_ok hmac us sg w0 \<Longrightarrow> tasks_ok hmac us sg (c_world (r_conc s))"
  by (induction rule: row_reachable.induct) (simp add: row_start_def, blast intro: tasks_ok_row_step)

subsection \<open>No step registers a repository\<close>

lemma repositories_held: "held_write held d = (reply, d') \<Longrightarrow> repositories d' = repositories d"
proof (cases held)
  case (HoldStart gen io job)
  assume "held_write held d = (reply, d')"
  moreover have "repositories (snd (start_locked gen io job d)) = repositories d"
    by (cases rule: start_locked_cases [where gen = gen and io = io and job = job and d = d]) simp_all
  ultimately show ?thesis using HoldStart by (auto simp: map_prod_def split: prod.splits)
next
  case (HoldComplete io req job)
  assume "held_write held d = (reply, d')"
  moreover have "repositories (snd (complete_locked io req job d)) = repositories d"
  proof (cases rule: complete_locked_cases [where io = io and req = req and job = job and d = d])
    case (completed status d2 reply)
    have "repositories d2 = repositories d"
      using completed(3) by (auto simp: complete_insert_def insert_snapshot_Inr complete_update_def split: if_splits)
    then show ?thesis using completed(4) by simp
  qed simp_all
  ultimately show ?thesis using HoldComplete by (auto simp: map_prod_def split: prod.splits)
qed

lemma repositories_sweep: "timeout_handler fault now r d = (reply, d') \<Longrightarrow> repositories d' = repositories d"
  by (cases fault) (auto simp: timeout_handler_def timeout_running_jobs_def with_fault_def Let_def)

lemma repositories_push_write:
  assumes "push_write hmac us sg enq (io, ev, dl) repo found w = (res, w')"
  shows "repositories (w_db w') = repositories (w_db w)"
proof (cases found)
  case (Some j)
  then show ?thesis
    using assms by (cases "pio_update io"; cases "pio_commit io") (auto simp: push_write_def with_fault_def Let_def)
next
  case None
  show ?thesis
  proof (cases "with_fault (pio_create io)
      (create_job (pio_now io) (pio_new_id io) (rid repo) (ev_branch ev) (ev_commit ev) dl (w_db w))")
    case (Inl err)
    then show ?thesis using assms None by (auto simp: push_write_def Let_def split: if_splits)
  next
    case (Inr jd)
    obtain j d1 where jd: "jd = (j, d1)" by (cases jd)
    have "repositories d1 = repositories (w_db w)" using Inr jd by (auto simp: with_fault_Inr create_job_Inr)
    then show ?thesis
      using assms None Inr jd by (cases "pio_commit io") (auto simp: push_write_def Let_def)
  qed
qed

lemma repositories_push_step:
  assumes "push_step locked key hmac us sg enq c c'"
  shows "repositories (w_db (c_world c')) = repositories (w_db (c_world c))"
  using assms
proof (cases rule: push_step.cases)
  case (act i call repo found res w')
  obtain io ev dl where "call = (io, ev, dl)" by (cases call)
  then show ?thesis using repositories_push_write act(1,4) by auto
qed simp_all

lemma repositories_row_step:
  assumes "row_step key hmac us sg enq s s'"
  shows "repositories (r_db s') = repositories (r_db s)"
  using assms
proof (cases rule: row_step.cases)
  case (pushing c')
  then show ?thesis using repositories_push_step [OF pushing(2)] by simp
next
  case (cb_write i call held reply d')
  then show ?thesis using repositories_held [OF cb_write(3)] by simp
next
  case (sweep fault now r reply' d')
  then show ?thesis using repositories_sweep [OF sweep(2)] by simp
next
  case (claim i io job d')
  then show ?thesis using repositories_claim_job [OF claim(5)] by simp
next
  case (claim_rest i io job p res p')
  have "repositories (pl_db p') = repositories (pl_db p)" by (rule claim_rest_db [OF claim_rest(4)]) simp_all
  then show ?thesis using claim_rest(1,3) by simp
qed simp

lemma repositories_reachable:
  "row_reachable key hmac us sg enq w0 s \<Longrightarrow> repositories (r_db s) = repositories (w_db w0)"
  by (induction rule: row_reachable.induct) (simp_all add: row_start_def repositories_row_step)

subsection \<open>A whole push\<close>

lemma push_reach:
  assumes "row_reachable key hmac us sg enq w0 s" and "push_step (row_locked s) key hmac us sg enq (r_conc s) c'"
    and "s' = s\<lparr>r_conc := c'\<rparr>"
  shows "row_reachable key hmac us sg enq w0 s'"
  using row_reachable.step [OF assms(1) row_step.pushing [OF assms(2)]] assms(3) by simp

lemma row_push:
  fixes s :: rows
  defines "c \<equiv> r_conc s"
  assumes r: "row_reachable key hmac us sg enq w0 s" and free: "\<And>k. c_pushes c k = None" and rows: "\<And>u. \<not> row_locked s u"
    and look: "push_lookup io ev (w_db (c_world c)) = Inr repo" and lock: "pio_lock io = None"
    and read: "push_read io ev repo (w_db (c_world c)) = Inr found"
  shows "row_reachable key hmac us sg enq w0
     (s\<lparr>r_conc := c\<lparr>c_world := snd (handle_push hmac us sg enq io ev dl (c_world c))\<rparr>\<rparr>)"
proof -
  let ?at = "\<lambda>pc. s\<lparr>r_conc := c\<lparr>c_pushes := (c_pushes c)(0 \<mapsto> ((io, ev, dl), pc))\<rparr>\<rparr>"
  have rows': "row_locked (?at pc) = row_locked s" for pc by (simp add: row_locked_def fun_eq_iff)
  have s1: "row_reachable key hmac us sg enq w0 (?at (Looked repo))"
    by (rule push_reach [OF r push_step.look [of _ 0]]) (simp_all add: free look c_def [symmetric])
  have s2: "row_reachable key hmac us sg enq w0 (?at (Locked repo))"
    by (rule push_reach [OF s1 push_step.lock [of _ 0]]) (use lock free in simp_all)
  have s3: "row_reachable key hmac us sg enq w0 (?at (Decided repo found))"
    by (rule push_reach [OF s2 push_step.read [of _ 0]]) (use read in simp_all)
  obtain res w' where w': "push_write hmac us sg enq (io, ev, dl) repo found (c_world c) = (res, w')" by fastforce
  then have whole: "handle_push hmac us sg enq io ev dl (c_world c) = (res, w')"
    by (simp add: handle_push_stages look lock read)
  have "(c_pushes c)(0 := None) = c_pushes c" using free by auto
  then have same: "c\<lparr>c_world := w'\<rparr> = c\<lparr>c_world := w', c_pushes := (c_pushes c)(0 := None)\<rparr>" by simp
  show ?thesis
    unfolding whole snd_conv
    by (subst same, rule push_reach [OF s3 push_step.act [of _ 0]]) (use w' rows in \<open>simp_all add: rows'\<close>)
qed

subsection \<open>Properties\<close>

text \<open>
  C11: However the statements of pushes, callbacks, sweeps and claims interleave, and whatever calls fail, every
  task in the queue is for a job that exists and carries a token the API has signed for that job: a
  task is never dispatched before its job is committed, and never for another job.
\<close>

theorem tasks_name_jobs:
  assumes "row_reachable key hmac us sg enq w0 s" and "w_queue w0 = []" and "x \<in> set (w_queue (c_world (r_conc s)))"
  shows "\<exists>j \<in> set (jobs (r_db s)). task_job_id x = us (jid j) \<and>
     (\<exists>clock. task_job_token x = signer_sign hmac sg clock (us (jid j)))"
proof -
  have "tasks_ok hmac us sg w0" using assms(2) by (simp add: tasks_ok_def)
  then show ?thesis
    using tasks_ok_reachable [OF assms(1)] assms(3) by (auto simp: tasks_ok_def task_for_def job_ids_def)
qed

theorem tasks_name_jobs_witness:
  "\<exists>w x. w = snd (handle_push ex_hmac ex_uuid ex_signer (CloudTasksEnqueuer ex_cfg) (ex_io 9 100) (ex_event ''b'') ''d'' (ex_world [])) \<and>
     x \<in> set (w_queue w) \<and> (\<exists>j \<in> set (jobs (w_db w)). task_job_id x = ex_uuid (jid j))"
proof -
  let ?w = "snd (handle_push ex_hmac ex_uuid ex_signer (CloudTasksEnqueuer ex_cfg) (ex_io 9 100) (ex_event ''b'') ''d'' (ex_world []))"
  let ?s = "row_start (ex_world [])"
  have "row_reachable ex_key ex_hmac ex_uuid ex_signer (CloudTasksEnqueuer ex_cfg) (ex_world [])
      (?s\<lparr>r_conc := (r_conc ?s)\<lparr>c_world := snd (handle_push ex_hmac ex_uuid ex_signer (CloudTasksEnqueuer ex_cfg)
         (ex_io 9 100) (ex_event ''b'') ''d'' (c_world (r_conc ?s)))\<rparr>\<rparr>)"
    by (rule row_push [OF row_reachable.init])
       (simp_all add: row_start_def row_locked_def push_lookup_def push_read_def ex_io_def get_active_jobs_for_branch_def)
  then have r: "row_reachable ex_key ex_hmac ex_uuid ex_signer (CloudTasksEnqueuer ex_cfg) (ex_world [])
      (?s\<lparr>r_conc := (r_conc ?s)\<lparr>c_world := ?w\<rparr>\<rparr>)" by (simp add: row_start_def)
  have "length (w_queue ?w) = 1"
    by (simp add: handle_push_def Let_def ex_io_def get_active_jobs_for_branch_def create_job_def enqueue_defs)
  then obtain x where x: "x \<in> set (w_queue ?w)" by (cases "w_queue ?w") auto
  have "\<exists>j \<in> set (jobs (w_db ?w)). task_job_id x = ex_uuid (jid j)"
    using tasks_name_jobs [OF r, of x] x by auto
  with x show ?thesis by blast
qed

text \<open>
  C38: Nothing registers a repository: no operation of the system adds one (the installation callback only
  answers), so in every state it reaches the pushes of a repository that was not in the database at the start
  answer success and change nothing.
\<close>

theorem unregistered_push_ignored:
  assumes "row_reachable key hmac us sg enq w0 s"
    and "\<And>repo. repo \<in> set (repositories (w_db w0)) \<Longrightarrow> rgithub_id repo \<noteq> ev_repo_id ev"
    and "pio_begin io = None" and "pio_get_repo io = None"
  shows "handle_push hmac us sg enq io ev dl (c_world (r_conc s)) = (None, c_world (r_conc s))"
proof -
  have "get_repo_by_github_id (ev_repo_id ev) (r_db s) = Inl NoRows"
    using assms(2) repositories_reachable [OF assms(1)] by (simp add: get_repo_by_github_id_def select_one_Inl)
  then show ?thesis
    using assms(3,4) by (simp add: handle_push_stages push_lookup_def)
qed

theorem unregistered_push_ignored_witness:
  "handle_push ex_hmac ex_uuid ex_signer NoopEnqueuer (ex_io 9 100) ((ex_event ''b'')\<lparr>ev_repo_id := 8\<rparr>) ''d''
     (c_world (r_conc (ex_rows (ex_db [ex_claimed]) None))) =
   (None, c_world (r_conc (ex_rows (ex_db [ex_claimed]) None)))"
  by (rule unregistered_push_ignored [OF ex_rows_claimed]) (auto simp: ex_repo_def ex_io_def)

end
