(* ===== verification/RateLimit.thy ===== *)
theory RateLimit
  imports Middleware
begin

text \<open>
  The sliding-window rate limiter: \<^verbatim>\<open>api/internal/middleware/ratelimit/ratelimit.go\<close>.

  Redis is outside the repository: sending the four commands of the pipeline (\<open>ZREMRANGEBYSCORE\<close>, \<open>ZCARD\<close>,
  \<open>ZADD\<close>, \<open>EXPIRE\<close>), whose arguments are a \<open>pipe_commands\<close>, is the argument \<open>pipeline\<close>, a function on an abstract
  server state that returns an error or the counted cardinality.  \<open>RateWindow\<close> runs the commands one by one on a
  sorted set.  Times are nanoseconds, scores microseconds (a score is a \<open>float64\<close>, which holds them exactly up to the
  year 2255).
\<close>

record rate_limit_config =
  rl_max :: int
  rl_window :: nanos

record pipe_commands =
  pp_key :: string
  pp_start :: int
  pp_score :: int
  pp_member :: string
  pp_lifetime :: nanos

type_synonym 'r pipeline = "pipe_commands \<Rightarrow> 'r \<Rightarrow> (string + nat) \<times> 'r"

definition unix_micro :: "nanos \<Rightarrow> int" where
  "unix_micro t = t div 1000"

definition key_func :: "request \<Rightarrow> string \<Rightarrow> string" where
  "key_func r pre =
     (case claims_from_context r of
        Some subject \<Rightarrow> ''rl:'' @ pre @ '':user:'' @ subject
      | None \<Rightarrow>
          let ip = (case split_host_port (rq_remote_addr r) of Some ip \<Rightarrow> ip | None \<Rightarrow> rq_remote_addr r)
          in ''rl:'' @ pre @ '':ip:'' @ ip)"

definition rl_member :: "int \<Rightarrow> string" where
  "rl_member micro = format_int64 (word_of_int micro)"

definition rl_commands :: "rate_limit_config \<Rightarrow> string \<Rightarrow> nanos \<Rightarrow> pipe_commands" where
  \<comment> \<open>what the limiter sends: remove the scores up to \<open>pp_start\<close>, count, add the member, let the key expire\<close>
  "rl_commands cfg key now =
     (let window_start = unix_micro (now - rl_window cfg); now_micro = unix_micro now
      in \<lparr>pp_key = key, pp_start = window_start, pp_score = now_micro, pp_member = rl_member now_micro,
          pp_lifetime = rl_window cfg + 1000000000\<rparr>)"

definition check_rate_limit ::
  "'r pipeline \<Rightarrow> nanos \<Rightarrow> string \<Rightarrow> rate_limit_config \<Rightarrow> 'r \<Rightarrow> (string + (bool \<times> int)) \<times> 'r" where
  "check_rate_limit pipeline now key cfg rs =
     (case pipeline (rl_commands cfg key now) rs of
        (Inl e, rs') \<Rightarrow> (Inl (''redis pipeline: '' @ e), rs')
      | (Inr n, rs') \<Rightarrow>
          let count = int n; remaining = max (rl_max cfg - count - 1) 0
          in if rl_max cfg \<le> count then (Inr (False, 0), rs') else (Inr (True, remaining), rs'))"

definition rate_limit ::
  "'r pipeline \<Rightarrow> rate_limit_config \<Rightarrow> string \<Rightarrow> nanos
     \<Rightarrow> ('r \<times> 's, 'a) middleware" where
  "rate_limit pipeline cfg pre now nxt r st =
     (case st of (rs, s) \<Rightarrow>
        let key = key_func r pre in
        case check_rate_limit pipeline now key cfg rs of
          (Inl _, rs') \<Rightarrow> nxt r (rs', s)
        | (Inr (allowed, _), rs') \<Rightarrow>
            if \<not> allowed then (err_response 429 ''rate limit exceeded'', (rs', s))
            else nxt r (rs', s))"

definition rate_headers :: "rate_limit_config \<Rightarrow> bool \<times> int \<Rightarrow> (string \<times> string) list" where
  \<comment> \<open>the headers the middleware adds to the response when the check succeeded\<close>
  "rate_headers cfg res =
     [(''X-RateLimit-Limit'', format_int64 (word_of_int (rl_max cfg))),
      (''X-RateLimit-Remaining'', format_int64 (word_of_int (snd res)))] @
     (if \<not> fst res then [(''Retry-After'', format_int64 (word_of_int (rl_window cfg div 1000000000)))] else [])"

interpretation limit_guard: guard "rate_limit pipeline cfg pre now" snd "\<lambda>_. True" same_message
  for pipeline cfg pre now
proof
  fix nxt :: "('a \<times> 'b, 'c) handler" and r and st :: "'a \<times> 'b"
  obtain rs s where st: "st = (rs, s)" by (cases st)
  obtain res rs' where c: "check_rate_limit pipeline now (key_func r pre) cfg rs = (res, rs')" by fastforce
  show "(\<exists>reply s'. rate_limit pipeline cfg pre now nxt r st = (reply, s') \<and> snd s' = snd st) \<or>
     (\<exists>r' s'. rate_limit pipeline cfg pre now nxt r st = nxt r' s' \<and> snd s' = snd st \<and> True \<and> same_message r r')"
  proof (cases "\<exists>n. res = Inr (False, n)")
    case True
    then show ?thesis
      by (intro disjI1 exI [of _ "err_response 429 ''rate limit exceeded''"] exI [of _ "(rs', s)"])
         (auto simp: rate_limit_def st c)
  next
    case False
    then have "rate_limit pipeline cfg pre now nxt r st = nxt r (rs', s)"
      by (cases res) (auto simp: rate_limit_def st c split: prod.split)
    then show ?thesis by (intro disjI2 exI [of _ r] exI [of _ "(rs', s)"] conjI) (simp_all add: st)
  qed
qed

end
