(* ===== verification/Webhook.thy ===== *)
theory Webhook
  imports JobService Http Samples
begin

text \<open>
  The webhook endpoint: \<^verbatim>\<open>api/internal/handler/webhook/webhook.go\<close>.

  \<open>webhook_handler\<close> is the method \<open>ServeHTTP\<close>.  Its arguments are the validator (the method
  \<open>ValidateWebhook\<close> of the provider, modelled in \<open>Provider\<close>), the failure of reading the body,
  and the \<open>PushHandler\<close>, which is the job service's \<open>handle_push\<close>.
\<close>

definition max_payload_bytes :: nat where
  "max_payload_bytes = 25 * 1024 * 1024"

definition supported_event :: "string \<Rightarrow> bool" where
  "supported_event e \<longleftrightarrow> e = ''push''"

definition webhook_handler ::
  "(string \<Rightarrow> string \<Rightarrow> string \<Rightarrow> webhook_error + webhook_event) \<Rightarrow> string option
     \<Rightarrow> (webhook_event \<Rightarrow> string \<Rightarrow> 's \<Rightarrow> push_error option \<times> 's) \<Rightarrow> request \<Rightarrow> 's \<Rightarrow> unit reply \<times> 's" where
  "webhook_handler validate read_error handle r s =
     (let signature = rq_header r ''X-Hub-Signature-256'' in
      if signature = [] then (TextReply 401 ''missing signature'', s)
      else if read_error \<noteq> None then (TextReply 500 ''failed to read body'', s)
      else
      let body = take (max_payload_bytes + 1) (rq_body r) in
      if length body > max_payload_bytes then (TextReply 413 ''payload too large'', s)
      else
      case validate body signature (rq_header r ''X-GitHub-Event'') of
        Inl ErrInvalidSignature \<Rightarrow> (TextReply 401 ''invalid signature'', s)
      | Inl ErrParsePayload \<Rightarrow> (TextReply 500 ''validation error'', s)
      | Inr event \<Rightarrow>
          if \<not> supported_event (ev_event_type event) then (EmptyReply 200, s)
          else
          (case handle event (rq_header r ''X-GitHub-Delivery'') s of
             (Some _, s') \<Rightarrow> (TextReply 500 ''internal error'', s')
           | (None, s') \<Rightarrow> (EmptyReply 202, s')))"

lemma webhook_handler_cases:
  obtains (refused) reply where "webhook_handler validate re handle r s = (reply, s)"
      and "reply_status reply \<in> {200, 401, 413, 500}"
  | (dispatched) ev err s' where "length (rq_body r) \<le> max_payload_bytes"
      and "rq_header r ''X-Hub-Signature-256'' \<noteq> []"
      and "validate (rq_body r) (rq_header r ''X-Hub-Signature-256'') (rq_header r ''X-GitHub-Event'') = Inr ev"
      and "ev_event_type ev = ''push''"
      and "handle ev (rq_header r ''X-GitHub-Delivery'') s = (err, s')"
      and "webhook_handler validate re handle r s =
             (if err = None then EmptyReply 202 else TextReply 500 ''internal error'', s')"
proof -
  have small: "take (max_payload_bytes + 1) (rq_body r) = rq_body r"
    if "\<not> length (take (max_payload_bytes + 1) (rq_body r)) > max_payload_bytes"
    using that by simp
  have "(\<exists>reply. webhook_handler validate re handle r s = (reply, s) \<and> reply_status reply \<in> {200, 401, 413, 500}) \<or>
        (\<exists>ev err s'. length (rq_body r) \<le> max_payload_bytes \<and>
           rq_header r ''X-Hub-Signature-256'' \<noteq> [] \<and>
           validate (rq_body r) (rq_header r ''X-Hub-Signature-256'') (rq_header r ''X-GitHub-Event'') = Inr ev \<and>
           ev_event_type ev = ''push'' \<and> handle ev (rq_header r ''X-GitHub-Delivery'') s = (err, s') \<and>
           webhook_handler validate re handle r s =
             (if err = None then EmptyReply 202 else TextReply 500 ''internal error'', s'))"
    using small
    by (auto simp: webhook_handler_def Let_def supported_event_def
             split: sum.split webhook_error.split option.split prod.split)
  then show ?thesis using that by blast
qed

subsection \<open>Properties\<close>

lemma webhook_effect:
  assumes "webhook_handler (validate_webhook hmac secret) re
             (\<lambda>ev dl w. handle_push hmac us sg enq io ev dl w) r w = (reply, w')"
    and "w' \<noteq> w"
  shows "length (rq_body r) \<le> max_payload_bytes \<and>
     rq_header r ''X-Hub-Signature-256'' = ''sha256='' @ hex_encode (hmac secret (rq_body r)) \<and>
     rq_header r ''X-GitHub-Event'' = ''push'' \<and>
     (\<exists>p ev. parse_payload (rq_body r) = Some p \<and> ev_repo_id ev = pp_repo_id p \<and>
        ev_branch ev = branch_from_ref (pp_ref p) \<and> ev_commit ev = pp_after p \<and>
        w' = snd (handle_push hmac us sg enq io ev (rq_header r ''X-GitHub-Delivery'') w) \<and>
        (reply = EmptyReply 202 \<longleftrightarrow>
           fst (handle_push hmac us sg enq io ev (rq_header r ''X-GitHub-Delivery'') w) = None))"
  using webhook_handler_cases [of "validate_webhook hmac secret" re
      "\<lambda>ev dl w. handle_push hmac us sg enq io ev dl w" r w]
proof cases
  case refused
  then show ?thesis using assms by simp
next
  case (dispatched ev err s')
  note v = validate_webhook_Inr [OF dispatched(3)]
  then obtain p where "parse_payload (rq_body r) = Some p" "ev_repo_id ev = pp_repo_id p"
      "ev_branch ev = branch_from_ref (pp_ref p)" "ev_commit ev = pp_after p" by blast
  moreover have "w' = s'" "reply = EmptyReply 202 \<longleftrightarrow> err = None"
    using assms(1) dispatched(6) by (auto split: if_splits)
  ultimately show ?thesis
    using v dispatched(1,4,5) by (auto simp: expected_signature_def)
qed

lemma webhook_changes_only_on_signed_push:
  assumes "webhook_handler (validate_webhook hmac secret) re
             (\<lambda>ev dl w. handle_push hmac us sg enq io ev dl w) r w = (reply, w')"
    and "w' \<noteq> w"
  shows "length (rq_body r) \<le> max_payload_bytes \<and>
     rq_header r ''X-Hub-Signature-256'' = ''sha256='' @ hex_encode (hmac secret (rq_body r)) \<and>
     rq_header r ''X-GitHub-Event'' = ''push'' \<and>
     (\<exists>p ev. parse_payload (rq_body r) = Some p \<and> ev_repo_id ev = pp_repo_id p \<and>
        ev_branch ev = branch_from_ref (pp_ref p) \<and> ev_commit ev = pp_after p \<and>
        w' = snd (handle_push hmac us sg enq io ev (rq_header r ''X-GitHub-Delivery'') w) \<and>
        (reply = EmptyReply 202 \<longleftrightarrow>
           fst (handle_push hmac us sg enq io ev (rq_header r ''X-GitHub-Delivery'') w) = None))"
  using webhook_effect [OF assms] .


lemma webhook_bad_signature_refused:
  assumes "length (rq_body r) \<le> max_payload_bytes"
    and "rq_header r ''X-Hub-Signature-256'' \<noteq> ''sha256='' @ hex_encode (hmac secret (rq_body r))"
  shows "\<exists>msg. webhook_handler (validate_webhook hmac secret) None handle r s = (TextReply 401 msg, s)"
  using assms by (auto simp: webhook_handler_def Let_def validate_webhook_def expected_signature_def)

end
