(* ===== verification/Routes.thy ===== *)
theory Routes
  imports RateLimit Webhook CallbackProps Watchdog ApiClient
begin

text \<open>
  The routes of the API server: the middleware stacks \<^verbatim>\<open>api/cmd/main.go\<close> puts in front of the
  handlers, and the properties that need both (who may change what).

  The state is the database (or the database with the task queue), for rate limited routes paired
  with the Redis server's.  A middleware that is added first is the outermost.
\<close>

definition lift_state :: "('s, 'a) handler \<Rightarrow> ('r \<times> 's, 'a) handler" where
  "lift_state h r st = (case st of (rs, s) \<Rightarrow> case h r s of (reply, s') \<Rightarrow> (reply, (rs, s')))"

definition webhook_limit :: rate_limit_config where
  "webhook_limit = \<lparr>rl_max = 120, rl_window = 60 * 1000000000\<rparr>"

definition api_limit :: rate_limit_config where
  "api_limit = \<lparr>rl_max = 60, rl_window = 60 * 1000000000\<rparr>"

definition webhook_route ::
  "'r pipeline \<Rightarrow> nanos
     \<Rightarrow> ('s, 'a) handler \<Rightarrow> ('r \<times> 's, 'a) handler" where
  "webhook_route pipeline now h =
     require_json
       (rate_limit pipeline webhook_limit ''webhook'' now (lift_state h))"

definition callback_route ::
  "(string \<Rightarrow> string \<Rightarrow> string) \<Rightarrow> signer \<Rightarrow> nanos \<Rightarrow> string option
     \<Rightarrow> ('s, 'a) handler \<Rightarrow> ('s, 'a) handler" where
  "callback_route hmac signer now read_error h =
     require_json (jobtoken_auth hmac signer now read_error h)"

definition watchdog_route :: "string \<Rightarrow> ('s, 'a) handler \<Rightarrow> ('s, 'a) handler" where
  "watchdog_route secret h = shared_secret secret h"

definition api_route ::
  "(string \<Rightarrow> string + string) \<Rightarrow> 'r pipeline \<Rightarrow> nanos
     \<Rightarrow> ('s, 'a) handler \<Rightarrow> ('r \<times> 's, 'a) handler" where
  "api_route verify pipeline now h =
     auth verify (rate_limit pipeline api_limit ''api'' now (lift_state h))"

subsection \<open>The stacks are guards\<close>

lemma same_message_bearer: "same_message r r' \<Longrightarrow> extract_bearer r' = extract_bearer r"
  by (simp add: same_message_def extract_bearer_def)

interpretation webhook_stack: guard_pair "require_json"
    "rate_limit pipeline webhook_limit ''webhook'' now" snd
    "\<lambda>r. requires_body (rq_method r) \<longrightarrow> is_json r" "\<lambda>_. True" same_message same_message
  for pipeline now
  by unfold_locales simp

interpretation callback_stack: guard_pair "require_json" "jobtoken_auth hmac sg now re" view
    "\<lambda>r. requires_body (rq_method r) \<longrightarrow> is_json r"
    "\<lambda>r. \<exists>i. i \<noteq> [] \<and> signer_validate hmac sg now i (extract_bearer r) = None"
    same_message "cut_message max_body_bytes"
  for hmac sg now re view
  by unfold_locales (simp add: same_message_bearer)

interpretation api_stack: guard_pair "auth verify" "rate_limit pipeline api_limit ''api'' now" snd
    "\<lambda>r. extract_token r \<noteq> [] \<and> (\<exists>subject. verify (extract_token r) = Inr subject)" "\<lambda>_. True"
    same_message same_message
  for verify pipeline now
  by unfold_locales simp

lemma lift_state_snd:
  "lift_state h r st = (reply, st') \<Longrightarrow> h r (snd st) = (reply, snd st')"
  by (cases st; cases st') (auto simp: lift_state_def split: prod.splits)

subsection \<open>Who may change what\<close>

lemma callback_route_cases:
  obtains (refused) reply where "callback_route hmac sg now re h r s = (reply, s)"
      and "reply_status reply \<in> {400, 401, 415}"
  | (passed) i where "decode_job_id (take max_body_bytes (rq_body r)) = Some i" and "i \<noteq> []"
      and "signer_validate hmac sg now i (extract_bearer r) = None"
      and "callback_route hmac sg now re h r s =
             h (r\<lparr>rq_body := take max_body_bytes (rq_body r), rq_job_id := Some i\<rparr>) s"
proof (cases rule: require_json_cases [of "jobtoken_auth hmac sg now re h" r s])
  case refused
  then show ?thesis using that(1) by (simp add: callback_route_def)
next
  case passed
  show ?thesis
    using passed that
    by (cases rule: jobtoken_auth_cases [of hmac sg now re h r s]) (auto simp: callback_route_def)
qed

lemma callback_effect:
  assumes "wf_db d" and "complete_validator vstruct" and "d' \<noteq> d"
    and "callback_route hmac sg now re (start_handler vs uuid_scan gen sio) r d = (reply, d') \<or>
         callback_route hmac sg now re (complete_handler vstruct uuid_scan cio) r d = (reply', d')"
  shows "\<exists>job_id job job'. signer_validate hmac sg now job_id (extract_bearer r) = None \<and>
           uuid_scan job_id = Some (jid job) \<and> job \<in> set (jobs d) \<and> \<not> is_terminal (jstatus job) \<and>
           jid job' = jid job \<and>
           jobs d' = map (\<lambda>x. if jid x = jid job then job' else x) (jobs d)"
proof (cases rule: disjE [OF assms(4)])
  case 1
  show ?thesis
  proof (cases rule: callback_route_cases
      [of hmac sg now re "start_handler vs uuid_scan gen sio" r d])
    case refused
    then show ?thesis using 1 assms(3) by simp
  next
    case (passed i)
    from passed(4) 1 have s: "start_handler vs uuid_scan gen sio
        (r\<lparr>rq_body := take max_body_bytes (rq_body r), rq_job_id := Some i\<rparr>) d = (reply, d')" by simp
    obtain job where "job \<in> set (jobs d)" "jstatus job = Queued"
      "d' = d\<lparr>jobs := map (\<lambda>x. if jid x = jid job then started_job sio job else x) (jobs d)\<rparr>"
      "uuid_scan i = Some (jid job)"
      using start_effect [OF s assms(1,3)] by (auto simp: job_id_from_context_def)
    then show ?thesis
      using passed(3) by (intro exI [of _ i] exI [of _ job] exI [of _ "started_job sio job"]) simp
  qed
next
  case 2
  show ?thesis
  proof (cases rule: callback_route_cases
      [of hmac sg now re "complete_handler vstruct uuid_scan cio" r d])
    case refused
    then show ?thesis using 2 assms(3) by simp
  next
    case (passed i)
    from passed(4) 2 have s: "complete_handler vstruct uuid_scan cio
        (r\<lparr>rq_body := take max_body_bytes (rq_body r), rq_job_id := Some i\<rparr>) d = (reply', d')" by simp
    obtain job req st where "job \<in> set (jobs d)" "\<not> is_terminal (jstatus job)"
      "jobs d' = map (\<lambda>x. if jid x = jid job then completed_job cio req st job else x) (jobs d)"
      "uuid_scan i = Some (jid job)"
      by (rule complete_effect [OF s assms(1,2,3)]) (auto simp: job_id_from_context_def)
    then show ?thesis
      using passed(3) by (intro exI [of _ i] exI [of _ job] exI [of _ "completed_job cio req st job"]) simp
  qed
qed

lemma callback_changes_only_its_job:
  assumes "wf_db d" and "complete_validator vstruct" and "d' \<noteq> d"
    and "callback_route hmac sg now re (start_handler vs uuid_scan gen sio) r d = (reply, d') \<or>
         callback_route hmac sg now re (complete_handler vstruct uuid_scan cio) r d = (reply', d')"
  shows "\<exists>job_id job job'. signer_validate hmac sg now job_id (extract_bearer r) = None \<and>
           uuid_scan job_id = Some (jid job) \<and> job \<in> set (jobs d) \<and> \<not> is_terminal (jstatus job) \<and>
           jid job' = jid job \<and>
           jobs d' = map (\<lambda>x. if jid x = jid job then job' else x) (jobs d)"
  using callback_effect [OF assms] .


lemma callback_request_passes:
  assumes "sg_key worker_signer \<in> set (signer_keys api_signer)"
    and "valid_time now" and "valid_time (clock + sg_ttl worker_signer)" and "now \<le> clock + sg_ttl worker_signer"
    and "job_id \<noteq> []" and "length body \<le> max_body_bytes" and "decode_job_id body = Some job_id"
  shows "callback_route hmac api_signer now None h
           (callback_request (signer_sign hmac worker_signer clock job_id) body) s =
         h ((callback_request (signer_sign hmac worker_signer clock job_id) body)\<lparr>rq_job_id := Some job_id\<rparr>) s"
proof -
  have "\<not> sint (unix (clock + sg_ttl worker_signer)) < sint (unix now)"
    using unix_after_ttl(1) [OF assms(2,3,4)] .
  then have "signer_validate hmac api_signer now job_id (signer_sign hmac worker_signer clock job_id) = None"
    using assms(1)
    by (auto simp: signer_validate_none signer_sign_def validate_token_signed
          intro!: bexI [of _ "sg_key worker_signer"])
  then have "jobtoken_auth hmac api_signer now None h
      (callback_request (signer_sign hmac worker_signer clock job_id) body) s =
    h ((callback_request (signer_sign hmac worker_signer clock job_id) body)
        \<lparr>rq_body := take max_body_bytes body, rq_job_id := Some job_id\<rparr>) s"
    using jobtoken_auth_pass [of "callback_request (signer_sign hmac worker_signer clock job_id) body"
        "signer_sign hmac worker_signer clock job_id" job_id hmac api_signer now h s] assms(5-7)
    by (simp add: signer_sign_def)
  then show ?thesis
    using assms(6)
    by (simp add: callback_route_def require_json_def is_json_def Let_def callback_request_def)
qed

text \<open>
  C25: The worker and the API agree on tokens and bodies: a callback request the worker's client builds for a
  job passes the middleware of the callback routes and reaches the handler with that job id in its
  context, and the handler decodes the request the worker encoded, if the worker's key is the server's
  current or previous key, the strings are UTF-8 of less than 170 kB, and the server reads its
  clock before the token's time is over.
\<close>

theorem worker_request_reaches_handler:
  assumes "sg_key worker_signer \<in> set (signer_keys api_signer)"
    and "valid_time now" and "valid_time (clock + sg_ttl worker_signer)" and "now \<le> clock + sg_ttl worker_signer"
    and "cb_job_id b = job_id" and "job_id \<noteq> []" and "utf8_body b" and "body_length b \<le> 170000"
  shows "callback_route hmac api_signer now None h
           (callback_request (signer_sign hmac worker_signer clock job_id) (marshal_start \<lparr>sr_job_id = job_id\<rparr>)) s =
         h ((callback_request (signer_sign hmac worker_signer clock job_id) (marshal_start \<lparr>sr_job_id = job_id\<rparr>))
              \<lparr>rq_job_id := Some job_id\<rparr>) s \<and>
         decode_start (marshal_start \<lparr>sr_job_id = job_id\<rparr>) = Some \<lparr>sr_job_id = job_id\<rparr> \<and>
         callback_route hmac api_signer now None h'
           (callback_request (signer_sign hmac worker_signer clock job_id) (marshal_complete b)) s' =
         h' ((callback_request (signer_sign hmac worker_signer clock job_id) (marshal_complete b))
              \<lparr>rq_job_id := Some job_id\<rparr>) s' \<and>
         decode_complete (take max_callback_bytes (marshal_complete b)) = Some (request_of b)"
proof -
  note u = utf8_wire [OF assms(5,7,8)]
  note pass = callback_request_passes [OF assms(1-4,6)]
  show ?thesis by (intro conjI pass u)
qed

definition ex_body :: complete_body where
  "ex_body = \<lparr>cb_job_id = ''u'', cb_status = ''succeeded'', cb_error_message = [], cb_snapshot_path = ''p'',
     cb_zigzag_version = ''v1'', cb_size_bytes = 10\<rparr>"

theorem worker_request_reaches_handler_witness:
  "callback_route ex_hmac (with_previous_key (new_signer ''new'' 1800000000000) ''k'') 60000000000 None
     (\<lambda>r s. (JsonReply 200 (rq_job_id r, decode_complete (rq_body r)), s))
     (callback_request (signer_sign ex_hmac ex_signer 0 ''u'') (marshal_complete ex_body)) () =
     (JsonReply 200 (Some ''u'', Some (request_of ex_body)), ())"
  by (subst worker_request_reaches_handler [where b = ex_body, THEN conjunct2, THEN conjunct2, THEN conjunct1])
     (simp_all add: signer_keys_def with_previous_key_def new_signer_def ex_signer_def valid_time_def
        ex_body_def utf8_body_def ascii_valid body_length_def decode_complete_marshal clean_utf8_body)

text \<open>
  C29: The check of the job id in \<open>Start\<close> and \<open>Complete\<close> never fails: behind the middleware the handlers do
  what they would do if the context held the job id of the body they decode, because the struct
  \<open>jobIDPayload\<close> reads the same \<^verbatim>\<open>job_id\<close> as theirs from any body (duplicate members, members in another
  case, and data after the first value included).
\<close>

theorem job_id_check_redundant:
  "callback_route hmac sg now re (start_handler vs scan gen sio) r d =
     callback_route hmac sg now re
       (\<lambda>r. start_handler vs scan gen sio (r\<lparr>rq_job_id := map_option sr_job_id (decode_start (rq_body r))\<rparr>)) r d \<and>
   callback_route hmac sg now re (complete_handler vs' scan cio) r d =
     callback_route hmac sg now re
       (\<lambda>r. complete_handler vs' scan cio
          (r\<lparr>rq_job_id := map_option cr_job_id (decode_complete (take max_callback_bytes (rq_body r)))\<rparr>)) r d"
proof -
  let ?b = "take max_body_bytes (rq_body r)"
  have start: "start_handler vs scan gen sio (r\<lparr>rq_body := ?b, rq_job_id := Some i\<rparr>) d =
      start_handler vs scan gen sio (r\<lparr>rq_body := ?b, rq_job_id := map_option sr_job_id (decode_start ?b)\<rparr>) d"
    if "decode_job_id ?b = Some i" for i
    using that decode_start_job_id [of ?b] by (cases "decode_start ?b") (auto simp: start_handler_def)
  have complete: "complete_handler vs' scan cio (r\<lparr>rq_body := ?b, rq_job_id := Some i\<rparr>) d =
      complete_handler vs' scan cio (r\<lparr>rq_body := ?b, rq_job_id := map_option cr_job_id (decode_complete ?b)\<rparr>) d"
    if "decode_job_id ?b = Some i" for i
    using that decode_complete_job_id [of ?b]
    by (cases "decode_complete ?b") (auto simp: complete_handler_def max_callback_bytes_def max_body_bytes_def)
  show ?thesis
    using start complete
    by (simp add: callback_route_def require_json_def jobtoken_auth_def Let_def max_callback_bytes_def
          max_body_bytes_def split: option.split)
qed

lemma watchdog_needs_secret:
  "watchdog_route secret h r s =
     (if secret \<noteq> [] \<and> rq_header r ''Authorization'' = ''Bearer '' @ secret then h r s
      else (err_response 401 (if \<exists>t. t \<noteq> [] \<and> rq_header r ''Authorization'' = ''Bearer '' @ t
                              then ''invalid watchdog token'' else ''missing authorization token''), s))"
  by (simp add: watchdog_route_def shared_secret_eq)

end
