(* ===== verification/EndToEnd.thy ===== *)
theory EndToEnd
  imports Routes Executor Lifecycle
begin

text \<open>
  A worker and the API together: the executor of the worker with its callback client, connected to
  the API's callback routes.

  \<open>deliver\<close> is a network that delivers the request to a route and its reply to the client.
  \<open>connected_env\<close> is an executor whose start and complete calls go through the routes \<open>start_at\<close>
  and \<open>complete_at\<close>; its run, upload and configuration are arguments.
\<close>

definition deliver :: "('s, 'a) handler \<Rightarrow> ('s, 'a) transport" where
  "deliver route url r s = (case route r s of (reply, s') \<Rightarrow> (Inr reply, s'))"

definition wire_ok :: "complete_body \<Rightarrow> start_response \<Rightarrow> bool" where
  \<comment> \<open>the strings of the bodies are UTF-8, those of the completion short enough for its limit of 1 MB\<close>
  "wire_ok b info \<longleftrightarrow> utf8_body b \<and> body_length b \<le> 170000 \<and> utf8_response info"

lemma wire_okD:
  assumes "wire_ok b info"
  shows "utf8_body b" and "body_length b \<le> 170000"
    and "decode_start_response (reply_text start_response_json (JsonReply n info)) = Some info"
  using assms by (simp_all add: wire_ok_def reply_text_def decode_start_response_write)

record api_env =
  ae_hmac :: "string \<Rightarrow> string \<Rightarrow> string"
  ae_signer :: signer
  ae_start_now :: nanos
  ae_complete_now :: nanos
  ae_validate_start :: "start_request \<Rightarrow> field_err list"
  ae_validate_complete :: "complete_request \<Rightarrow> field_err list"
  ae_uuid_scan :: "string \<Rightarrow> uuid option"
  ae_gen_token :: "int64 \<Rightarrow> string + string"
  ae_start_io :: start_io
  ae_complete_io :: complete_io

definition start_at :: "api_env \<Rightarrow> (db, start_response) handler" where
  "start_at a = callback_route (ae_hmac a) (ae_signer a) (ae_start_now a) None
     (start_handler (ae_validate_start a) (ae_uuid_scan a) (ae_gen_token a) (ae_start_io a))"

definition complete_at :: "api_env \<Rightarrow> (db, string) handler" where
  "complete_at a = callback_route (ae_hmac a) (ae_signer a) (ae_complete_now a) None
     (complete_handler (ae_validate_complete a) (ae_uuid_scan a) (ae_complete_io a))"

definition connected_env ::
  "api_env \<Rightarrow> api_client \<Rightarrow> nanos \<Rightarrow> nanos \<Rightarrow> (db, 't) exec_env \<Rightarrow> (db, 't) exec_env" where
  "connected_env a c start_clock complete_clock env =
     env\<lparr>ee_start := client_start (ae_hmac a) c start_clock None (deliver (start_at a))
                       (reply_text start_response_json),
         ee_complete := client_complete (ae_hmac a) c complete_clock None (deliver (complete_at a))\<rparr>"

definition fresh_token :: "signer \<Rightarrow> signer \<Rightarrow> nanos \<Rightarrow> nanos \<Rightarrow> bool" where
  \<comment> \<open>the API knows the worker's key and reads its clock within the token's time\<close>
  "fresh_token worker_signer api_signer clock now \<longleftrightarrow>
     sg_key worker_signer \<in> set (signer_keys api_signer) \<and> valid_time now \<and>
     valid_time (clock + sg_ttl worker_signer) \<and> now \<le> clock + sg_ttl worker_signer"

lemma start_connected:
  assumes "wf_db d" and "job \<in> set (jobs d)" and "jstatus job = Queued" and "ae_uuid_scan a job_id = Some (jid job)"
    and "job_id \<noteq> []" and "cb_job_id b = job_id"
    and "wire_ok b \<lparr>sp_commit_sha = jcommit job, sp_branch = jbranch job, sp_repo_full_name = rfull_name repo,
           sp_clone_token = tok, sp_installation_id = rinstallation repo\<rparr>"
    and "repo \<in> set (repositories d)" and "rid repo = jrepo job" and "ae_gen_token a (rinstallation repo) = Inr tok"
    and "fresh_token (ac_signer c) (ae_signer a) clock (ae_start_now a)"
    and "ae_validate_start a \<lparr>sr_job_id = job_id\<rparr> = []"
    and "sio_begin (ae_start_io a) = None" "sio_get (ae_start_io a) = None" "sio_update (ae_start_io a) = None"
        "sio_repo (ae_start_io a) = None" "sio_commit (ae_start_io a) = Committed"
  shows "client_start (ae_hmac a) c clock None (deliver (start_at a)) (reply_text start_response_json) job_id d =
     (Inr \<lparr>sp_commit_sha = jcommit job, sp_branch = jbranch job, sp_repo_full_name = rfull_name repo,
           sp_clone_token = tok, sp_installation_id = rinstallation repo\<rparr>,
      d\<lparr>jobs := map (\<lambda>x. if jid x = jid job then started_job (ae_start_io a) job else x) (jobs d)\<rparr>)"
proof -
  note w = wire_okD [OF assms(7)]
  note t = utf8_wire [OF assms(6) w(1,2)]
  let ?r = "callback_request (signer_sign (ae_hmac a) (ac_signer c) clock job_id) (marshal_start \<lparr>sr_job_id = job_id\<rparr>)"
  have "start_at a ?r d =
      start_handler (ae_validate_start a) (ae_uuid_scan a) (ae_gen_token a) (ae_start_io a)
        (?r\<lparr>rq_job_id := Some job_id\<rparr>) d"
    unfolding start_at_def using assms(11) t(1,2) assms(5)
    by (intro callback_request_passes) (simp_all add: fresh_token_def)
  also have "\<dots> = start_locked (ae_gen_token a) (ae_start_io a) job d"
    by (rule start_handler_locked [where req = "\<lparr>sr_job_id = job_id\<rparr>"])
       (use assms t in \<open>simp_all add: job_id_from_context_def\<close>)
  also note start_locked_queued [where gen = "ae_gen_token a", OF assms(1-3,8-10,15-17)]
  finally show ?thesis
    using w(3) by (simp add: client_start_valid [OF assms(5)] deliver_def)
qed

lemma complete_delivered:
  assumes "cb_job_id b = job_id" and "job_id \<noteq> []" and "utf8_body b" and "body_length b \<le> 170000"
    and "fresh_token (ac_signer c) (ae_signer a) clock (ae_complete_now a)"
  obtains r where "complete_at a (callback_request (signer_sign (ae_hmac a) (ac_signer c) clock job_id)
        (marshal_complete b)) d =
      complete_handler (ae_validate_complete a) (ae_uuid_scan a) (ae_complete_io a) r d"
    and "decode_complete (take max_callback_bytes (rq_body r)) = Some (request_of b)"
    and "job_id_from_context r = job_id"
proof -
  note t = utf8_wire [OF assms(1,3,4)]
  let ?r = "callback_request (signer_sign (ae_hmac a) (ac_signer c) clock job_id) (marshal_complete b)"
  have "complete_at a ?r d =
      complete_handler (ae_validate_complete a) (ae_uuid_scan a) (ae_complete_io a)
        (?r\<lparr>rq_job_id := Some job_id\<rparr>) d"
    unfolding complete_at_def using assms(2,5) t(4,5)
    by (intro callback_request_passes) (simp_all add: fresh_token_def)
  then show ?thesis by (rule that) (simp_all add: t(6) job_id_from_context_def)
qed

lemma complete_connected:
  assumes "wf_db d" and "job \<in> set (jobs d)" and "\<not> is_terminal (jstatus job)"
    and "ae_uuid_scan a job_id = Some (jid job)" and "job_id \<noteq> []" and "utf8_body b" and "body_length b \<le> 170000"
    and "cb_job_id b = job_id" and "cb_status b = ''succeeded''"
    and "fresh_token (ac_signer c) (ae_signer a) clock (ae_complete_now a)"
    and "ae_validate_complete a (request_of b) = []"
    and "cio_begin (ae_complete_io a) = None" "cio_get (ae_complete_io a) = None"
        "cio_update (ae_complete_io a) = None" "cio_insert (ae_complete_io a) = None"
        "cio_commit (ae_complete_io a) = Committed"
    and "\<forall>x \<in> set (snapshots d). sid x \<noteq> cio_new_id (ae_complete_io a)"
    and "\<forall>x \<in> set (snapshots d).
           \<not> (srepo x = jrepo job \<and> sbranch x = jbranch job \<and> scommit x = jcommit job)"
  shows "\<exists>s d'. client_complete (ae_hmac a) c clock None (deliver (complete_at a)) b d = (None, d') \<and>
     jobs d' = map (\<lambda>x. if jid x = jid job then completed_job (ae_complete_io a) (request_of b) Succeeded job else x)
                 (jobs d) \<and>
     snapshots d' = snapshots d @ [s] \<and> sjob s = jid job \<and> scommit s = jcommit job \<and>
     sgcs_path s = cb_snapshot_path b"
proof -
  obtain r where r: "complete_at a (callback_request (signer_sign (ae_hmac a) (ac_signer c) clock job_id)
        (marshal_complete b)) d =
      complete_handler (ae_validate_complete a) (ae_uuid_scan a) (ae_complete_io a) r d"
    "decode_complete (take max_callback_bytes (rq_body r)) = Some (request_of b)"
    "job_id_from_context r = job_id"
    by (rule complete_delivered [OF assms(8,5-7,10)])
  show ?thesis
    using complete_success [OF assms(1-3) r(2), of "ae_validate_complete a" "ae_uuid_scan a" "ae_complete_io a"]
      assms r(1,3)
    by (simp add: client_complete_valid deliver_def request_of_def)
qed

definition success_body :: "string \<Rightarrow> string \<Rightarrow> string \<Rightarrow> string \<Rightarrow> run_result \<Rightarrow> complete_body" where
  "success_body job_id org repo commit result =
     \<lparr>cb_job_id = job_id, cb_status = ''succeeded'', cb_error_message = [],
      cb_snapshot_path = snapshot_path org repo commit,
      cb_zigzag_version = rr_zigzag_version result, cb_size_bytes = rr_size_bytes result\<rparr>"

lemma execute_success:
  assumes "ee_start env job_id (es_api st) = (Inr info, s1)"
    and "started_run env info (es_reports st) = (Inr result, fs')"
    and "read_report_file (ee_read_fails env) fs' = Inr data"
    and "ee_upload env = upload None None"
  shows "execute (Some env) job_id org repo st =
     st\<lparr>es_api := snd (ee_complete env (success_body job_id org repo (sp_commit_sha info) result) s1),
        es_reports := fs', es_bucket := (es_bucket st)(snapshot_path org repo (sp_commit_sha info) \<mapsto> data)\<rparr>"
  using assms by (simp add: execute_def started_run_def success_body_def upload_def Let_def)

lemma connected_job_succeeds:
  fixes st :: "db exec_state" and a :: api_env
  defines "d \<equiv> es_api st"
  assumes db: "wf_db d" "job \<in> set (jobs d)" "jstatus job = Queued" "ae_uuid_scan a job_id = Some (jid job)" "job_id \<noteq> []"
    and repo: "repo \<in> set (repositories d)" "rid repo = jrepo job" "ae_gen_token a (rinstallation repo) = Inr tok"
    and wire: "wire_ok b \<lparr>sp_commit_sha = jcommit job, sp_branch = jbranch job, sp_repo_full_name = rfull_name repo,
          sp_clone_token = tok, sp_installation_id = rinstallation repo\<rparr>"
        "b = success_body job_id org repo_id (jcommit job) result"
    and tokens: "fresh_token (ac_signer c) (ae_signer a) t1 (ae_start_now a)"
        "fresh_token (ac_signer c) (ae_signer a) t2 (ae_complete_now a)"
    and valid: "ae_validate_start a \<lparr>sr_job_id = job_id\<rparr> = []" "ae_validate_complete a (request_of b) = []"
    and sio: "sio_begin (ae_start_io a) = None" "sio_get (ae_start_io a) = None" "sio_update (ae_start_io a) = None"
        "sio_repo (ae_start_io a) = None" "sio_commit (ae_start_io a) = Committed"
    and cio: "cio_begin (ae_complete_io a) = None" "cio_get (ae_complete_io a) = None"
        "cio_update (ae_complete_io a) = None" "cio_insert (ae_complete_io a) = None"
        "cio_commit (ae_complete_io a) = Committed"
    and new: "\<forall>x \<in> set (snapshots d). sid x \<noteq> cio_new_id (ae_complete_io a)"
        "\<forall>x \<in> set (snapshots d). \<not> (srepo x = jrepo job \<and> sbranch x = jbranch job \<and> scommit x = jcommit job)"
    and run: "started_run env \<lparr>sp_commit_sha = jcommit job, sp_branch = jbranch job,
          sp_repo_full_name = rfull_name repo, sp_clone_token = tok,
          sp_installation_id = rinstallation repo\<rparr> (es_reports st) = (Inr result, fs')"
        "read_report_file (ee_read_fails env) fs' = Inr data" "ee_upload env = upload None None"
  shows "let st' = execute (Some (connected_env a c t1 t2 env)) job_id org repo_id st in
     (\<exists>j \<in> set (jobs (es_api st')). jid j = jid job \<and> jstatus j = Succeeded \<and> jcommit j = jcommit job) \<and>
     (\<exists>s. snapshots (es_api st') = snapshots d @ [s] \<and> sjob s = jid job \<and> scommit s = jcommit job \<and>
          es_bucket st' (sgcs_path s) = Some data)"
proof -
  let ?env = "connected_env a c t1 t2 env"
  let ?d1 = "d\<lparr>jobs := map (\<lambda>x. if jid x = jid job then started_job (ae_start_io a) job else x) (jobs d)\<rparr>"
  let ?j1 = "started_job (ae_start_io a) job"
  let ?info = "\<lparr>sp_commit_sha = jcommit job, sp_branch = jbranch job, sp_repo_full_name = rfull_name repo,
          sp_clone_token = tok, sp_installation_id = rinstallation repo\<rparr>"
  have job_id: "cb_job_id b = job_id" by (simp add: wire(2) success_body_def)
  have start: "ee_start ?env job_id (es_api st) = (Inr ?info, ?d1)"
    using start_connected [OF db job_id wire(1) repo tokens(1) valid(1) sio] by (simp add: connected_env_def d_def)
  have d1: "update_job_status (sio_now (ae_start_io a)) (jid job) Running None d = ?d1"
    by (rule start_update_jobs [OF db(1,2)])
  have wf1: "wf_db ?d1" using wf_update_job_status [OF db(1)] by (simp only: d1 [symmetric])
  have j1: "?j1 \<in> set (jobs ?d1)" using db(2) by auto
  have b: "cb_job_id b = job_id" "cb_status b = ''succeeded''"
      "cb_snapshot_path b = snapshot_path org repo_id (jcommit job)"
    by (simp_all add: wire(2) success_body_def)
  have complete_call: "ee_complete ?env =
      client_complete (ae_hmac a) c t2 None (deliver (complete_at a))"
    by (simp add: connected_env_def)
  have "\<exists>s d'. ee_complete ?env b ?d1 = (None, d') \<and>
     jobs d' = map (\<lambda>x. if jid x = jid ?j1 then completed_job (ae_complete_io a) (request_of b) Succeeded ?j1 else x)
                 (jobs ?d1) \<and>
     snapshots d' = snapshots ?d1 @ [s] \<and> sjob s = jid ?j1 \<and> scommit s = jcommit ?j1 \<and>
     sgcs_path s = cb_snapshot_path b"
    unfolding complete_call
    by (rule complete_connected [OF wf1 j1]) (use db wire_okD [OF wire(1)] b tokens(2) valid cio new in simp_all)
  then obtain s d' where complete: "ee_complete ?env b ?d1 = (None, d')"
    and jobs: "jobs d' = map (\<lambda>x. if jid x = jid ?j1 then completed_job (ae_complete_io a) (request_of b) Succeeded ?j1
                                  else x) (jobs ?d1)"
    and snap: "snapshots d' = snapshots d @ [s]" "sjob s = jid job" "scommit s = jcommit job"
        "sgcs_path s = snapshot_path org repo_id (jcommit job)"
    using b(3) by auto
  have ex: "execute (Some ?env) job_id org repo_id st =
     st\<lparr>es_api := d', es_reports := fs', es_bucket := (es_bucket st)(snapshot_path org repo_id (jcommit job) \<mapsto> data)\<rparr>"
    using execute_success [OF start, of result fs' data org repo_id] run complete
    by (simp add: wire(2) started_run_def connected_env_def)
  have "completed_job (ae_complete_io a) (request_of b) Succeeded ?j1 \<in> set (jobs d')"
    using j1 jobs by force
  then have "\<exists>j \<in> set (jobs d'). jid j = jid job \<and> jstatus j = Succeeded \<and> jcommit j = jcommit job"
    by (rule bexI [rotated]) simp
  then show ?thesis using snap by (simp add: ex Let_def)
qed

definition ex_api_env :: api_env where
  "ex_api_env = \<lparr>ae_hmac = ex_hmac, ae_signer = ex_signer, ae_start_now = 1,
     ae_complete_now = 2, ae_validate_start = (\<lambda>_. []), ae_validate_complete = ex_vstruct,
     ae_uuid_scan = ex_scan, ae_gen_token = (\<lambda>_. Inr ''ghs''), ae_start_io = ex_start_io,
     ae_complete_io = ex_complete_io\<rparr>"

definition ex_worker :: api_client where
  "ex_worker = \<lparr>ac_base_url = ''http://api'', ac_signer = ex_signer\<rparr>"

definition ex_worker_env :: "(db, string) exec_env" where
  "ex_worker_env = \<lparr>ee_start = (\<lambda>_ d. (Inl ErrEmptyJobID, d)), ee_complete = (\<lambda>_ d. (None, d)),
     ee_show = (\<lambda>_. ''e''), ee_run = ex_run_io, ee_config = ee_config (ex_env ''abc''),
     ee_read_fails = None, ee_upload = upload None None, ee_show_storage = (\<lambda>_. ''e'')\<rparr>"

definition ex_result :: run_result where
  "ex_result = \<lparr>rr_reports_dir = ''r'', rr_zigzag_version = ''v1'',
     rr_size_bytes = of_nat (length (ex_report ''v1'' ''tree of main''))\<rparr>"

lemma complete_invalid:
  assumes "ae_validate_complete a (request_of b) \<noteq> []" and "utf8_body b" and "body_length b \<le> 170000"
    and "cb_job_id b = job_id" and "job_id \<noteq> []" and "cb_status b = ''succeeded''"
    and "fresh_token (ac_signer c) (ae_signer a) clock (ae_complete_now a)"
  shows "client_complete (ae_hmac a) c clock None (deliver (complete_at a)) b d = (Some (StatusFailed 400), d)"
proof -
  obtain r where "complete_at a (callback_request (signer_sign (ae_hmac a) (ac_signer c) clock job_id)
        (marshal_complete b)) d =
      complete_handler (ae_validate_complete a) (ae_uuid_scan a) (ae_complete_io a) r d"
    "decode_complete (take max_callback_bytes (rq_body r)) = Some (request_of b)"
    by (rule complete_delivered [OF assms(4,5,2,3,7)])
  then show ?thesis
    using assms by (simp add: client_complete_valid deliver_def complete_handler_def validate_struct_def)
qed

text \<open>
  C40: A report without a version blocks its job: \<open>collectResult\<close> accepts a \<^verbatim>\<open>report.json\<close> whose version
  is empty, but the API refuses a success without one, so the execution uploads the report, has
  its completion answered 400, reports no failure either, and leaves the job running.
\<close>

theorem empty_version_leaves_job_running:
  fixes st :: "db exec_state" and a :: api_env
  defines "d \<equiv> es_api st"
  assumes db: "wf_db d" "job \<in> set (jobs d)" "jstatus job = Queued" "ae_uuid_scan a job_id = Some (jid job)" "job_id \<noteq> []"
    and repo: "repo \<in> set (repositories d)" "rid repo = jrepo job" "ae_gen_token a (rinstallation repo) = Inr tok"
    and wire: "wire_ok b \<lparr>sp_commit_sha = jcommit job, sp_branch = jbranch job, sp_repo_full_name = rfull_name repo,
          sp_clone_token = tok, sp_installation_id = rinstallation repo\<rparr>"
        "b = success_body job_id org repo_id (jcommit job) result"
    and tokens: "fresh_token (ac_signer c) (ae_signer a) t1 (ae_start_now a)"
        "fresh_token (ac_signer c) (ae_signer a) t2 (ae_complete_now a)"
    and valid: "ae_validate_start a \<lparr>sr_job_id = job_id\<rparr> = []" "complete_validator (ae_validate_complete a)"
    and sio: "sio_begin (ae_start_io a) = None" "sio_get (ae_start_io a) = None" "sio_update (ae_start_io a) = None"
        "sio_repo (ae_start_io a) = None" "sio_commit (ae_start_io a) = Committed"
    and run: "started_run env \<lparr>sp_commit_sha = jcommit job, sp_branch = jbranch job,
          sp_repo_full_name = rfull_name repo, sp_clone_token = tok,
          sp_installation_id = rinstallation repo\<rparr> (es_reports st) = (Inr result, fs')"
        "read_report_file (ee_read_fails env) fs' = Inr data" "ee_upload env = upload None None"
    and empty: "rr_zigzag_version result = []"
  shows "\<exists>j \<in> set (jobs (es_api (execute (Some (connected_env a c t1 t2 env)) job_id org repo_id st))).
           jid j = jid job \<and> jstatus j = Running"
proof -
  let ?env = "connected_env a c t1 t2 env"
  let ?d1 = "d\<lparr>jobs := map (\<lambda>x. if jid x = jid job then started_job (ae_start_io a) job else x) (jobs d)\<rparr>"
  let ?info = "\<lparr>sp_commit_sha = jcommit job, sp_branch = jbranch job, sp_repo_full_name = rfull_name repo,
          sp_clone_token = tok, sp_installation_id = rinstallation repo\<rparr>"
  have job_id: "cb_job_id b = job_id" by (simp add: wire(2) success_body_def)
  have start: "ee_start ?env job_id (es_api st) = (Inr ?info, ?d1)"
    using start_connected [OF db job_id wire(1) repo tokens(1) valid(1) sio] by (simp add: connected_env_def d_def)
  have "cr_zigzag_version (request_of b) = []" "cr_status (request_of b) = ''succeeded''"
    using empty by (simp_all add: wire(2) success_body_def request_of_def)
  then have "ae_validate_complete a (request_of b) \<noteq> []"
    using valid(2) unfolding complete_validator_def by fastforce
  then have "ee_complete ?env b ?d1 = (Some (StatusFailed 400), ?d1)"
    using complete_invalid [of a b job_id c t2 ?d1] wire_okD [OF wire(1)] job_id db(5) tokens(2)
    by (simp add: connected_env_def wire(2) success_body_def)
  then have "es_api (execute (Some ?env) job_id org repo_id st) = ?d1"
    using execute_success [OF start, of result fs' data org repo_id] run
    by (simp add: wire(2) started_run_def connected_env_def)
  moreover have "started_job (ae_start_io a) job \<in> set (jobs ?d1)" using db(2) by auto
  ultimately show ?thesis by (metis started_job_simps(1,5))
qed

definition ex_no_version :: "string run_io" where
  "ex_no_version = ex_run_io\<lparr>ri_zigzag := \<lambda>tree fs. (None, [(''report.json'', ex_report [] tree)])\<rparr>"

theorem empty_version_leaves_job_running_witness:
  "let st' = execute (Some (connected_env ex_api_env ex_worker 0 0 (ex_worker_env\<lparr>ee_run := ex_no_version\<rparr>)))
               ''u'' ''o'' ''r''
               \<lparr>es_api = ex_db [ex_job 3 Queued ''abc'' 20], es_reports = [], es_bucket = Map.empty\<rparr>
   in \<exists>j \<in> set (jobs (es_api st')). jid j = 3 \<and> jstatus j = Running"
proof -
  let ?report = "ex_report [] ''tree of main''"
  let ?res = "\<lparr>rr_reports_dir = ''r'', rr_zigzag_version = [], rr_size_bytes = of_nat (length ?report)\<rparr>"
  let ?b = "success_body ''u'' ''o'' ''r'' ''abc'' ?res"
  let ?env = "ex_worker_env\<lparr>ee_run := ex_no_version\<rparr>"
  let ?st = "\<lparr>es_api = ex_db [ex_job 3 Queued ''abc'' 20], es_reports = [], es_bucket = Map.empty\<rparr> :: db exec_state"
  have wire: "wire_ok ?b \<lparr>sp_commit_sha = ''abc'', sp_branch = ''main'', sp_repo_full_name = rfull_name ex_repo,
      sp_clone_token = ''ghs'', sp_installation_id = rinstallation ex_repo\<rparr>"
    by (simp add: wire_ok_def utf8_body_def utf8_response_def success_body_def snapshot_path_def body_length_def
          ascii_valid ex_repo_def)
  have tokens: "fresh_token (ac_signer ex_worker) (ae_signer ex_api_env) 0 (ae_start_now ex_api_env)"
      "fresh_token (ac_signer ex_worker) (ae_signer ex_api_env) 0 (ae_complete_now ex_api_env)"
    by (simp_all add: fresh_token_def ex_worker_def ex_api_env_def signer_keys_def valid_time_def ex_signer_def new_signer_def)
  have run: "started_run ?env \<lparr>sp_commit_sha = ''abc'', sp_branch = ''main'',
        sp_repo_full_name = rfull_name ex_repo, sp_clone_token = ''ghs'',
        sp_installation_id = rinstallation ex_repo\<rparr> [] = (Inr ?res, [(''report.json'', ?report)])"
    by (simp add: started_run_def run_with_token_def clone_and_run_def ex_worker_env_def ex_run_io_def ex_no_version_def
          collect_result_def read_version_def total_size_def ex_env_def)
  have "\<exists>j \<in> set (jobs (es_api (execute (Some (connected_env ex_api_env ex_worker 0 0 ?env))
           ''u'' ''o'' ''r'' ?st))). jid j = jid (ex_job 3 Queued ''abc'' 20) \<and> jstatus j = Running"
    by (rule empty_version_leaves_job_running [where repo = ex_repo and tok = "''ghs''" and b = ?b and result = ?res
          and fs' = "[(''report.json'', ?report)]" and data = ?report])
       (use wire tokens run in \<open>simp_all add: ex_api_env_def read_report_file_def ex_worker_env_def ex_repo_def\<close>)
  then show ?thesis by (simp add: Let_def)
qed

end
