(* ===== verification/ReadApi.thy ===== *)
theory ReadApi
  imports Http GoNet Samples "HOL-Library.Multiset"
begin

text \<open>
  The read API: \<^verbatim>\<open>api/internal/handler/api\<close> (jobs, repositories, snapshots) and the redirects of
  \<^verbatim>\<open>api/internal/handler/githubauth\<close>.

  The handlers only read, so they are functions of the request and the database; \<open>fault\<close> is the
  failure of their query.  \<open>uuid_scan\<close> and \<open>pg_time\<close> are pgx's reading of a UUID and its rounding of an
  instant to the database's microseconds, \<open>loc\<close> is the local time zone (the offset at an instant) and
  \<open>now\<close> the current time.
  \<open>job_json\<close> and the like are the bodies of the replies, from the text of a UUID and of a time.
\<close>

subsection \<open>Jobs\<close>

record 'a page =
  rs_data :: 'a
  rs_next_cursor :: "string option"

definition response_json :: "json option \<Rightarrow> string option \<Rightarrow> json" where
  \<comment> \<open>the struct \<open>Response[T]\<close> without an error; \<open>None\<close>: what \<^verbatim>\<open>omitempty\<close> leaves out\<close>
  "response_json data next_cursor =
     JObject ((case data of None \<Rightarrow> [] | Some v \<Rightarrow> [(''data'', v)]) @
              (case next_cursor of None \<Rightarrow> [] | Some c \<Rightarrow> [(''next_cursor'', JString c)]))"

definition list_json :: "json list \<Rightarrow> json option" where
  \<comment> \<open>a slice: an empty one is left out\<close>
  "list_json vs = (if vs = [] then None else Some (JArray vs))"

definition null_or :: "('a \<Rightarrow> json) \<Rightarrow> 'a option \<Rightarrow> json" where
  "null_or f x = (case x of None \<Rightarrow> JNull | Some y \<Rightarrow> f y)"

definition job_json :: "(uuid \<Rightarrow> string) \<Rightarrow> (pgtime \<Rightarrow> string) \<Rightarrow> job \<Rightarrow> json" where
  \<comment> \<open>the struct \<open>store.Job\<close>, which has no tags\<close>
  "job_json us fmt j =
     JObject [(''ID'', JString (us (jid j))), (''RepoID'', JString (us (jrepo j))), (''Branch'', JString (jbranch j)),
       (''CommitSha'', JString (jcommit j)), (''DeliveryID'', null_or JString (jdelivery j)),
       (''Status'', JString (status_string (jstatus j))), (''ErrorMessage'', null_or JString (jerror j)),
       (''CreatedAt'', JString (fmt (jcreated j))), (''UpdatedAt'', JString (fmt (jupdated j))),
       (''StartedAt'', null_or (\<lambda>t. JString (fmt t)) (jstarted j)),
       (''FinishedAt'', null_or (\<lambda>t. JString (fmt t)) (jfinished j))]"

definition get_job :: "(string \<Rightarrow> uuid option) \<Rightarrow> string option \<Rightarrow> request \<Rightarrow> db \<Rightarrow> job reply" where
  "get_job uuid_scan fault r d =
     (case uuid_scan (rq_param r ''jobID'') of
        None \<Rightarrow> err_response 400 ''invalid job id''
      | Some i \<Rightarrow>
          (case with_fault fault (get_job_by_id i d) of
             Inl e \<Rightarrow> if e = NoRows then err_response 404 ''job not found'' else internal_error
           | Inr job \<Rightarrow> ok_response job))"

definition list_jobs ::
  "(string \<Rightarrow> uuid option) \<Rightarrow> (nanos \<Rightarrow> pgtime) \<Rightarrow> (nanos \<Rightarrow> int) \<Rightarrow> pgtime \<Rightarrow> string option
     \<Rightarrow> request \<Rightarrow> db \<Rightarrow> job list page reply" where
  "list_jobs uuid_scan pg_time loc now fault r d =
     (case uuid_scan (rq_param r ''repoID'') of
        None \<Rightarrow> err_response 400 ''invalid repo id''
      | Some repo \<Rightarrow>
          let limit = parse_limit r in
          (case parse_cursor pg_time now r of
             Inl e \<Rightarrow> err_response 400 e
           | Inr cursor \<Rightarrow>
          (case with_fault fault (Inr (list_jobs_by_repo repo cursor limit d)) of
             Inl _ \<Rightarrow> internal_error
           | Inr js \<Rightarrow>
               JsonReply 200
                 \<lparr>rs_data = js,
                  rs_next_cursor = (if int (length js) = limit then Some (format_rfc3339 loc (1000 * jcreated (last js)))
                                    else None)\<rparr>)))"

subsection \<open>Repositories and snapshots\<close>

definition repository_json :: "(uuid \<Rightarrow> string) \<Rightarrow> (pgtime \<Rightarrow> string) \<Rightarrow> repository \<Rightarrow> json" where
  "repository_json us fmt r =
     JObject [(''ID'', JString (us (rid r))), (''OrgID'', JString (us (rorg r))),
       (''GithubRepoID'', JNumber (format_int64 (rgithub_id r))),
       (''InstallationID'', JNumber (format_int64 (rinstallation r))), (''FullName'', JString (rfull_name r)),
       (''DefaultBranch'', JString (rdefault_branch r)), (''InstalledAt'', JString (fmt (rinstalled r)))]"

definition snapshot_json :: "(uuid \<Rightarrow> string) \<Rightarrow> (pgtime \<Rightarrow> string) \<Rightarrow> snapshot \<Rightarrow> json" where
  "snapshot_json us fmt s =
     JObject [(''ID'', JString (us (sid s))), (''RepoID'', JString (us (srepo s))), (''JobID'', JString (us (sjob s))),
       (''Branch'', JString (sbranch s)), (''CommitSha'', JString (scommit s)), (''GcsPath'', JString (sgcs_path s)),
       (''SnapshotVersion'', JNumber (format_int64 (word_of_int (sversion s)))),
       (''ZigzagVersion'', JString (szigzag s)), (''SizeBytes'', JNumber (format_int64 (ssize s))),
       (''CreatedAt'', JString (fmt (screated s)))]"

definition get_repo :: "(string \<Rightarrow> uuid option) \<Rightarrow> string option \<Rightarrow> request \<Rightarrow> db \<Rightarrow> repository reply" where
  "get_repo uuid_scan fault r d =
     (case uuid_scan (rq_param r ''repoID'') of
        None \<Rightarrow> err_response 400 ''invalid repo id''
      | Some i \<Rightarrow>
          (case with_fault fault (get_repo_by_id i d) of
             Inl e \<Rightarrow> if e = NoRows then err_response 404 ''repo not found'' else internal_error
           | Inr repo \<Rightarrow> ok_response repo))"

definition max_branch_length :: nat where
  "max_branch_length = 256"

definition parse_branch :: "request \<Rightarrow> string + string" where
  "parse_branch r =
     (let branch = trim_space (rq_query r ''branch'') in
      if branch = [] then Inl ''branch query param required''
      else if length branch > max_branch_length then Inl ''branch name exceeds maximum length''
      else Inr branch)"

definition get_snapshot :: "(string \<Rightarrow> uuid option) \<Rightarrow> string option \<Rightarrow> request \<Rightarrow> db \<Rightarrow> snapshot reply" where
  "get_snapshot uuid_scan fault r d =
     (case uuid_scan (rq_param r ''snapshotID'') of
        None \<Rightarrow> err_response 400 ''invalid snapshot id''
      | Some i \<Rightarrow>
          (case with_fault fault (get_snapshot_by_id i d) of
             Inl e \<Rightarrow> if e = NoRows then err_response 404 ''snapshot not found'' else internal_error
           | Inr snap \<Rightarrow> ok_response snap))"

definition list_snapshots ::
  "(string \<Rightarrow> uuid option) \<Rightarrow> string option \<Rightarrow> request \<Rightarrow> db \<Rightarrow> snapshot list reply" where
  "list_snapshots uuid_scan fault r d =
     (case uuid_scan (rq_param r ''repoID'') of
        None \<Rightarrow> err_response 400 ''invalid repo id''
      | Some repo \<Rightarrow>
          (case parse_branch r of
             Inl e \<Rightarrow> err_response 400 e
           | Inr branch \<Rightarrow>
          (case with_fault fault (Inr (get_snapshots_by_branch repo branch d)) of
             Inl _ \<Rightarrow> internal_error
           | Inr snaps \<Rightarrow> ok_response snaps)))"

definition latest_snapshot ::
  "(string \<Rightarrow> uuid option) \<Rightarrow> string option \<Rightarrow> request \<Rightarrow> db \<Rightarrow> snapshot reply" where
  "latest_snapshot uuid_scan fault r d =
     (case uuid_scan (rq_param r ''repoID'') of
        None \<Rightarrow> err_response 400 ''invalid repo id''
      | Some repo \<Rightarrow>
          (case parse_branch r of
             Inl e \<Rightarrow> err_response 400 e
           | Inr branch \<Rightarrow>
          (case with_fault fault (get_latest_snapshot repo branch d) of
             Inl e \<Rightarrow> if e = NoRows then err_response 404 ''snapshot not found'' else internal_error
           | Inr snap \<Rightarrow> ok_response snap)))"

subsection \<open>Installing the GitHub App\<close>

definition install_url :: "string \<Rightarrow> string" where
  "install_url app_slug = ''https://github.com/apps/'' @ app_slug @ ''/installations/new''"

definition install_handler :: "string \<Rightarrow> request \<Rightarrow> unit reply" where
  "install_handler app_slug r = RedirectReply 302 (install_url app_slug)"

definition install_callback :: "request \<Rightarrow> unit reply" where
  \<comment> \<open>the handler stores nothing\<close>
  "install_callback r =
     (let installation = rq_query r ''installation_id''; action = rq_query r ''setup_action'' in
      if installation = [] then TextReply 400 ''missing installation_id''
      else TextReply 200 (''Installation '' @ installation @ '' successful (action: '' @ action @ '')''))"

subsection \<open>Following the cursors\<close>

definition repo_jobs_before :: "uuid \<Rightarrow> int \<Rightarrow> db \<Rightarrow> job list" where
  "repo_jobs_before repo before d =
     sort_key (\<lambda>j. - jcreated j) (filter (\<lambda>j. jrepo j = repo \<and> jcreated j < before) (jobs d))"

fun follow_pages :: "nat \<Rightarrow> (request \<Rightarrow> job list page reply) \<Rightarrow> request \<Rightarrow> job list" where
  \<comment> \<open>the jobs a client collects that sends the request again with the cursor of the reply, for at
    most \<open>fuel\<close> requests\<close>
  "follow_pages 0 serve r = []"
| "follow_pages (Suc fuel) serve r =
     (case serve r of
        JsonReply _ p \<Rightarrow>
          rs_data p @
          (case rs_next_cursor p of
             None \<Rightarrow> []
           | Some c \<Rightarrow> follow_pages fuel serve (r\<lparr>rq_query := (rq_query r)(''cursor'' := c)\<rparr>))
      | _ \<Rightarrow> [])"

definition readable_times :: "(nanos \<Rightarrow> pgtime) \<Rightarrow> (nanos \<Rightarrow> int) \<Rightarrow> db \<Rightarrow> bool" where
  \<comment> \<open>jobs are created in the years 0 to 9999 of a zone of whole minutes, and pgx keeps whole microseconds\<close>
  "readable_times pg_time loc d \<longleftrightarrow>
     (\<forall>j \<in> set (jobs d). in_years loc (1000 * jcreated j) \<and> whole_minutes (loc (1000 * jcreated j)) \<and>
        pg_time (1000 * jcreated j) = jcreated j)"

fun follow_cursors :: "nat \<Rightarrow> uuid \<Rightarrow> int \<Rightarrow> int \<Rightarrow> db \<Rightarrow> job list" where
  \<comment> \<open>the same on the level of the queries\<close>
  "follow_cursors 0 repo limit before d = []"
| "follow_cursors (Suc fuel) repo limit before d =
     (let js = list_jobs_by_repo repo before limit d
      in if int (length js) = limit then js @ follow_cursors fuel repo limit (jcreated (last js)) d else js)"

lemma cursor_roundtrip:
  assumes "readable_times pg_time loc d" and "j \<in> set (jobs d)"
  shows "parse_cursor pg_time now (r\<lparr>rq_query := (rq_query r)(''cursor'' := format_rfc3339 loc (1000 * jcreated j))\<rparr>) =
           Inr (jcreated j)"
  using assms parse_format [of loc "1000 * jcreated j"] format_not_Nil
  by (simp add: parse_cursor_def readable_times_def)

lemma follow_pages_cursors:
  assumes "readable_times pg_time loc d"
  shows "uuid_scan (rq_param r ''repoID'') = Some repo \<Longrightarrow> parse_cursor pg_time now r = Inr before \<Longrightarrow>
     follow_pages fuel (\<lambda>r. list_jobs uuid_scan pg_time loc now None r d) r =
     follow_cursors fuel repo (parse_limit r) before d"
proof (induction fuel arbitrary: r before)
  case (Suc fuel)
  let ?js = "list_jobs_by_repo repo before (parse_limit r) d"
  let ?r = "r\<lparr>rq_query := (rq_query r)(''cursor'' := format_rfc3339 loc (1000 * jcreated (last ?js)))\<rparr>"
  have limit: "parse_limit ?r = parse_limit r" by (simp add: parse_limit_def)
  have "parse_cursor pg_time now ?r = Inr (jcreated (last ?js))" if "int (length ?js) = parse_limit r"
  proof (rule cursor_roundtrip [OF assms])
    have "?js \<noteq> []" using that parse_limit_range [of r] by auto
    then have "last ?js \<in> set ?js" by (rule last_in_set)
    then show "last ?js \<in> set (jobs d)" by (auto simp: list_jobs_by_repo_def dest: in_set_takeD)
  qed
  then show ?case
    using Suc.prems Suc.IH [of ?r "jcreated (last ?js)"] limit by (simp add: list_jobs_def Let_def)
qed simp

lemma list_jobs_take: "list_jobs_by_repo repo before limit d = take (nat limit) (repo_jobs_before repo before d)"
  by (simp add: list_jobs_by_repo_def repo_jobs_before_def)

lemma repo_jobs_before_later:
  assumes "c \<le> before"
  shows "repo_jobs_before repo c d = filter (\<lambda>j. jcreated j < c) (repo_jobs_before repo before d)"
proof -
  have h: "filter (\<lambda>j. jrepo j = repo \<and> jcreated j < c) js =
          filter (\<lambda>j. jcreated j < c) (filter (\<lambda>j. jrepo j = repo \<and> jcreated j < before) js)" for js
    using assms by (induction js) auto
  show ?thesis unfolding repo_jobs_before_def filter_sort by (rule arg_cong [OF h])
qed

lemma strict_drop:
  assumes "sorted_wrt (\<lambda>x y. jcreated y < jcreated x) xs" and "0 < n" and "n \<le> length xs"
  shows "filter (\<lambda>j. jcreated j < jcreated (last (take n xs))) xs = drop n xs"
proof -
  let ?l = "last (take n xs)"
  have "take n xs \<noteq> []" using assms(2,3) by auto
  then have l: "take n xs = butlast (take n xs) @ [?l]" by simp
  have split: "xs = butlast (take n xs) @ ?l # drop n xs"
    by (metis l append.assoc append_Cons append_Nil append_take_drop_id)
  have "sorted_wrt (\<lambda>x y. jcreated y < jcreated x) (butlast (take n xs) @ ?l # drop n xs)"
    using assms(1) split by metis
  then have "\<forall>j \<in> set (butlast (take n xs)). \<not> jcreated j < jcreated ?l"
    and "\<forall>j \<in> set (drop n xs). jcreated j < jcreated ?l"
    by (auto simp: sorted_wrt_append)
  then have "filter (\<lambda>j. jcreated j < jcreated ?l) (butlast (take n xs) @ ?l # drop n xs) = drop n xs"
    by (simp add: filter_empty_conv filter_id_conv)
  then show ?thesis using split by metis
qed

lemma repo_jobs_before_strict:
  assumes "distinct (map jcreated (filter (\<lambda>j. jrepo j = repo) (jobs d)))"
  shows "sorted_wrt (\<lambda>x y. jcreated y < jcreated x) (repo_jobs_before repo before d)"
proof -
  let ?xs = "repo_jobs_before repo before d" and ?js = "filter (\<lambda>j. jrepo j = repo \<and> jcreated j < before) (jobs d)"
  have "?js = filter (\<lambda>j. jcreated j < before) (filter (\<lambda>j. jrepo j = repo) (jobs d))"
    by (simp add: conj_commute)
  then have d: "distinct (map jcreated ?js)" using assms by (simp only: distinct_map_filter)
  have m: "mset (map jcreated ?xs) = mset (map jcreated ?js)"
    unfolding mset_map by (rule arg_cong [where f = "image_mset jcreated"]) (simp add: repo_jobs_before_def)
  have "distinct (map jcreated ?xs)"
    using d by (rule iffD2 [OF mset_eq_imp_distinct_iff [OF m]])
  then have "distinct (map (\<lambda>j. - jcreated j) ?xs)" by (auto simp: distinct_map inj_on_def)
  moreover have "sorted (map (\<lambda>j. - jcreated j) ?xs)" by (simp add: repo_jobs_before_def)
  ultimately have "sorted_wrt (<) (map (\<lambda>j. - jcreated j) ?xs)" by (simp add: strict_sorted_iff)
  then show ?thesis by (simp add: sorted_wrt_map)
qed

lemma follow_cursors_all:
  assumes "distinct (map jcreated (filter (\<lambda>j. jrepo j = repo) (jobs d)))" and "1 \<le> limit"
  shows "length (repo_jobs_before repo before d) < fuel \<Longrightarrow>
           follow_cursors fuel repo limit before d = repo_jobs_before repo before d"
proof (induction fuel arbitrary: before)
  case 0
  then show ?case by simp
next
  case (Suc fuel)
  let ?xs = "repo_jobs_before repo before d" and ?n = "nat limit"
  let ?c = "jcreated (last (take ?n ?xs))"
  have n: "0 < ?n" using assms(2) by simp
  show ?case
  proof (cases "?n \<le> length ?xs")
    case False
    then show ?thesis using assms(2) by (auto simp: list_jobs_take Let_def)
  next
    case True
    then have "take ?n ?xs \<noteq> []" using n by auto
    then have "last (take ?n ?xs) \<in> set ?xs" by (rule in_set_takeD [OF last_in_set])
    then have "?c < before" by (simp add: repo_jobs_before_def)
    with True have rest: "repo_jobs_before repo ?c d = drop ?n ?xs"
      using strict_drop [OF repo_jobs_before_strict [OF assms(1)] n True] repo_jobs_before_later [of ?c before repo d]
      by simp
    have "follow_cursors fuel repo limit ?c d = drop ?n ?xs"
      using Suc.IH [of ?c] Suc.prems n True by (simp add: rest)
    then show ?thesis using True assms(2) by (simp add: list_jobs_take Let_def)
  qed
qed

lemma follow_cursors_older:
  assumes "1 \<le> limit"
  shows "j \<in> set (follow_cursors fuel repo limit before d) \<Longrightarrow> jcreated j < before"
proof (induction fuel arbitrary: before)
  case (Suc fuel)
  let ?js = "list_jobs_by_repo repo before limit d"
  have older: "jcreated x < before" if "x \<in> set ?js" for x
    using that by (auto simp: list_jobs_take repo_jobs_before_def dest: in_set_takeD)
  show ?case
  proof (cases "j \<in> set ?js")
    case False
    then have "j \<in> set (follow_cursors fuel repo limit (jcreated (last ?js)) d)" and "int (length ?js) = limit"
      using Suc.prems by (auto simp: Let_def split: if_splits)
    moreover from this have "?js \<noteq> []" using assms by auto
    ultimately show ?thesis using Suc.IH [of "jcreated (last ?js)"] older [of "last ?js"] by force
  qed (rule older)
qed simp

subsection \<open>Properties\<close>

definition ex_page_request :: "string \<Rightarrow> request" where
  "ex_page_request limit =
     \<lparr>rq_method = ''GET'', rq_header = (\<lambda>_. []), rq_query = (\<lambda>q. if q = ''limit'' then limit else []),
      rq_param = (\<lambda>_. []), rq_body = [], rq_remote_addr = [], rq_claims_subject = Some ''user_1'',
      rq_job_id = None\<rparr>"

lemma ex_limit_one: "parse_limit (ex_page_request ''1'') = 1"
proof -
  have "parse_int64 ''1'' = Some 1"
    by (simp add: parse_int64_def strip_sign_def parse_digits_def is_digit_def digits_value_def digit_value_def)
  then show ?thesis by (simp add: parse_limit_def ex_page_request_def max_page_limit_def)
qed

lemma ex_page_params [simp]:
  "rq_param (ex_page_request l) = (\<lambda>_. [])" "rq_query (ex_page_request l) ''cursor'' = []"
  by (simp_all add: ex_page_request_def)

lemma ex_readable:
  assumes "\<And>j. j \<in> set js \<Longrightarrow> 0 \<le> jcreated j \<and> jcreated j < 1000000"
  shows "readable_times (\<lambda>t. t div 1000) (\<lambda>_. 0) (ex_db js)"
  using assms by (force simp: readable_times_def in_years_def year_start_def whole_minutes_def)

text \<open>
  C30: A client that follows \<open>next_cursor\<close> from page to page of \<open>ListJobs\<close> receives every job of the
  repository created before the starting point, newest first, each exactly once, whatever limit it
  asks for, when no two jobs of the repository have the same creation time and no query fails.  The cursors are
  the RFC 3339 texts the handler writes and reads; the times are in the years 0 to 9999.  One
  request per job and one more is always enough.
\<close>

theorem pagination_complete:
  assumes "readable_times pg_time loc d"
    and "uuid_scan (rq_param r ''repoID'') = Some repo" and "parse_cursor pg_time now r = Inr before"
    and "distinct (map jcreated (filter (\<lambda>j. jrepo j = repo) (jobs d)))"
    and "length (repo_jobs_before repo before d) < fuel"
  shows "follow_pages fuel (\<lambda>r. list_jobs uuid_scan pg_time loc now None r d) r =
           repo_jobs_before repo before d"
  using follow_cursors_all [OF assms(4) _ assms(5)] parse_limit_range [of r]
  by (simp add: follow_pages_cursors [where uuid_scan = uuid_scan and now = now, OF assms(1-3)])

theorem pagination_complete_witness:
  "follow_pages 5 (\<lambda>r. list_jobs (\<lambda>_. Some 2) (\<lambda>t. t div 1000) (\<lambda>_. 0) 100 None r
        (ex_db [ex_job 3 Queued ''a'' 20, ex_job 4 Queued ''b'' 30])) (ex_page_request ''1'') =
     [ex_job 4 Queued ''b'' 30, ex_job 3 Queued ''a'' 20]"
  by (subst pagination_complete [OF ex_readable, where repo = 2 and before = 100])
     (auto simp: repo_jobs_before_def parse_cursor_def ex_page_request_def ex_defs)

lemma pagination_skips_ties:
  assumes "readable_times pg_time loc d"
    and "uuid_scan (rq_param r ''repoID'') = Some repo" and "parse_cursor pg_time now r = Inr before"
    and "list_jobs uuid_scan pg_time loc now None r d = JsonReply 200 p"
    and "rs_next_cursor p \<noteq> None" and "j \<notin> set (rs_data p)" and "jcreated j = jcreated (last (rs_data p))"
  shows "j \<notin> set (follow_pages fuel (\<lambda>r. list_jobs uuid_scan pg_time loc now None r d) r)"
proof (cases fuel)
  case (Suc n)
  have p: "rs_data p = list_jobs_by_repo repo before (parse_limit r) d"
    "int (length (rs_data p)) = parse_limit r"
    using assms(2-5) by (auto simp: list_jobs_def Let_def split: if_splits)
  have "j \<notin> set (follow_cursors n repo (parse_limit r) (jcreated (last (rs_data p))) d)"
    using follow_cursors_older [of "parse_limit r" j n repo "jcreated (last (rs_data p))" d]
      parse_limit_range [of r] assms(7) by auto
  then have "j \<notin> set (follow_cursors fuel repo (parse_limit r) before d)"
    using p assms(6) Suc by (simp add: Let_def)
  then show ?thesis by (simp add: follow_pages_cursors [where uuid_scan = uuid_scan and now = now, OF assms(1-3)])
qed simp


end
