(* ===== verification/Router.thy ===== *)
theory Router
  imports Guard
begin

text \<open>
  The router: \<^verbatim>\<open>shared/go/router/router.go\<close> and \<^verbatim>\<open>shared/go/router/group.go\<close>, thin layers over a chi mux.

  \<open>mux\<close> is what the code hands to the mux: the global middlewares and the registered routes, each with
  the middlewares of its group.  \<open>router_use\<close>, \<open>router_handle\<close>, \<open>new_group\<close>, \<open>group_use\<close> and \<open>create\<close> are
  the methods.  How the mux serves a request is chi's affair: a function \<open>serve\<close> of the mux and the
  path, of which \<open>chi_serves\<close> states the documented behaviour.
\<close>

subsection \<open>Registration\<close>

record ('s, 'a) subroute =
  sub_method :: string
  sub_path :: string
  sub_handler :: "('s, 'a) handler"

record ('s, 'a) chi_route =
  rt_method :: string
  rt_path :: string
  rt_mws :: "('s, 'a) middleware list"
  rt_handler :: "('s, 'a) handler"

record ('s, 'a) mux =
  mx_mws :: "('s, 'a) middleware list"
  mx_routes :: "('s, 'a) chi_route list"

record ('s, 'a) group =
  gr_mws :: "('s, 'a) middleware list"

definition new_router :: "('s, 'a) mux" where
  "new_router = \<lparr>mx_mws = [], mx_routes = []\<rparr>"

fun router_use :: "('s, 'a) middleware list \<Rightarrow> ('s, 'a) mux \<Rightarrow> ('s, 'a) mux" where
  "router_use [] mux = mux"
| "router_use (m # ms) mux = router_use ms (mux\<lparr>mx_mws := mx_mws mux @ [m]\<rparr>)"

definition router_handle :: "string \<Rightarrow> string \<Rightarrow> ('s, 'a) handler \<Rightarrow> ('s, 'a) mux \<Rightarrow> ('s, 'a) mux" where
  \<comment> \<open>\<open>Get\<close>, \<open>Post\<close>, \<open>Put\<close>, \<open>Delete\<close> and \<open>Patch\<close>, by the method\<close>
  "router_handle m path h mux =
     mux\<lparr>mx_routes := mx_routes mux @ [\<lparr>rt_method = m, rt_path = path, rt_mws = [], rt_handler = h\<rparr>]\<rparr>"

definition new_group :: "('s, 'a) group" where
  "new_group = \<lparr>gr_mws = []\<rparr>"

definition group_use :: "('s, 'a) middleware \<Rightarrow> ('s, 'a) group \<Rightarrow> ('s, 'a) group" where
  "group_use mw g = g\<lparr>gr_mws := gr_mws g @ [mw]\<rparr>"

definition route_methods :: "string list" where
  "route_methods = [''GET'', ''POST'', ''PUT'', ''DELETE'', ''PATCH'']"

fun register ::
  "(string \<Rightarrow> string) \<Rightarrow> ('s, 'a) middleware list \<Rightarrow> ('s, 'a) subroute list
     \<Rightarrow> ('s, 'a) mux \<times> string list \<Rightarrow> ('s, 'a) mux \<times> string list" where
  \<comment> \<open>the closure \<open>register\<close> on a router with the given middlewares; \<open>quote\<close> is the verb \<^verbatim>\<open>%q\<close>\<close>
  "register quote mws [] acc = acc"
| "register quote mws (sub # subs) (mux, errs) =
     (if sub_method sub \<in> set route_methods
      then register quote mws subs
        (mux\<lparr>mx_routes := mx_routes mux @
            [\<lparr>rt_method = sub_method sub, rt_path = sub_path sub, rt_mws = mws,
              rt_handler = sub_handler sub\<rparr>]\<rparr>, errs)
      else register quote mws subs
        (mux, errs @ [''failed to register path: '' @ quote (sub_path sub) @
                      '' with method: '' @ quote (sub_method sub)]))"

definition create ::
  "(string \<Rightarrow> string) \<Rightarrow> ('s, 'a) group \<Rightarrow> ('s, 'a) subroute list \<Rightarrow> ('s, 'a) mux
     \<Rightarrow> ('s, 'a) mux \<times> string list option" where
  \<comment> \<open>\<open>Create\<close>: the mux afterwards, and the joined errors (\<open>None\<close> for none)\<close>
  "create quote g subroutes mux =
     (case (if length (gr_mws g) > 0
            then register quote (gr_mws g) subroutes (mux, [])
            else register quote [] subroutes (mux, [])) of
        (mux', errs) \<Rightarrow> (mux', if errs = [] then None else Some errs))"

subsection \<open>What is registered\<close>

definition routes_of :: "('s, 'a) middleware list \<Rightarrow> ('s, 'a) subroute list \<Rightarrow> ('s, 'a) chi_route list" where
  "routes_of mws subs =
     map (\<lambda>s. \<lparr>rt_method = sub_method s, rt_path = sub_path s, rt_mws = mws, rt_handler = sub_handler s\<rparr>)
       (filter (\<lambda>s. sub_method s \<in> set route_methods) subs)"

lemma register_eq:
  "register quote mws subs (mux, errs) =
     (mux\<lparr>mx_routes := mx_routes mux @ routes_of mws subs\<rparr>,
      errs @ map (\<lambda>s. ''failed to register path: '' @ quote (sub_path s) @ '' with method: '' @ quote (sub_method s))
               (filter (\<lambda>s. sub_method s \<notin> set route_methods) subs))"
  by (induction quote mws subs "(mux, errs)" arbitrary: mux errs rule: register.induct)
     (simp_all add: routes_of_def)

lemma router_use_eq: "router_use ms mux = mux\<lparr>mx_mws := mx_mws mux @ ms\<rparr>"
  by (induction ms mux rule: router_use.induct) simp_all

lemma create_eq:
  "create quote g subs mux =
     (mux\<lparr>mx_routes := mx_routes mux @ routes_of (gr_mws g) subs\<rparr>,
      if list_all (\<lambda>s. sub_method s \<in> set route_methods) subs then None
      else Some (map (\<lambda>s. ''failed to register path: '' @ quote (sub_path s) @ '' with method: '' @ quote (sub_method s))
                   (filter (\<lambda>s. sub_method s \<notin> set route_methods) subs)))"
  by (auto simp: create_def register_eq filter_empty_conv list_all_iff)

lemma create_ok:
  assumes "list_all (\<lambda>s. sub_method s \<in> set route_methods) subs"
  shows "create quote g subs mux = (mux\<lparr>mx_routes := mx_routes mux @ routes_of (gr_mws g) subs\<rparr>, None)"
  using assms by (simp add: create_eq)

subsection \<open>Serving\<close>

definition wrap :: "('s, 'a) middleware list \<Rightarrow> ('s, 'a) handler \<Rightarrow> ('s, 'a) handler" where
  \<comment> \<open>the first middleware is the outermost\<close>
  "wrap ms h = foldr (\<lambda>m h. m h) ms h"

lemma wrap_simps [simp]: "wrap [] h = h" "wrap (m # ms) h = m (wrap ms h)"
  by (simp_all add: wrap_def)

definition candidates ::
  "(string \<Rightarrow> string \<Rightarrow> (string \<Rightarrow> string) option) \<Rightarrow> ('s, 'a) mux \<Rightarrow> string \<Rightarrow> string \<Rightarrow> ('s, 'a) chi_route list" where
  "candidates match mux m path = filter (\<lambda>rt. rt_method rt = m \<and> match (rt_path rt) path \<noteq> None) (mx_routes mux)"

definition chi_serves ::
  "(string \<Rightarrow> string \<Rightarrow> (string \<Rightarrow> string) option) \<Rightarrow> (('s, 'a) mux \<Rightarrow> string \<Rightarrow> ('s, 'a) handler) \<Rightarrow> bool" where
  \<comment> \<open>what chi documents: behind the global middlewares, a request is answered without a handler (not
    found, method not allowed) or by a registered route for its method whose pattern matches the
    path, behind the route's middlewares; a route that is the only such one is taken\<close>
  "chi_serves match serve \<longleftrightarrow>
     (\<forall>mux path. \<exists>core. serve mux path = wrap (mx_mws mux) core \<and>
        (\<forall>r s. (candidates match mux (rq_method r) path = [] \<longrightarrow> (\<exists>reply. core r s = (reply, s))) \<and>
               (candidates match mux (rq_method r) path \<noteq> [] \<longrightarrow>
                  (\<exists>rt \<in> set (candidates match mux (rq_method r) path).
                     core r s = wrap (rt_mws rt) (rt_handler rt)
                       (r\<lparr>rq_param := the (match (rt_path rt) path)\<rparr>) s))))"

lemma chi_serves_cases:
  assumes "chi_serves match serve"
  obtains core where "serve mux path = wrap (mx_mws mux) core"
    and "\<And>r s. (\<exists>reply. core r s = (reply, s)) \<or>
           (\<exists>rt \<in> set (mx_routes mux). rt_method rt = rq_method r \<and>
              (\<exists>ps. match (rt_path rt) path = Some ps \<and>
                 core r s = wrap (rt_mws rt) (rt_handler rt) (r\<lparr>rq_param := ps\<rparr>) s))"
    and "\<And>r s rt ps. candidates match mux (rq_method r) path = [rt] \<Longrightarrow> match (rt_path rt) path = Some ps \<Longrightarrow>
           core r s = wrap (rt_mws rt) (rt_handler rt) (r\<lparr>rq_param := ps\<rparr>) s"
proof -
  obtain core where c: "serve mux path = wrap (mx_mws mux) core"
    "\<And>r s. candidates match mux (rq_method r) path = [] \<Longrightarrow> \<exists>reply. core r s = (reply, s)"
    "\<And>r s. candidates match mux (rq_method r) path \<noteq> [] \<Longrightarrow>
       \<exists>rt \<in> set (candidates match mux (rq_method r) path).
         core r s = wrap (rt_mws rt) (rt_handler rt) (r\<lparr>rq_param := the (match (rt_path rt) path)\<rparr>) s"
    using assms unfolding chi_serves_def by meson
  show ?thesis
  proof (rule that [OF c(1)])
    fix r :: request and s
    show "(\<exists>reply. core r s = (reply, s)) \<or>
           (\<exists>rt \<in> set (mx_routes mux). rt_method rt = rq_method r \<and>
              (\<exists>ps. match (rt_path rt) path = Some ps \<and>
                 core r s = wrap (rt_mws rt) (rt_handler rt) (r\<lparr>rq_param := ps\<rparr>) s))"
      using c(2,3) [of r s] by (cases "candidates match mux (rq_method r) path = []") (auto simp: candidates_def)
  next
    fix r :: request and s rt ps
    assume "candidates match mux (rq_method r) path = [rt]" and "match (rt_path rt) path = Some ps"
    then show "core r s = wrap (rt_mws rt) (rt_handler rt) (r\<lparr>rq_param := ps\<rparr>) s"
      using c(3) [of r s] by simp
  qed
qed

end
