(* ===== verification/Config.thy ===== *)
theory Config
  imports Engine
begin

text \<open>
  Configuration of the two programs: \<^verbatim>\<open>api/internal/config\<close> and \<^verbatim>\<open>worker/internal/worker/config\<close>, with the
  parts of \<^verbatim>\<open>path/filepath\<close> they use.

  The records are the structs.  Outside: the \<open>env\<close> package, which reads the tagged fields from the
  environment (\<open>parse\<close>), and \<open>godotenv\<close>, which may add to it (\<open>load_file\<close>).  The environment is a map.
\<close>

subsection \<open>Paths\<close>

fun split_slash :: "string \<Rightarrow> string \<Rightarrow> string list" where
  \<comment> \<open>the elements of a path between slashes; the first argument is the element read so far, reversed\<close>
  "split_slash acc [] = [rev acc]"
| "split_slash acc (c # cs) = (if c = CHR ''/'' then rev acc # split_slash [] cs else split_slash (c # acc) cs)"

fun join_slash :: "string list \<Rightarrow> string" where
  "join_slash [] = []"
| "join_slash [x] = x"
| "join_slash (x # y # xs) = x @ ''/'' @ join_slash (y # xs)"

fun clean_elements :: "bool \<Rightarrow> string list \<Rightarrow> string list \<Rightarrow> string list" where
  \<comment> \<open>the second argument is the cleaned prefix, reversed\<close>
  "clean_elements rooted out [] = rev out"
| "clean_elements rooted out (e # es) =
     (if e = [] \<or> e = ''.'' then clean_elements rooted out es
      else if e = ''..'' then
        (case out of
           o1 # os \<Rightarrow> if o1 \<noteq> ''..'' then clean_elements rooted os es else clean_elements rooted (e # out) es
         | [] \<Rightarrow> if rooted then clean_elements rooted [] es else clean_elements rooted [e] es)
      else clean_elements rooted (e # out) es)"

definition is_abs :: "string \<Rightarrow> bool" where
  "is_abs p \<longleftrightarrow> p \<noteq> [] \<and> hd p = CHR ''/''"

definition path_clean :: "string \<Rightarrow> string" where
  "path_clean p =
     (let es = clean_elements (is_abs p) [] (split_slash [] p) in
      if is_abs p then ''/'' @ join_slash es
      else if es = [] then ''.'' else join_slash es)"

definition path_join :: "string list \<Rightarrow> string" where
  "path_join es = (case filter (\<lambda>e. e \<noteq> []) es of [] \<Rightarrow> [] | es' \<Rightarrow> path_clean (join_slash es'))"

lemma is_abs_clean [simp]: "is_abs (path_clean p)" if "is_abs p"
  using that by (simp add: path_clean_def Let_def is_abs_def)

lemma is_abs_join_slash: "is_abs x \<Longrightarrow> is_abs (join_slash (x # xs))"
  by (cases xs) (auto simp: is_abs_def)

lemma is_abs_path_join: "is_abs x \<Longrightarrow> is_abs (path_join (x # xs))"
  by (auto simp: path_join_def is_abs_join_slash) (auto simp: is_abs_def)

lemma split_slash_not_slash: "e \<in> set (split_slash acc s) \<Longrightarrow> CHR ''/'' \<notin> set acc \<Longrightarrow> CHR ''/'' \<notin> set e"
  by (induction acc s rule: split_slash.induct) (auto split: if_splits)

lemma clean_elements_subset:
  "e \<in> set (clean_elements rooted out es) \<Longrightarrow> e \<in> set out \<or> (e \<in> set es \<and> e \<noteq> [] \<and> e \<noteq> ''.'')"
  by (induction rooted out es rule: clean_elements.induct) (auto split: if_splits list.splits)

lemma clean_elements_rooted_no_up:
  "''..'' \<notin> set out \<Longrightarrow> ''..'' \<notin> set (clean_elements True out es)"
  by (induction "True" out es rule: clean_elements.induct) (auto split: list.splits)

lemma path_clean_stays_below_root:
  "is_abs p \<Longrightarrow> \<exists>es. path_clean p = ''/'' @ join_slash es \<and> (\<forall>e \<in> set es. e \<noteq> [] \<and> e \<noteq> ''.'' \<and> e \<noteq> ''..'')"
  using clean_elements_subset [of _ True "[]" "split_slash [] p"] clean_elements_rooted_no_up [of "[]"]
  by (auto simp: path_clean_def Let_def intro!: exI [of _ "clean_elements True [] (split_slash [] p)"])

subsection \<open>Private keys\<close>

fun unescape_newlines :: "string \<Rightarrow> string" where
  \<comment> \<open>\<open>strings.ReplaceAll (s, `\n`, "\n")\<close>: a backslash and an n become a newline\<close>
  "unescape_newlines (a # b # s) =
     (if a = char_of (92 :: nat) \<and> b = CHR ''n'' then char_of (10 :: nat) # unescape_newlines s
      else a # unescape_newlines (b # s))"
| "unescape_newlines s = s"

fun escape_newlines :: "string \<Rightarrow> string" where
  \<comment> \<open>how a key is written into an environment variable\<close>
  "escape_newlines [] = []"
| "escape_newlines (c # s) =
     (if c = char_of (10 :: nat) then char_of (92 :: nat) # CHR ''n'' # escape_newlines s
      else c # escape_newlines s)"

lemma unescape_cons: "a \<noteq> char_of (92 :: nat) \<Longrightarrow> unescape_newlines (a # s) = a # unescape_newlines s"
  by (cases s) auto

lemma unescape_escape:
  "char_of (92 :: nat) \<notin> set key \<Longrightarrow> unescape_newlines (escape_newlines key) = key"
proof (induction key)
  case (Cons c s)
  then have "c \<noteq> char_of (92 :: nat)" by auto
  with Cons show ?case by (auto simp: unescape_cons)
qed simp

subsection \<open>The API's configuration\<close>

record app_config =
  cf_github_app_id :: int64
  cf_github_app_slug :: string
  cf_github_app_private_key :: string
  cf_github_app_webhook_secret :: string
  cf_clerk_secret_key :: string
  cf_hmac_signing_key :: string
  cf_hmac_signing_key_prev :: string
  cf_watchdog_secret :: string

record gcs_config =
  cf_bucket :: string
  cf_endpoint :: string

record api_config =
  cf_app :: app_config
  cf_port :: string
  cf_db_url :: string
  cf_redis_url :: string
  cf_gcs :: gcs_config
  cf_cloud_tasks :: cloud_tasks_config
  cf_allowed_origins :: "string list"

type_synonym environment = "string \<Rightarrow> string option"

definition getenv :: "environment \<Rightarrow> string \<Rightarrow> string" where
  "getenv env k = (case env k of None \<Rightarrow> [] | Some v \<Rightarrow> v)"

definition tasks_enabled :: "cloud_tasks_config \<Rightarrow> bool" where
  "tasks_enabled c \<longleftrightarrow>
     ct_project c \<noteq> [] \<and> ct_location c \<noteq> [] \<and> ct_queue c \<noteq> [] \<and> ct_worker_url c \<noteq> []"

definition load_api_config ::
  "(string \<Rightarrow> environment \<Rightarrow> string option \<times> environment) \<Rightarrow> (environment \<Rightarrow> string + api_config)
     \<Rightarrow> environment \<Rightarrow> string + api_config" where
  "load_api_config load_file parse env =
     (let (err, env') =
        (if getenv env ''APP_ENV'' = ''dev'' \<and> getenv env ''ENV_FILE'' \<noteq> []
         then load_file (getenv env ''ENV_FILE'') env else (None, env))
      in case err of
        Some e \<Rightarrow> Inl e
      | None \<Rightarrow>
      (case parse env' of
        Inl e \<Rightarrow> Inl (''parse config: '' @ e)
      | Inr cfg \<Rightarrow>
          Inr (cfg\<lparr>cf_app := (cf_app cfg)
                 \<lparr>cf_github_app_private_key := unescape_newlines (cf_github_app_private_key (cf_app cfg))\<rparr>\<rparr>)))"

subsection \<open>The worker's configuration\<close>

record github_section =
  wc_app_id :: int64
  wc_private_key :: string
  wc_private_key_raw :: string
  wc_webhook_secret :: string

record worker_config =
  wc_database_url :: string
  wc_app_env :: string
  wc_workspace_dir :: string
  wc_zigzag_bin :: string
  wc_reports_dir :: string
  wc_job_timeout :: nanos
  wc_max_concurrency :: int
  wc_api_base_url :: string
  wc_hmac_key :: string
  wc_hmac_key_prev :: string
  wc_worker_mode :: string
  wc_port :: string
  wc_github :: github_section
  wc_gcs :: gcs_config

definition load_worker_config :: "(environment \<Rightarrow> string + worker_config) \<Rightarrow> string \<Rightarrow> environment \<Rightarrow> string + worker_config"
where
  \<comment> \<open>\<open>temp_dir\<close>: \<open>os.TempDir\<close>\<close>
  "load_worker_config parse temp_dir env =
     (case parse env of
        Inl e \<Rightarrow> Inl (''parse config: '' @ e)
      | Inr cfg \<Rightarrow>
          let cfg1 = (if wc_workspace_dir cfg = []
                      then cfg\<lparr>wc_workspace_dir := path_join [temp_dir, ''zagforge-workspace'']\<rparr> else cfg)
          in if wc_max_concurrency cfg1 < 1 then Inl ''invalid MAX_CONCURRENCY: must be >= 1''
             else Inr (cfg1\<lparr>wc_github := (wc_github cfg1)
                   \<lparr>wc_private_key := unescape_newlines (wc_private_key_raw (wc_github cfg1))\<rparr>\<rparr>))"

record worker_section =
  ws_workspace_dir :: string
  ws_zigzag_bin :: string
  ws_reports_dir :: string

definition init_worker_section :: "string \<Rightarrow> string + string \<Rightarrow> worker_section \<Rightarrow> string option \<times> worker_section" where
  \<comment> \<open>the method \<open>init\<close> of the API's \<open>WorkerConfig\<close>; \<open>getwd\<close>: the working directory, or an error\<close>
  "init_worker_section temp_dir getwd w =
     (let w1 = (if ws_workspace_dir w = []
                then w\<lparr>ws_workspace_dir := path_join [temp_dir, ''zagforge-workspace'']\<rparr> else w)
      in if \<not> is_abs (ws_reports_dir w1)
         then (case getwd of
                 Inl e \<Rightarrow> (Some e, w1)
               | Inr cwd \<Rightarrow> (None, w1\<lparr>ws_reports_dir := path_join [cwd, ws_reports_dir w1]\<rparr>))
         else (None, w1))"

lemma init_reports_dir_absolute:
  "init_worker_section temp_dir (Inr cwd) w = (err, w') \<Longrightarrow> is_abs cwd \<Longrightarrow> err = None \<and> is_abs (ws_reports_dir w')"
  by (auto simp: init_worker_section_def Let_def is_abs_path_join split: if_splits)

lemma load_worker_config_ok:
  assumes "load_worker_config parse temp_dir env = Inr cfg" and "is_abs temp_dir"
  shows "1 \<le> wc_max_concurrency cfg" and "wc_workspace_dir cfg \<noteq> []"
    and "wc_private_key (wc_github cfg) = unescape_newlines (wc_private_key_raw (wc_github cfg))"
  using assms is_abs_path_join [OF assms(2), of "[''zagforge-workspace'']"]
  by (auto simp: load_worker_config_def Let_def is_abs_def split: sum.splits if_splits)

end
