(* ===== verification/GithubClient.thy ===== *)
theory GithubClient
  imports Provider
begin

text \<open>
  The GitHub API client: \<^verbatim>\<open>shared/go/provider/github/{api,client,provider}.go\<close> (all but webhook
  validation, which is in \<open>Provider\<close>).

  Outside the repository: RSA keys and JWT signing (\<open>parse_key\<close>, \<open>sign\<close>), the HTTP service, \<open>git\<close>.  The URL type of \<open>net/url\<close> is used through its parser and printer only.
  A service call is a function of the URL and the headers: an error, or a status and a body.
  \<open>list_pages\<close> is the loop of \<open>ListRepos\<close>, with fuel: it need not end.
\<close>

record github_config =
  gh_app_id :: int64
  gh_private_key :: string
  gh_webhook_secret :: string
  gh_http_timeout :: nanos
  gh_base_url :: string

record github_repo =
  gr_id :: int64
  gr_full_name :: string
  gr_default_branch :: string

type_synonym headers = "(string \<times> string) list"
type_synonym service = "string \<Rightarrow> headers \<Rightarrow> string + (nat \<times> string)"

subsection \<open>Construction\<close>

definition default_api_base_url :: string where
  "default_api_base_url = ''https://api.github.com''"

definition github_api_version :: string where
  "github_api_version = ''2026-03-10''"

definition new_api_client ::
  "int64 \<Rightarrow> string \<Rightarrow> string \<Rightarrow> (github_config \<Rightarrow> github_config) list \<Rightarrow> string + github_config" where
  "new_api_client app_id private_key webhook_secret opts =
     (if length private_key = 0 then Inl ''privateKey must not be empty''
      else if webhook_secret = [] then Inl ''webhookSecret must not be empty''
      else Inr (fold (\<lambda>opt a. opt a) opts
             \<lparr>gh_app_id = app_id, gh_private_key = private_key, gh_webhook_secret = webhook_secret,
              gh_http_timeout = 30 * 1000000000, gh_base_url = default_api_base_url\<rparr>))"

definition with_base_url :: "string \<Rightarrow> github_config \<Rightarrow> github_config" where
  "with_base_url url a = a\<lparr>gh_base_url := url\<rparr>"

subsection \<open>Tokens\<close>

definition new_client_handler :: "github_config option \<Rightarrow> string + github_config" where
  \<comment> \<open>\<open>None\<close>: the nil pointer; a handler is its client and a logger\<close>
  "new_client_handler client =
     (case client of None \<Rightarrow> Inl ''NewClientHandler: client must not be nil'' | Some c \<Rightarrow> Inr c)"

lemma new_client_handler_Some [simp]: "new_client_handler (Some c) = Inr c"
  by (simp add: new_client_handler_def)

record jwt_claims =
  jc_issued_at :: int
  jc_expires_at :: int
  jc_issuer :: string

definition app_claims :: "nanos \<Rightarrow> int64 \<Rightarrow> jwt_claims" where
  \<comment> \<open>\<open>NewNumericDate\<close> keeps whole seconds\<close>
  "app_claims now app_id =
     (let iat = now - 60 * 1000000000
      in \<lparr>jc_issued_at = iat div 1000000000, jc_expires_at = (iat + 10 * 60 * 1000000000) div 1000000000,
          jc_issuer = format_int64 app_id\<rparr>)"

definition generate_app_jwt ::
  "(string \<Rightarrow> string + 'k) \<Rightarrow> ('k \<Rightarrow> jwt_claims \<Rightarrow> string + string) \<Rightarrow> nanos \<Rightarrow> github_config
     \<Rightarrow> string + string" where
  "generate_app_jwt parse_key sign now c =
     (case parse_key (gh_private_key c) of
        Inl e \<Rightarrow> Inl (''failed to parse private key: '' @ e)
      | Inr key \<Rightarrow>
          (case sign key (app_claims now (gh_app_id c)) of
             Inl e \<Rightarrow> Inl (''failed to sign JWT: '' @ e)
           | Inr token \<Rightarrow> Inr token))"

definition api_headers :: "string \<Rightarrow> headers" where
  "api_headers authorization =
     [(''Authorization'', authorization), (''Accept'', ''application/vnd.github+json''),
      (''X-GitHub-Api-Version'', github_api_version)]"

definition token_members :: "string members" where
  \<comment> \<open>the struct of the answer, which has the token only\<close>
  "token_members = [(''token'', StringSlot (\<lambda>s _. s))]"

definition generate_clone_token ::
  "(string + string) \<Rightarrow> github_config \<Rightarrow> string option \<Rightarrow> service
     \<Rightarrow> int64 \<Rightarrow> string + string" where
  \<comment> \<open>\<open>jwt\<close>: the result of \<open>generate_app_jwt\<close>\<close>
  "generate_clone_token jwt c new_request_error http installation =
     (case jwt of
        Inl e \<Rightarrow> Inl e
      | Inr app_jwt \<Rightarrow>
     (case new_request_error of
        Some e \<Rightarrow> Inl (''failed to create request: '' @ e)
      | None \<Rightarrow>
     (case http (gh_base_url c @ ''/app/installations/'' @ format_int64 installation @ ''/access_tokens'')
              (api_headers (''Bearer '' @ app_jwt)) of
        Inl e \<Rightarrow> Inl (''failed to call GitHub API: '' @ e)
      | Inr (status, body) \<Rightarrow>
          if status \<noteq> 201 then Inl (''GitHub API returned '' @ show_nat status @ '': '' @ body)
          else (case decode_stream token_members [] body of
             None \<Rightarrow> Inl ''failed to decode response''
           | Some token \<Rightarrow>
               if token = [] then Inl ''GitHub API returned empty token'' else Inr token))))"

subsection \<open>Cloning\<close>

record url =
  url_scheme :: string
  url_user :: "(string \<times> string) option"
  url_rest :: string

definition build_auth_url ::
  "(string \<Rightarrow> string + url) \<Rightarrow> (url \<Rightarrow> string) \<Rightarrow> string \<Rightarrow> string \<Rightarrow> string + string" where
  "build_auth_url parse print repo_url token =
     (case parse repo_url of
        Inl e \<Rightarrow> Inl (''invalid repo URL: '' @ e)
      | Inr u \<Rightarrow>
          if token \<noteq> [] \<and> url_scheme u = ''https''
          then Inr (print (u\<lparr>url_user := Some (''x-access-token'', token)\<rparr>))
          else Inr (print u))"

definition clone_repo ::
  "(string \<Rightarrow> string + url) \<Rightarrow> (url \<Rightarrow> string) \<Rightarrow> (string list \<Rightarrow> string option) \<Rightarrow> string \<Rightarrow> string
     \<Rightarrow> string \<Rightarrow> string \<Rightarrow> string option" where
  "clone_repo parse print run_command repo_url ref token dst =
     (case build_auth_url parse print repo_url token of
        Inl e \<Rightarrow> Some e
      | Inr auth_url \<Rightarrow>
          map_option (\<lambda>e. ''git clone failed: '' @ e)
            (run_command [''git'', ''clone'', ''--depth'', ''1'', ''--branch'', ref, auth_url, dst]))"

subsection \<open>Listing repositories\<close>

record repo_page =
  pg_total :: int
  pg_repos :: "github_repo list"

definition listed_repo_members :: "github_repo members" where
  "listed_repo_members =
     [(''id'', Int64Slot (\<lambda>n r. r\<lparr>gr_id := n\<rparr>)), (''full_name'', StringSlot (\<lambda>s r. r\<lparr>gr_full_name := s\<rparr>)),
      (''default_branch'', StringSlot (\<lambda>s r. r\<lparr>gr_default_branch := s\<rparr>))]"

definition no_repo :: github_repo where
  "no_repo = \<lparr>gr_id = 0, gr_full_name = [], gr_default_branch = []\<rparr>"

definition page_members :: "(int64 \<times> github_repo list \<times> github_repo list) members" where
  \<comment> \<open>the total count and the slice of the answer, see \<open>store_slice\<close>\<close>
  "page_members =
     [(''total_count'', Int64Slot (\<lambda>n (_, rs). (n, rs))),
      (''repositories'', SliceSlot
         (\<lambda>vs (n, rs). map_option (Pair n) (store_slice listed_repo_members no_repo vs rs))
         (\<lambda>(n, _). (n, [], [])))]"

definition decode_page :: "string \<Rightarrow> repo_page option" where
  "decode_page body =
     map_option (\<lambda>(n, rs, _). \<lparr>pg_total = sint n, pg_repos = rs\<rparr>) (decode_stream page_members (0, [], []) body)"

definition fetch_page ::
  "github_config \<Rightarrow> string \<Rightarrow> string option \<Rightarrow> service \<Rightarrow> nat \<Rightarrow> string + repo_page" where
  "fetch_page c token new_request_error http page =
     (case new_request_error of
        Some e \<Rightarrow> Inl (''create request: '' @ e)
      | None \<Rightarrow>
     (case http (gh_base_url c @ ''/installation/repositories?per_page=100&page='' @ show_nat page)
              (api_headers (''token '' @ token)) of
        Inl e \<Rightarrow> Inl (''list repos: '' @ e)
      | Inr (status, body) \<Rightarrow>
          if status \<noteq> 200 then Inl (''GitHub API returned '' @ show_nat status @ '': '' @ body)
          else (case decode_page body of None \<Rightarrow> Inl ''decode response'' | Some result \<Rightarrow> Inr result)))"

fun list_pages :: "nat \<Rightarrow> (nat \<Rightarrow> string + repo_page) \<Rightarrow> nat \<Rightarrow> github_repo list \<Rightarrow> (string + github_repo list) option"
where
  "list_pages 0 fetch page repos = None"
| "list_pages (Suc fuel) fetch page repos =
     (case fetch page of
        Inl e \<Rightarrow> Some (Inl e)
      | Inr result \<Rightarrow>
          let repos' = repos @ pg_repos result
          in if pg_total result \<le> int (length repos') then Some (Inr repos')
             else list_pages fuel fetch (page + 1) repos')"

definition list_repos ::
  "nat \<Rightarrow> (string + string) \<Rightarrow> (string \<Rightarrow> nat \<Rightarrow> string + repo_page) \<Rightarrow> (string + github_repo list) option" where
  \<comment> \<open>\<open>clone_token\<close>: the result of \<open>GenerateCloneToken\<close>; \<open>fetch token\<close>: \<open>fetch_page\<close> with it\<close>
  "list_repos fuel clone_token fetch =
     (case clone_token of
        Inl e \<Rightarrow> Some (Inl (''generate token: '' @ e))
      | Inr token \<Rightarrow> list_pages fuel (fetch token) 1 [])"

subsection \<open>Properties\<close>

definition serves :: "github_repo list \<Rightarrow> (nat \<Rightarrow> string + repo_page) \<Rightarrow> bool" where
  \<comment> \<open>the documented pagination: page \<open>p\<close> holds the \<open>p\<close>-th hundred, with the total count\<close>
  "serves all fetch \<longleftrightarrow>
     (\<forall>p \<ge> 1. fetch p = Inr \<lparr>pg_total = int (length all), pg_repos = take 100 (drop (100 * (p - 1)) all)\<rparr>)"

lemma list_pages_serves:
  assumes "serves all fetch"
  shows "0 < fuel \<Longrightarrow> length all \<le> 100 * (k + fuel) \<Longrightarrow>
     list_pages fuel fetch (k + 1) (take (100 * k) all) = Some (Inr all)"
proof (induction fuel arbitrary: k)
  case 0
  then show ?case by simp
next
  case (Suc fuel)
  have "fetch (k + 1) = Inr \<lparr>pg_total = int (length all), pg_repos = take 100 (drop (100 * k) all)\<rparr>"
    using assms by (simp add: serves_def)
  moreover have "take (100 * k) all @ take 100 (drop (100 * k) all) = take (100 * (k + 1)) all"
    using take_add [of "100 * k" 100 all] by (simp add: algebra_simps)
  ultimately have step: "list_pages (Suc fuel) fetch (k + 1) (take (100 * k) all) =
      (if length all \<le> 100 * (k + 1) then Some (Inr (take (100 * (k + 1)) all))
       else list_pages fuel fetch (k + 2) (take (100 * (k + 1)) all))"
    by (simp only: list_pages.simps sum.case Let_def repo_page.simps of_nat_le_iff length_take) auto
  show ?case
  proof (cases "length all \<le> 100 * (k + 1)")
    case True
    then show ?thesis by (simp only: step if_True) simp
  next
    case False
    then have "list_pages fuel fetch (k + 1 + 1) (take (100 * (k + 1)) all) = Some (Inr all)"
      using Suc.prems by (intro Suc.IH) auto
    with False show ?thesis by (simp only: step if_False) (simp add: add.assoc)
  qed
qed

lemma list_pages_stuck:
  assumes "\<And>p. p \<ge> 1 \<Longrightarrow> \<exists>r. fetch p = Inr r \<and> pg_repos r = [] \<and> int (length repos) < pg_total r" and "page \<ge> 1"
  shows "list_pages fuel fetch page repos = None"
  using assms(2)
proof (induction fuel arbitrary: page)
  case (Suc fuel)
  obtain r where "fetch page = Inr r" "pg_repos r = []" "int (length repos) < pg_total r"
    using assms(1) [OF Suc.prems] by blast
  then show ?case using Suc by simp
qed simp

definition repo_json :: "github_repo \<Rightarrow> json" where
  "repo_json r =
     JObject [(''id'', JNumber (format_int64 (gr_id r))), (''full_name'', JString (gr_full_name r)),
       (''default_branch'', JString (gr_default_branch r))]"

definition page_text :: "int64 \<Rightarrow> github_repo list \<Rightarrow> string" where
  \<comment> \<open>an answer of the service\<close>
  "page_text n rs =
     render (JObject [(''total_count'', JNumber (format_int64 n)), (''repositories'', JArray (map repo_json rs))])"

definition utf8_repo :: "github_repo \<Rightarrow> bool" where
  "utf8_repo r \<longleftrightarrow> valid_utf8 (gr_full_name r) \<and> valid_utf8 (gr_default_branch r)"

lemma page_literals [simp]:
  "clean_utf8 ''total_count'' = ''total_count''" "clean_utf8 ''repositories'' = ''repositories''"
  "clean_utf8 ''id'' = ''id''" "clean_utf8 ''full_name'' = ''full_name''"
  "clean_utf8 ''default_branch'' = ''default_branch''"
  by (simp_all add: clean_valid ascii_valid)

lemma find_page [simp]:
  "find_slot page_members ''total_count'' = Some (Int64Slot (\<lambda>n (_, rs). (n, rs)))"
  "find_slot page_members ''repositories'' = Some (SliceSlot
     (\<lambda>vs (n, rs). map_option (Pair n) (store_slice listed_repo_members no_repo vs rs)) (\<lambda>(n, _). (n, [], [])))"
  "find_slot listed_repo_members ''id'' = Some (Int64Slot (\<lambda>n r. r\<lparr>gr_id := n\<rparr>))"
  "find_slot listed_repo_members ''full_name'' = Some (StringSlot (\<lambda>s r. r\<lparr>gr_full_name := s\<rparr>))"
  "find_slot listed_repo_members ''default_branch'' = Some (StringSlot (\<lambda>s r. r\<lparr>gr_default_branch := s\<rparr>))"
  by (simp_all add: find_slot_def page_members_def listed_repo_members_def)

lemma store_listed:
  "list_all utf8_repo rs \<Longrightarrow>
     store_elements listed_repo_members no_repo (clean_elements (map repo_json rs)) [] = Some rs"
  by (induction rs) (simp_all add: repo_json_def utf8_repo_def no_repo_def clean_valid)

lemma decode_page_text:
  assumes "list_all utf8_repo rs"
  shows "decode_page (page_text n rs) = Some \<lparr>pg_total = sint n, pg_repos = rs\<rparr>"
proof -
  have "renderable_elements d (map repo_json rs)" if "0 < d" for d
    using that by (induction rs) (simp_all add: repo_json_def number_format_int64)
  then have "decode_stream page_members (0, [], []) (page_text n rs @ []) = Some (n, rs, [])"
    unfolding page_text_def
    by (subst decode_rendered(1)) (simp_all add: number_format_int64 max_nesting_def store_slice_def store_listed assms)
  then show ?thesis by (simp add: decode_page_def)
qed

text \<open>
  C31: \<open>ListRepos\<close> returns all repositories of the installation, in order and each once, when the
  service serves a fixed list in pages of a hundred as documented; it makes one call per started
  hundred (at least one), so fuel for that many is enough.
\<close>

theorem list_repos_complete:
  assumes "serves all (fetch_page c token None http)" and "length all \<le> 100 * fuel" and "0 < fuel"
  shows "list_repos fuel (Inr token) (\<lambda>token. fetch_page c token None http) = Some (Inr all)"
  using list_pages_serves [OF assms(1,3), of 0] assms(2) by (simp add: list_repos_def)

definition ex_repos :: "github_repo list" where
  "ex_repos = replicate 150 \<lparr>gr_id = 1, gr_full_name = ''a/b'', gr_default_branch = ''main''\<rparr>"

definition ex_github :: service where
  "ex_github url _ =
     (let p = digits_value (drop (length ''/installation/repositories?per_page=100&page='') url)
      in Inr (200, page_text 150 (take 100 (drop (100 * (p - 1)) ex_repos))))"

theorem list_repos_complete_witness:
  "list_repos 2 (Inr ''t'')
     (\<lambda>token. fetch_page \<lparr>gh_app_id = 1, gh_private_key = ''k'', gh_webhook_secret = ''s'', gh_http_timeout = 0,
        gh_base_url = []\<rparr> token None ex_github) = Some (Inr ex_repos)"
proof (rule list_repos_complete)
  have "list_all utf8_repo (take n (drop m ex_repos))" for n m
    by (auto simp: ex_repos_def utf8_repo_def ascii_valid list_all_iff dest!: in_set_takeD in_set_dropD)
  then show "serves ex_repos (fetch_page \<lparr>gh_app_id = 1, gh_private_key = ''k'', gh_webhook_secret = ''s'',
      gh_http_timeout = 0, gh_base_url = []\<rparr> ''t'' None ex_github)"
    by (simp add: serves_def fetch_page_def ex_github_def decode_page_text) (simp add: ex_repos_def)
qed (simp_all add: ex_repos_def)

lemma list_repos_never_returns:
  assumes "\<And>p. p \<ge> 1 \<Longrightarrow> \<exists>r. fetch token p = Inr r \<and> pg_repos r = [] \<and> 0 < pg_total r"
  shows "list_repos fuel (Inr token) fetch = None"
  using list_pages_stuck [of "fetch token" "[]" 1 fuel] assms by (simp add: list_repos_def)


end
