(* ===== verification/Server.thy ===== *)
theory Server
  imports Config GithubClient ApiClient Runner Storage
begin

text \<open>
  What the two programs build from their configuration: the parts of \<^verbatim>\<open>api/cmd/main.go\<close> and
  \<^verbatim>\<open>worker/cmd/main.go\<close> that choose between alternatives or can fail, with \<^verbatim>\<open>api/internal/db/connect.go\<close>.
  The failures of opening a connection are arguments.
\<close>

subsection \<open>Both programs\<close>

definition build_signer :: "string \<Rightarrow> string \<Rightarrow> signer" where
  "build_signer key prev =
     (let signer = new_signer key (30 * 60 * 1000000000)
      in if prev \<noteq> [] then with_previous_key signer prev else signer)"

subsection \<open>The API\<close>

definition build_enqueuer :: "cloud_tasks_config \<Rightarrow> string option \<Rightarrow> string + enqueuer" where
  \<comment> \<open>\<open>fault\<close>: the failure of creating the Cloud Tasks client\<close>
  "build_enqueuer c fault =
     (if tasks_enabled c then
        (case new_cloud_tasks_enqueuer c fault of
           Inl e \<Rightarrow> Inl (''create cloud tasks enqueuer: '' @ e)
         | Inr ct \<Rightarrow> Inr ct)
      else Inr NoopEnqueuer)"

record api_faults =
  af_logger :: "string option"
  af_pool :: "string option"
  af_ping :: "string option"
  af_redis_url :: "string option"
  af_redis_ping :: "string option"
  af_tasks :: "string option"

record api_parts =
  ap_github :: github_config
  ap_signer :: signer
  ap_enqueuer :: enqueuer

definition connect_db :: "string option \<Rightarrow> string option \<Rightarrow> string option" where
  \<comment> \<open>the error of \<open>Connect\<close>, from those of creating the pool and of the ping\<close>
  "connect_db pool ping =
     (case pool of Some e \<Rightarrow> Some (''create pgxpool: '' @ e)
      | None \<Rightarrow> (case ping of Some e \<Rightarrow> Some (''ping db: '' @ e) | None \<Rightarrow> None))"

definition build_api :: "string + api_config \<Rightarrow> api_faults \<Rightarrow> string + api_parts" where
  \<comment> \<open>\<open>run\<close> up to the service, its calls in order; \<open>loaded\<close>: the result of \<open>config.Load\<close>\<close>
  "build_api loaded f =
     (case loaded of Inl e \<Rightarrow> Inl (''load config: '' @ e) | Inr c \<Rightarrow>
     (case af_logger f of Some e \<Rightarrow> Inl (''init logger: '' @ e) | None \<Rightarrow>
     (case connect_db (af_pool f) (af_ping f) of Some e \<Rightarrow> Inl (''connect to db: '' @ e) | None \<Rightarrow>
     (case af_redis_url f of Some e \<Rightarrow> Inl (''parse redis url: '' @ e) | None \<Rightarrow>
     (case af_redis_ping f of Some e \<Rightarrow> Inl (''connect to redis: '' @ e) | None \<Rightarrow>
     (case new_api_client (cf_github_app_id (cf_app c)) (cf_github_app_private_key (cf_app c))
             (cf_github_app_webhook_secret (cf_app c)) [] of
        Inl e \<Rightarrow> Inl (''create API client: '' @ e)
      | Inr client \<Rightarrow>
     (case new_client_handler (Some client) of Inl e \<Rightarrow> Inl (''create client handler: '' @ e) | Inr ch \<Rightarrow>
          let signer = build_signer (cf_hmac_signing_key (cf_app c)) (cf_hmac_signing_key_prev (cf_app c))
          in (case build_enqueuer (cf_cloud_tasks c) (af_tasks f) of
                Inl e \<Rightarrow> Inl e
              | Inr enq \<Rightarrow> Inr \<lparr>ap_github = ch, ap_signer = signer, ap_enqueuer = enq\<rparr>))))))))"

subsection \<open>The worker\<close>

datatype zap_logger = DevelopmentLogger | ProductionLogger

definition new_logger :: "string \<Rightarrow> zap_logger" where
  "new_logger env = (if env = ''dev'' then DevelopmentLogger else ProductionLogger)"

definition poll_interval :: nanos where
  "poll_interval = 2 * 1000000000"

datatype worker_mode = HttpMode | PollMode

definition choose_mode :: "(string \<Rightarrow> string) \<Rightarrow> string \<Rightarrow> string + worker_mode" where
  \<comment> \<open>\<open>quote\<close>: the verb \<^verbatim>\<open>%q\<close>\<close>
  "choose_mode quote mode =
     (if mode = ''http'' then Inr HttpMode
      else if mode = ''poll'' then Inr PollMode
      else Inl (''unknown WORKER_MODE: '' @ quote mode @ '' (expected '' @ [CHR 0x22] @ ''http'' @ [CHR 0x22] @
              '' or '' @ [CHR 0x22] @ ''poll'' @ [CHR 0x22] @ '')''))"

record worker_faults =
  wk_logger :: "string option"
  wk_db :: "string option"
  wk_gcs :: "string option"

record worker_parts =
  wp_logger :: zap_logger
  wp_github :: github_config
  wp_client :: api_client
  wp_runner :: runner_config
  wp_mode :: worker_mode
  wp_poll_interval :: nanos
  wp_max_concurrency :: int

definition build_worker ::
  "(string \<Rightarrow> string) \<Rightarrow> (storage_error \<Rightarrow> string) \<Rightarrow> string + worker_config \<Rightarrow> worker_faults \<Rightarrow> string + worker_parts" where
  "build_worker quote show_storage loaded f =
     (case loaded of Inl e \<Rightarrow> Inl (''load config: '' @ e) | Inr cfg \<Rightarrow>
     (case wk_logger f of Some e \<Rightarrow> Inl (''init logger: '' @ e) | None \<Rightarrow>
     (case wk_db f of Some e \<Rightarrow> Inl (''connect to db: '' @ e) | None \<Rightarrow>
     (case new_api_client (wc_app_id (wc_github cfg)) (wc_private_key (wc_github cfg))
             (wc_webhook_secret (wc_github cfg)) [] of
        Inl e \<Rightarrow> Inl (''create API client: '' @ e)
      | Inr client \<Rightarrow>
     (case new_client_handler (Some client) of Inl e \<Rightarrow> Inl (''create client handler: '' @ e) | Inr ch \<Rightarrow>
     (case new_storage_client (cf_bucket (wc_gcs cfg)) (wk_gcs f) of
        Some e \<Rightarrow> Inl (''create gcs client: '' @ show_storage e)
      | None \<Rightarrow>
          let signer = build_signer (wc_hmac_key cfg) (wc_hmac_key_prev cfg);
              api = \<lparr>ac_base_url = wc_api_base_url cfg, ac_signer = signer\<rparr>;
              rc = \<lparr>rc_workspace_dir = wc_workspace_dir cfg, rc_zigzag_bin = wc_zigzag_bin cfg,
                    rc_reports_dir = wc_reports_dir cfg, rc_job_timeout = wc_job_timeout cfg\<rparr>
          in (case choose_mode quote (wc_worker_mode cfg) of
                Inl e \<Rightarrow> Inl e
              | Inr mode \<Rightarrow>
                  Inr \<lparr>wp_logger = new_logger (wc_app_env cfg), wp_github = ch, wp_client = api, wp_runner = rc, wp_mode = mode,
                       wp_poll_interval = poll_interval, wp_max_concurrency = wc_max_concurrency cfg\<rparr>)))))))"

subsection \<open>What a program that starts has checked\<close>

lemma build_api_ok:
  assumes "build_api (Inr c) f = Inr p"
  shows "gh_webhook_secret (ap_github p) = cf_github_app_webhook_secret (cf_app c)"
    and "gh_webhook_secret (ap_github p) \<noteq> []" and "gh_private_key (ap_github p) \<noteq> []"
    and "ap_signer p = build_signer (cf_hmac_signing_key (cf_app c)) (cf_hmac_signing_key_prev (cf_app c))"
    and "ap_enqueuer p = (if tasks_enabled (cf_cloud_tasks c) then CloudTasksEnqueuer (cf_cloud_tasks c) else NoopEnqueuer)"
  using assms
  by (auto simp: build_api_def build_enqueuer_def new_api_client_def Let_def split: option.splits if_splits sum.splits)

lemma build_worker_ok:
  assumes "build_worker quote show_storage (Inr cfg) f = Inr p"
  shows "ac_signer (wp_client p) = build_signer (wc_hmac_key cfg) (wc_hmac_key_prev cfg)"
    and "wc_worker_mode cfg = ''http'' \<or> wc_worker_mode cfg = ''poll''" and "cf_bucket (wc_gcs cfg) \<noteq> []"
  using assms
  by (auto simp: build_worker_def choose_mode_def new_api_client_def new_storage_client_def Let_def
        split: option.splits if_splits sum.splits)

lemma build_signer_keys:
  "signer_keys (build_signer key prev) = (if prev = [] then [key] else [key, prev])"
  "sg_key (build_signer key prev) = key" "sg_ttl (build_signer key prev) = 30 * 60 * 1000000000"
  by (simp_all add: build_signer_def Let_def signer_keys_def with_previous_key_def new_signer_def)

lemma rotation_is_one_way:
  assumes "old_key \<noteq> []" and "valid_time now" and "valid_time (clock + 30 * 60 * 1000000000)"
    and "now \<le> clock + 30 * 60 * 1000000000"
  shows "signer_validate hmac (build_signer new_key old_key) now job_id
           (signer_sign hmac (build_signer old_key []) clock job_id) = None \<and>
         (signer_validate hmac (build_signer old_key []) now job_id
           (signer_sign hmac (build_signer new_key old_key) clock job_id) = None \<longleftrightarrow>
          hmac old_key (token_payload job_id (unix (clock + 30 * 60 * 1000000000))) =
          hmac new_key (token_payload job_id (unix (clock + 30 * 60 * 1000000000))))"
proof -
  have fresh: "\<not> sint (unix (clock + 30 * 60 * 1000000000)) < sint (unix now)"
    by (rule unix_after_ttl(1) [OF assms(2-4)])
  let ?e = "unix (clock + 30 * 60 * 1000000000)"
  have "validate_token hmac now old_key job_id (sign_token hmac new_key job_id ?e) = None \<longleftrightarrow>
      hmac old_key (token_payload job_id ?e) = hmac new_key (token_payload job_id ?e)"
  proof (cases rule: validate_token_cases [of "sign_token hmac new_key job_id ?e" hmac old_key job_id now])
    case (signed e)
    then show ?thesis using fresh by (auto simp: sign_token_eq)
  next
    case other
    have "hmac old_key (token_payload job_id ?e) \<noteq> hmac new_key (token_payload job_id ?e)"
      using other(1) [of ?e] by (metis sign_token_eq)
    then show ?thesis by (simp only: other(2)) simp
  qed
  moreover have "validate_token hmac now old_key job_id (sign_token hmac old_key job_id ?e) = None"
    using fresh by (simp add: validate_token_signed)
  ultimately show ?thesis
    using assms(1)
    by (simp add: signer_validate_none signer_keys_def build_signer_def Let_def with_previous_key_def
          new_signer_def signer_sign_def)
qed

end
