(* ===== verification/ApiServer.thy ===== *)
theory ApiServer
  imports EndToEnd ReadApi Router Server
begin

text \<open>
  The API server: every route \<^verbatim>\<open>api/cmd/main.go\<close> registers, behind its middlewares, served by the mux.

  The state is the Redis server's and the \<open>world\<close> (database and task queue).  \<open>server_env\<close> holds the
  configuration the routes use and all that the outside decides while one request is served: the
  failures of calls, clock readings, new ids, and the code of other packages.  \<open>api_body\<close> has one
  constructor per kind of JSON body.
\<close>

subsection \<open>Handlers on one state and one body type\<close>

datatype api_body =
    StartBody start_response
  | StatusBody string
  | CountBody int
  | ProbeBody "string \<times> string"
  | JobBody job
  | JobsBody "job list page"
  | RepoBody repository
  | SnapshotBody snapshot
  | SnapshotsBody "snapshot list"
  | NoBody unit

definition api_json :: "(uuid \<Rightarrow> string) \<Rightarrow> (pgtime \<Rightarrow> string) \<Rightarrow> api_body \<Rightarrow> json" where
  \<comment> \<open>the value \<open>WriteJSON\<close> is given; \<open>us\<close> and \<open>fmt\<close> are how pgtype writes a UUID and a time\<close>
  "api_json us fmt b =
     (case b of
        StartBody x \<Rightarrow> start_response_json x
      | StatusBody status \<Rightarrow> status_response_json status
      | CountBody n \<Rightarrow> timeout_json n
      | ProbeBody x \<Rightarrow> probe_json x
      | JobBody j \<Rightarrow> response_json (Some (job_json us fmt j)) None
      | JobsBody p \<Rightarrow> response_json (list_json (map (job_json us fmt) (rs_data p))) (rs_next_cursor p)
      | RepoBody r \<Rightarrow> response_json (Some (repository_json us fmt r)) None
      | SnapshotBody s \<Rightarrow> response_json (Some (snapshot_json us fmt s)) None
      | SnapshotsBody ss \<Rightarrow> response_json (list_json (map (snapshot_json us fmt) ss)) None
      | NoBody _ \<Rightarrow> JNull)"

definition body_as :: "('a \<Rightarrow> 'b) \<Rightarrow> ('s, 'a) handler \<Rightarrow> ('s, 'b) handler" where
  "body_as f h r s = (case h r s of (reply, s') \<Rightarrow> (map_reply f reply, s'))"

definition on_db :: "(db, 'a) handler \<Rightarrow> (world, 'a) handler" where
  "on_db h r w = (case h r (w_db w) of (reply, d) \<Rightarrow> (reply, w\<lparr>w_db := d\<rparr>))"

definition reading :: "(request \<Rightarrow> db \<Rightarrow> 'a reply) \<Rightarrow> (world, 'a) handler" where
  "reading h r w = (h r (w_db w), w)"

record 'r server_env =
  sv_origins :: "string list"
  sv_app_slug :: string
  sv_webhook_secret :: string
  sv_watchdog_secret :: string
  sv_signer :: signer
  sv_enqueuer :: enqueuer
  sv_cors :: "cors_options \<Rightarrow> ('r \<times> world, api_body) middleware"
  sv_pipeline :: "'r pipeline"
  sv_verify :: "string \<Rightarrow> string + string"
  sv_hmac :: "string \<Rightarrow> string \<Rightarrow> string"
  sv_validate_start :: "start_request \<Rightarrow> field_err list"
  sv_validate_complete :: "complete_request \<Rightarrow> field_err list"
  sv_uuid_scan :: "string \<Rightarrow> uuid option"
  sv_uuid_string :: "uuid \<Rightarrow> string"
  sv_gen_token :: "int64 \<Rightarrow> string + string"
  sv_pg_time :: "nanos \<Rightarrow> pgtime"
  sv_location :: "nanos \<Rightarrow> int"
  sv_limit_clock :: nanos
  sv_token_clock :: nanos
  sv_now :: pgtime
  sv_read_error :: "string option"
  sv_ping :: "string option"
  sv_fault :: "string option"
  sv_push_io :: push_io
  sv_start_io :: start_io
  sv_complete_io :: complete_io

subsection \<open>The route groups\<close>

definition health_routes :: "'r server_env \<Rightarrow> ('r \<times> world, api_body) subroute list" where
  "health_routes e =
     [\<lparr>sub_method = ''GET'', sub_path = ''/livez'',
       sub_handler = lift_state (body_as ProbeBody (reading (\<lambda>_ _. liveness)))\<rparr>,
      \<lparr>sub_method = ''GET'', sub_path = ''/readyz'',
       sub_handler = lift_state (body_as ProbeBody (reading (\<lambda>_ _. readiness (sv_ping e))))\<rparr>]"

definition github_auth_routes :: "'r server_env \<Rightarrow> ('r \<times> world, api_body) subroute list" where
  "github_auth_routes e =
     [\<lparr>sub_method = ''GET'', sub_path = ''/auth/github/install'',
       sub_handler = lift_state (body_as NoBody (reading (\<lambda>r _. install_handler (sv_app_slug e) r)))\<rparr>,
      \<lparr>sub_method = ''GET'', sub_path = ''/auth/github/callback'',
       sub_handler = lift_state (body_as NoBody (reading (\<lambda>r _. install_callback r)))\<rparr>]"

definition webhook_entry :: "'r server_env \<Rightarrow> (world, unit) handler" where
  "webhook_entry e =
     webhook_handler (validate_webhook (sv_hmac e) (sv_webhook_secret e)) (sv_read_error e)
       (handle_push (sv_hmac e) (sv_uuid_string e) (sv_signer e) (sv_enqueuer e) (sv_push_io e))"

definition webhook_routes :: "'r server_env \<Rightarrow> ('r \<times> world, api_body) subroute list" where
  "webhook_routes e =
     [\<lparr>sub_method = ''POST'', sub_path = ''/internal/webhooks/github'',
       sub_handler = lift_state (body_as NoBody (webhook_entry e))\<rparr>]"

definition callback_routes :: "'r server_env \<Rightarrow> ('r \<times> world, api_body) subroute list" where
  "callback_routes e =
     [\<lparr>sub_method = ''POST'', sub_path = ''/internal/jobs/start'',
       sub_handler = lift_state (body_as StartBody (on_db
         (start_handler (sv_validate_start e) (sv_uuid_scan e) (sv_gen_token e) (sv_start_io e))))\<rparr>,
      \<lparr>sub_method = ''POST'', sub_path = ''/internal/jobs/complete'',
       sub_handler = lift_state (body_as StatusBody (on_db
         (complete_handler (sv_validate_complete e) (sv_uuid_scan e) (sv_complete_io e))))\<rparr>]"

definition watchdog_routes :: "'r server_env \<Rightarrow> ('r \<times> world, api_body) subroute list" where
  "watchdog_routes e =
     [\<lparr>sub_method = ''POST'', sub_path = ''/internal/watchdog/timeout'',
       sub_handler = lift_state (body_as CountBody (on_db (timeout_handler (sv_fault e) (sv_now e))))\<rparr>]"

definition v1_routes :: "'r server_env \<Rightarrow> ('r \<times> world, api_body) subroute list" where
  "v1_routes e =
     [\<lparr>sub_method = ''GET'', sub_path = ''/api/v1/repos/{repoID}'',
       sub_handler = lift_state (body_as RepoBody (reading (get_repo (sv_uuid_scan e) (sv_fault e))))\<rparr>,
      \<lparr>sub_method = ''GET'', sub_path = ''/api/v1/repos/{repoID}/jobs'',
       sub_handler = lift_state (body_as JobsBody (reading
         (list_jobs (sv_uuid_scan e) (sv_pg_time e) (sv_location e) (sv_now e) (sv_fault e))))\<rparr>,
      \<lparr>sub_method = ''GET'', sub_path = ''/api/v1/repos/{repoID}/jobs/{jobID}'',
       sub_handler = lift_state (body_as JobBody (reading (get_job (sv_uuid_scan e) (sv_fault e))))\<rparr>,
      \<lparr>sub_method = ''GET'', sub_path = ''/api/v1/repos/{repoID}/snapshots'',
       sub_handler = lift_state (body_as SnapshotsBody (reading (list_snapshots (sv_uuid_scan e) (sv_fault e))))\<rparr>,
      \<lparr>sub_method = ''GET'', sub_path = ''/api/v1/repos/{repoID}/snapshots/latest'',
       sub_handler = lift_state (body_as SnapshotBody (reading (latest_snapshot (sv_uuid_scan e) (sv_fault e))))\<rparr>,
      \<lparr>sub_method = ''GET'', sub_path = ''/api/v1/snapshots/{snapshotID}'',
       sub_handler = lift_state (body_as SnapshotBody (reading (get_snapshot (sv_uuid_scan e) (sv_fault e))))\<rparr>]"

definition webhook_group :: "'r server_env \<Rightarrow> ('r \<times> world, api_body) group" where
  "webhook_group e =
     group_use (rate_limit (sv_pipeline e) webhook_limit ''webhook'' (sv_limit_clock e))
       (group_use require_json new_group)"

definition callback_group :: "'r server_env \<Rightarrow> ('r \<times> world, api_body) group" where
  "callback_group e =
     group_use (jobtoken_auth (sv_hmac e) (sv_signer e) (sv_token_clock e) (sv_read_error e))
       (group_use require_json new_group)"

definition watchdog_group :: "'r server_env \<Rightarrow> ('r \<times> world, api_body) group" where
  "watchdog_group e = group_use (shared_secret (sv_watchdog_secret e)) new_group"

definition v1_group :: "'r server_env \<Rightarrow> ('r \<times> world, api_body) group" where
  "v1_group e =
     group_use (rate_limit (sv_pipeline e) api_limit ''api'' (sv_limit_clock e))
       (group_use (auth (sv_verify e)) new_group)"

definition build_routes :: "(string \<Rightarrow> string) \<Rightarrow> 'r server_env \<Rightarrow> string list + ('r \<times> world, api_body) mux" where
  "build_routes quote e =
     (let r0 = router_use [sv_cors e (cors (sv_origins e))] new_router in
      case create quote new_group (health_routes e) r0 of
        (_, Some errs) \<Rightarrow> Inl (''register health routes: '' # errs)
      | (r1, None) \<Rightarrow>
      (case create quote new_group (github_auth_routes e) r1 of
        (_, Some errs) \<Rightarrow> Inl (''register github auth routes: '' # errs)
      | (r2, None) \<Rightarrow>
      (case create quote (webhook_group e) (webhook_routes e) r2 of
        (_, Some errs) \<Rightarrow> Inl (''register internal routes: '' # errs)
      | (r3, None) \<Rightarrow>
      (case create quote (callback_group e) (callback_routes e) r3 of
        (_, Some errs) \<Rightarrow> Inl (''register callback routes: '' # errs)
      | (r4, None) \<Rightarrow>
      (case create quote (watchdog_group e) (watchdog_routes e) r4 of
        (_, Some errs) \<Rightarrow> Inl (''register watchdog routes: '' # errs)
      | (r5, None) \<Rightarrow>
      (case create quote (v1_group e) (v1_routes e) r5 of
        (_, Some errs) \<Rightarrow> Inl (''register api routes: '' # errs)
      | (r6, None) \<Rightarrow> Inr r6))))))"

lemmas group_defs =
  webhook_group_def callback_group_def watchdog_group_def v1_group_def group_use_def new_group_def

lemmas subroute_defs =
  health_routes_def github_auth_routes_def webhook_routes_def callback_routes_def watchdog_routes_def v1_routes_def

definition api_mux :: "'r server_env \<Rightarrow> ('r \<times> world, api_body) mux" where
  "api_mux e =
     \<lparr>mx_mws = [sv_cors e (cors (sv_origins e))],
      mx_routes =
        routes_of [] (health_routes e) @ routes_of [] (github_auth_routes e) @
        routes_of (gr_mws (webhook_group e)) (webhook_routes e) @
        routes_of (gr_mws (callback_group e)) (callback_routes e) @
        routes_of (gr_mws (watchdog_group e)) (watchdog_routes e) @
        routes_of (gr_mws (v1_group e)) (v1_routes e)\<rparr>"

lemma build_routes_ok: "build_routes quote e = Inr (api_mux e)"
proof -
  have ok: "list_all (\<lambda>s. sub_method s \<in> set route_methods) (health_routes e)"
    "list_all (\<lambda>s. sub_method s \<in> set route_methods) (github_auth_routes e)"
    "list_all (\<lambda>s. sub_method s \<in> set route_methods) (webhook_routes e)"
    "list_all (\<lambda>s. sub_method s \<in> set route_methods) (callback_routes e)"
    "list_all (\<lambda>s. sub_method s \<in> set route_methods) (watchdog_routes e)"
    "list_all (\<lambda>s. sub_method s \<in> set route_methods) (v1_routes e)"
    by (simp_all add: subroute_defs route_methods_def)
  show ?thesis
    by (simp add: build_routes_def create_ok ok router_use_eq new_router_def new_group_def api_mux_def Let_def)
qed

subsection \<open>What the routes can change\<close>

definition read_only :: "('r \<times> world, 'a) handler \<Rightarrow> bool" where
  "read_only h \<longleftrightarrow> (\<forall>r s reply s'. h r s = (reply, s') \<longrightarrow> snd s' = snd s)"

lemma read_only_reading [simp]: "read_only (lift_state (body_as f (reading h)))"
  unfolding read_only_def by (auto dest!: lift_state_snd simp: body_as_def reading_def)

lemma read_onlyD: "read_only h \<Longrightarrow> h r s = (reply, s') \<Longrightarrow> snd s' = snd s"
  unfolding read_only_def by blast

lemma on_db_change:
  assumes "lift_state (body_as f (on_db h)) r s = (reply, s')"
  obtains reply' d' where "h r (w_db (snd s)) = (reply', d')" and "snd s' = (snd s)\<lparr>w_db := d'\<rparr>"
  using lift_state_snd [OF assms] by (auto simp: body_as_def on_db_def split: prod.splits)

lemma callback_lift:
  "require_json (jobtoken_auth hmac sg now re (lift_state (body_as f (on_db h)))) =
   lift_state (body_as f (on_db (callback_route hmac sg now re h)))"
proof (intro ext)
  fix r :: request and s :: "'r \<times> world"
  show "require_json (jobtoken_auth hmac sg now re (lift_state (body_as f (on_db h)))) r s =
     lift_state (body_as f (on_db (callback_route hmac sg now re h))) r s"
    by (cases s)
       (auto simp: callback_route_def require_json_def jobtoken_auth_def lift_state_def body_as_def on_db_def
          err_response_def Let_def split: option.splits prod.splits)
qed

lemma shared_secret_lift:
  "shared_secret secret (lift_state (body_as f (on_db h))) =
   lift_state (body_as f (on_db (shared_secret secret h)))"
proof (intro ext)
  fix r :: request and s :: "'r \<times> world"
  show "shared_secret secret (lift_state (body_as f (on_db h))) r s =
     lift_state (body_as f (on_db (shared_secret secret h))) r s"
    by (cases s)
       (auto simp: shared_secret_eq lift_state_def body_as_def on_db_def err_response_def split: prod.splits)
qed

definition webhook_change :: "'r server_env \<Rightarrow> request \<Rightarrow> world \<Rightarrow> world \<Rightarrow> bool" where
  \<comment> \<open>the change a push signed with the webhook secret makes\<close>
  "webhook_change e r w w' \<longleftrightarrow>
     length (rq_body r) \<le> max_payload_bytes \<and>
     rq_header r ''X-Hub-Signature-256'' = ''sha256='' @ hex_encode (sv_hmac e (sv_webhook_secret e) (rq_body r)) \<and>
     rq_header r ''X-GitHub-Event'' = ''push'' \<and>
     (\<exists>p ev. parse_payload (rq_body r) = Some p \<and> ev_repo_id ev = pp_repo_id p \<and>
        ev_branch ev = branch_from_ref (pp_ref p) \<and> ev_commit ev = pp_after p \<and>
        w' = snd (handle_push (sv_hmac e) (sv_uuid_string e) (sv_signer e) (sv_enqueuer e) (sv_push_io e) ev
                    (rq_header r ''X-GitHub-Delivery'') w))"

definition callback_change :: "'r server_env \<Rightarrow> request \<Rightarrow> world \<Rightarrow> world \<Rightarrow> bool" where
  \<comment> \<open>a change to the one unfinished job the request's token was issued for\<close>
  "callback_change e r w w' \<longleftrightarrow>
     w_queue w' = w_queue w \<and>
     (\<exists>job_id job job'.
        signer_validate (sv_hmac e) (sv_signer e) (sv_token_clock e) job_id (extract_bearer r) = None \<and>
        sv_uuid_scan e job_id = Some (jid job) \<and> job \<in> set (jobs (w_db w)) \<and> \<not> is_terminal (jstatus job) \<and>
        jid job' = jid job \<and>
        jobs (w_db w') = map (\<lambda>x. if jid x = jid job then job' else x) (jobs (w_db w)))"

definition watchdog_change :: "'r server_env \<Rightarrow> request \<Rightarrow> world \<Rightarrow> world \<Rightarrow> bool" where
  \<comment> \<open>a sweep asked for with the watchdog's secret\<close>
  "watchdog_change e r w w' \<longleftrightarrow>
     sv_watchdog_secret e \<noteq> [] \<and> rq_header r ''Authorization'' = ''Bearer '' @ sv_watchdog_secret e \<and>
     w' = w\<lparr>w_db := (w_db w)
            \<lparr>jobs := map (\<lambda>j. if overdue (sv_now e) default_timeout_minutes j then timed_out (sv_now e) j else j)
                       (jobs (w_db w))\<rparr>\<rparr>"

lemma webhook_route_change:
  assumes "rt \<in> set (routes_of (gr_mws (webhook_group e)) (webhook_routes e))"
    and "wrap (rt_mws rt) (rt_handler rt) r s = (reply, s')" and "snd s' \<noteq> snd s"
  shows "rt_path rt = ''/internal/webhooks/github'' \<and> webhook_change e r (snd s) (snd s')"
proof -
  have h: "rt_path rt = ''/internal/webhooks/github''"
    "require_json
       (rate_limit (sv_pipeline e) webhook_limit ''webhook'' (sv_limit_clock e)
         (lift_state (body_as NoBody (webhook_entry e)))) r s = (reply, s')"
    using assms(1,2) by (auto simp: routes_of_def route_methods_def webhook_routes_def group_defs)
  obtain r' t where r: "(same_message OO same_message) r r'" and t: "snd t = snd s"
    and p: "lift_state (body_as NoBody (webhook_entry e)) r' t = (reply, s')"
    by (rule webhook_stack.chain.change_admitted [OF h(2) assms(3)])
  obtain reply' where w: "webhook_entry e r' (snd s) = (reply', snd s')"
    using lift_state_snd [OF p] t by (auto simp: body_as_def split: prod.splits)
  have same: "rq_body r' = rq_body r" "rq_header r' = rq_header r"
    using r by (auto simp: same_message_def)
  from webhook_effect [OF w [unfolded webhook_entry_def] assms(3)]
  show ?thesis by (auto simp: h(1) webhook_change_def same)
qed

lemma callback_route_change:
  assumes "rt \<in> set (routes_of (gr_mws (callback_group e)) (callback_routes e))"
    and "wrap (rt_mws rt) (rt_handler rt) r s = (reply, s')" and "snd s' \<noteq> snd s"
    and "wf_db (w_db (snd s))" and "complete_validator (sv_validate_complete e)"
  shows "(rt_path rt = ''/internal/jobs/start'' \<or> rt_path rt = ''/internal/jobs/complete'') \<and>
    callback_change e r (snd s) (snd s')"
proof -
  let ?c = "\<lambda>h. callback_route (sv_hmac e) (sv_signer e) (sv_token_clock e) (sv_read_error e) h"
  let ?start = "start_handler (sv_validate_start e) (sv_uuid_scan e) (sv_gen_token e) (sv_start_io e)"
  let ?complete = "complete_handler (sv_validate_complete e) (sv_uuid_scan e) (sv_complete_io e)"
  have h: "(rt_path rt = ''/internal/jobs/start'' \<and>
        lift_state (body_as StartBody (on_db (?c ?start))) r s = (reply, s')) \<or>
     (rt_path rt = ''/internal/jobs/complete'' \<and>
        lift_state (body_as StatusBody (on_db (?c ?complete))) r s = (reply, s'))"
    using assms(1,2) by (auto simp: routes_of_def route_methods_def callback_routes_def group_defs callback_lift)
  then obtain rs rc d' where c: "?c ?start r (w_db (snd s)) = (rs, d') \<or> ?c ?complete r (w_db (snd s)) = (rc, d')"
    and d: "snd s' = (snd s)\<lparr>w_db := d'\<rparr>"
    by (auto elim!: on_db_change)
  have "d' \<noteq> w_db (snd s)" using d assms(3) by auto
  from callback_effect [OF assms(4,5) this c] h
  show ?thesis by (auto simp: callback_change_def d)
qed

lemma watchdog_route_change:
  assumes "rt \<in> set (routes_of (gr_mws (watchdog_group e)) (watchdog_routes e))"
    and "wrap (rt_mws rt) (rt_handler rt) r s = (reply, s')" and "snd s' \<noteq> snd s"
  shows "rt_path rt = ''/internal/watchdog/timeout'' \<and> watchdog_change e r (snd s) (snd s')"
proof -
  have h: "rt_path rt = ''/internal/watchdog/timeout''"
    "lift_state (body_as CountBody (on_db (shared_secret (sv_watchdog_secret e)
       (timeout_handler (sv_fault e) (sv_now e))))) r s = (reply, s')"
    using assms(1,2) by (auto simp: routes_of_def route_methods_def watchdog_routes_def group_defs shared_secret_lift)
  obtain reply' d' where c: "shared_secret (sv_watchdog_secret e) (timeout_handler (sv_fault e) (sv_now e)) r
      (w_db (snd s)) = (reply', d')" and d: "snd s' = (snd s)\<lparr>w_db := d'\<rparr>"
    by (rule on_db_change [OF h(2)])
  have "d' \<noteq> w_db (snd s)" using d assms(3) by auto
  then show ?thesis
    using c by (auto simp: h(1) watchdog_change_def d shared_secret_eq timeout_handler_eq
        split: if_splits option.splits)
qed

lemma v1_route_unchanged:
  assumes "rt \<in> set (routes_of (gr_mws (v1_group e)) (v1_routes e))"
    and "wrap (rt_mws rt) (rt_handler rt) r s = (reply, s')"
  shows "snd s' = snd s"
proof -
  have "read_only (rt_handler rt)" and mws: "rt_mws rt = gr_mws (v1_group e)"
    using assms(1) by (auto simp: routes_of_def route_methods_def v1_routes_def)
  then have h: "\<And>r s reply s'. rt_handler rt r s = (reply, s') \<Longrightarrow> snd s' = snd s" by (blast dest: read_onlyD)
  have "auth (sv_verify e) (rate_limit (sv_pipeline e) api_limit ''api''
      (sv_limit_clock e) (rt_handler rt)) r s = (reply, s')"
    using assms(2) by (simp add: mws group_defs)
  with h show ?thesis by (rule api_stack.chain.harmless)
qed

lemma open_route_unchanged:
  assumes "rt \<in> set (routes_of [] (health_routes e)) \<union> set (routes_of [] (github_auth_routes e))"
    and "wrap (rt_mws rt) (rt_handler rt) r s = (reply, s')"
  shows "snd s' = snd s"
proof -
  have "read_only (rt_handler rt)" and "rt_mws rt = []"
    using assms(1) by (auto simp: routes_of_def route_methods_def health_routes_def github_auth_routes_def)
  then show ?thesis using assms(2) read_onlyD [of "rt_handler rt" r s reply s'] by simp
qed

lemma served_change:
  fixes e :: "'r server_env"
  assumes "chi_serves match serve" and "guard (sv_cors e (cors (sv_origins e))) snd (\<lambda>_. True) same_message"
    and "serve (api_mux e) path r s = (reply, s')" and "snd s' \<noteq> snd s"
  obtains rt ps r' t where "rt \<in> set (mx_routes (api_mux e))" and "rt_method rt = rq_method r"
    and "match (rt_path rt) path = Some ps" and "same_message r r'" and "snd t = snd s"
    and "wrap (rt_mws rt) (rt_handler rt) (r'\<lparr>rq_param := ps\<rparr>) t = (reply, s')"
proof -
  obtain core where serve: "serve (api_mux e) path = sv_cors e (cors (sv_origins e)) core"
    and core: "\<And>r s. (\<exists>reply. core r s = (reply, s)) \<or>
           (\<exists>rt \<in> set (mx_routes (api_mux e)). rt_method rt = rq_method r \<and>
              (\<exists>ps. match (rt_path rt) path = Some ps \<and>
                 core r s = wrap (rt_mws rt) (rt_handler rt) (r\<lparr>rq_param := ps\<rparr>) s))"
    by (rule chi_serves_cases [OF assms(1), of "api_mux e" path]) (auto simp: api_mux_def)
  from assms(3) have "sv_cors e (cors (sv_origins e)) core r s = (reply, s')" by (simp add: serve)
  then obtain r' t where r: "same_message r r'" and t: "snd t = snd s" and c: "core r' t = (reply, s')"
    by (rule guard.change_admitted [OF assms(2) _ assms(4)])
  have "\<not> (\<exists>reply. core r' t = (reply, t))" using c t assms(4) by auto
  then obtain rt ps where "rt \<in> set (mx_routes (api_mux e))" "rt_method rt = rq_method r'"
    "match (rt_path rt) path = Some ps" "core r' t = wrap (rt_mws rt) (rt_handler rt) (r'\<lparr>rq_param := ps\<rparr>) t"
    using core [of r' t] by blast
  with r t c show ?thesis by (intro that) (simp_all add: same_message_def)
qed

lemma change_same_message:
  assumes "same_message r r'"
  shows "webhook_change e (r'\<lparr>rq_param := ps\<rparr>) w w' = webhook_change e r w w'"
    and "callback_change e (r'\<lparr>rq_param := ps\<rparr>) w w' = callback_change e r w w'"
    and "watchdog_change e (r'\<lparr>rq_param := ps\<rparr>) w w' = watchdog_change e r w w'"
  using assms
  by (simp_all add: webhook_change_def callback_change_def watchdog_change_def same_message_def extract_bearer_def)

lemma mutating_routes_post:
  "rt \<in> set (mx_routes (api_mux e)) \<Longrightarrow>
     rt_path rt \<in> {''/internal/webhooks/github'', ''/internal/jobs/start'', ''/internal/jobs/complete'',
       ''/internal/watchdog/timeout''} \<Longrightarrow> rt_method rt = ''POST''"
  by (auto simp: api_mux_def routes_of_def route_methods_def subroute_defs)

subsection \<open>A concrete server\<close>

definition ex_match :: "string \<Rightarrow> string \<Rightarrow> (string \<Rightarrow> string) option" where
  "ex_match p path = (if p = path then Some (\<lambda>_. []) else None)"

definition ex_serve :: "('s, 'a) mux \<Rightarrow> string \<Rightarrow> ('s, 'a) handler" where
  "ex_serve mux path = wrap (mx_mws mux)
     (\<lambda>r s. case candidates ex_match mux (rq_method r) path of
        [] \<Rightarrow> (EmptyReply 404, s)
      | rt # _ \<Rightarrow> wrap (rt_mws rt) (rt_handler rt) (r\<lparr>rq_param := the (ex_match (rt_path rt) path)\<rparr>) s)"

lemma ex_chi_serves: "chi_serves ex_match (ex_serve :: ('s, 'a) mux \<Rightarrow> string \<Rightarrow> ('s, 'a) handler)"
  unfolding chi_serves_def
proof (intro allI)
  fix mux :: "('s, 'a) mux" and path
  let ?core = "\<lambda>r s. case candidates ex_match mux (rq_method r) path of
        [] \<Rightarrow> (EmptyReply 404, s)
      | rt # _ \<Rightarrow> wrap (rt_mws rt) (rt_handler rt) (r\<lparr>rq_param := the (ex_match (rt_path rt) path)\<rparr>) s"
  show "\<exists>core. ex_serve mux path = wrap (mx_mws mux) core \<and>
        (\<forall>r s. (candidates ex_match mux (rq_method r) path = [] \<longrightarrow> (\<exists>reply. core r s = (reply, s))) \<and>
               (candidates ex_match mux (rq_method r) path \<noteq> [] \<longrightarrow>
                  (\<exists>rt \<in> set (candidates ex_match mux (rq_method r) path).
                     core r s = wrap (rt_mws rt) (rt_handler rt)
                       (r\<lparr>rq_param := the (ex_match (rt_path rt) path)\<rparr>) s)))"
    by (rule exI [of _ ?core]) (auto simp: ex_serve_def neq_Nil_conv)
qed

definition ex_server :: "unit server_env" where
  "ex_server = \<lparr>sv_origins = [], sv_app_slug = ''zagforge'', sv_webhook_secret = ''s'', sv_watchdog_secret = ''w'',
     sv_signer = ex_signer, sv_enqueuer = NoopEnqueuer, sv_cors = (\<lambda>_ nxt. nxt),
     sv_pipeline = (\<lambda>_ rs. (Inr 0, rs)),
     sv_verify = (\<lambda>_. Inr ''user_1''), sv_hmac = ex_hmac,
     sv_validate_start = (\<lambda>_. []), sv_validate_complete = ex_vstruct,
     sv_uuid_scan = ex_scan, sv_uuid_string = ex_uuid, sv_gen_token = (\<lambda>_. Inr ''ghs''),
     sv_pg_time = (\<lambda>t. t div 1000), sv_location = (\<lambda>_. 0), sv_limit_clock = 0, sv_token_clock = 1,
     sv_now = 2000000000, sv_read_error = None, sv_ping = None, sv_fault = None, sv_push_io = ex_io 9 100,
     sv_start_io = ex_start_io, sv_complete_io = ex_complete_io\<rparr>"

lemma ex_server_simps [simp]:
  "sv_cors ex_server = (\<lambda>_ nxt. nxt)" "sv_validate_complete ex_server = ex_vstruct"
  "sv_watchdog_secret ex_server = ''w''" "sv_fault ex_server = None" "sv_now ex_server = 2000000000"
  by (simp_all add: ex_server_def)

lemma guard_id: "guard (\<lambda>nxt. nxt) v (\<lambda>_. True) same_message"
  by (rule guard.intro) (blast intro: same_message_refl)

definition ex_sweep_request :: request where
  "ex_sweep_request = ex_request\<lparr>rq_header := (\<lambda>h. if h = ''Authorization'' then ''Bearer w'' else [])\<rparr>"

lemma ex_sweep_served:
  "ex_serve (api_mux ex_server) ''/internal/watchdog/timeout'' ex_sweep_request
     ((), ex_world [ex_job 3 Running ''a'' 20]) =
   (JsonReply 200 (CountBody 1), ((), ex_world [timed_out 2000000000 (ex_job 3 Running ''a'' 20)]))"
proof -
  have c: "candidates ex_match (api_mux ex_server) ''POST'' ''/internal/watchdog/timeout'' =
      routes_of (gr_mws (watchdog_group ex_server)) (watchdog_routes ex_server)"
    by (simp add: candidates_def api_mux_def routes_of_def route_methods_def subroute_defs ex_match_def)
  have o: "overdue 2000000000 default_timeout_minutes (ex_job 3 Running ''a'' 20)"
    by (simp add: overdue_def default_timeout_minutes_def ex_job_def)
  have m: "mx_mws (api_mux ex_server) = [\<lambda>nxt. nxt]" by (simp add: api_mux_def)
  show ?thesis
    by (simp add: ex_serve_def m c ex_sweep_request_def ex_request_def routes_of_def route_methods_def
          watchdog_routes_def group_defs ex_match_def shared_secret_lift)
       (simp add: lift_state_def body_as_def on_db_def shared_secret_eq timeout_handler_eq o ex_world_def ex_db_def)
qed

subsection \<open>Properties\<close>

text \<open>
  C3: Nothing but the four authorised operations changes the database or the task queue through the
  API, whatever the request and whatever calls fail: the request is a POST, and either to the webhook
  path, signed with the webhook secret, with the effect of \<open>HandlePush\<close> on the payload; or to a
  callback path, with a token the server accepts for the one unfinished job whose row changes; or
  to the watchdog path, with the watchdog's secret, with the effect of a sweep.
\<close>

theorem api_changes_are_authorised:
  fixes e :: "'r server_env"
  assumes "chi_serves match serve" and "guard (sv_cors e (cors (sv_origins e))) snd (\<lambda>_. True) same_message"
    and "complete_validator (sv_validate_complete e)" and "wf_db (w_db (snd s))"
    and "build_routes quote e = Inr mux" and "serve mux path r s = (reply, s')" and "snd s' \<noteq> snd s"
  shows "rq_method r = ''POST'' \<and>
     (match ''/internal/webhooks/github'' path \<noteq> None \<and> webhook_change e r (snd s) (snd s') \<or>
      (match ''/internal/jobs/start'' path \<noteq> None \<or> match ''/internal/jobs/complete'' path \<noteq> None) \<and>
        callback_change e r (snd s) (snd s') \<or>
      match ''/internal/watchdog/timeout'' path \<noteq> None \<and> watchdog_change e r (snd s) (snd s'))"
proof -
  from assms(5,6) have served: "serve (api_mux e) path r s = (reply, s')" by (simp add: build_routes_ok)
  obtain rt ps r' t where rt: "rt \<in> set (mx_routes (api_mux e))" "rt_method rt = rq_method r"
    and m: "match (rt_path rt) path = Some ps" and r: "same_message r r'" and t: "snd t = snd s"
    and h: "wrap (rt_mws rt) (rt_handler rt) (r'\<lparr>rq_param := ps\<rparr>) t = (reply, s')"
    by (rule served_change [OF assms(1,2) served assms(7)])
  have change: "snd s' \<noteq> snd t" using assms(7) t by simp
  consider
      (unguarded) "rt \<in> set (routes_of [] (health_routes e)) \<union> set (routes_of [] (github_auth_routes e))"
    | (webhook) "rt \<in> set (routes_of (gr_mws (webhook_group e)) (webhook_routes e))"
    | (callback) "rt \<in> set (routes_of (gr_mws (callback_group e)) (callback_routes e))"
    | (watchdog) "rt \<in> set (routes_of (gr_mws (watchdog_group e)) (watchdog_routes e))"
    | (v1) "rt \<in> set (routes_of (gr_mws (v1_group e)) (v1_routes e))"
    using rt(1) by (auto simp: api_mux_def)
  then show ?thesis
  proof cases
    case unguarded
    then show ?thesis using open_route_unchanged [OF _ h] change by blast
  next
    case webhook
    from webhook_route_change [OF this h change] show ?thesis
      using m rt mutating_routes_post [OF rt(1)] by (auto simp: change_same_message [OF r] t)
  next
    case callback
    from callback_route_change [OF this h change] assms(3,4) show ?thesis
      using m rt mutating_routes_post [OF rt(1)] by (auto simp: change_same_message [OF r] t)
  next
    case watchdog
    from watchdog_route_change [OF this h change] show ?thesis
      using m rt mutating_routes_post [OF rt(1)] by (auto simp: change_same_message [OF r] t)
  next
    case v1
    then show ?thesis using v1_route_unchanged [OF _ h] change by blast
  qed
qed

theorem api_changes_are_authorised_witness:
  "watchdog_change ex_server ex_sweep_request (ex_world [ex_job 3 Running ''a'' 20])
     (ex_world [timed_out 2000000000 (ex_job 3 Running ''a'' 20)])"
proof -
  have "jstatus (hd (jobs (w_db (ex_world [timed_out 2000000000 (ex_job 3 Running ''a'' 20)])))) \<noteq>
      jstatus (hd (jobs (w_db (ex_world [ex_job 3 Running ''a'' 20]))))" by simp
  then have "ex_world [timed_out 2000000000 (ex_job 3 Running ''a'' 20)] \<noteq> ex_world [ex_job 3 Running ''a'' 20]"
    by metis
  then show ?thesis
    using api_changes_are_authorised [OF ex_chi_serves _ _ _ build_routes_ok ex_sweep_served]
    by (simp add: guard_id ex_match_def)
qed

end
