(* ===== verification/FullSystem.thy ===== *)
theory FullSystem
  imports ApiServer
begin

text \<open>
  A worker against the whole API server: the client's requests travel by URL to the mux, through the
  global and the group middlewares, to the handlers.

  \<open>network\<close> strips the base URL and lets the mux serve the path.  \<open>server_exec\<close> is the executor whose
  start and complete calls go over it; \<open>server_exec_lift\<close> says that it does to the database what the
  executor connected to the two routes does (\<open>connected_env\<close>), and to nothing else anything.
\<close>

definition network ::
  "(('s, 'a) mux \<Rightarrow> string \<Rightarrow> ('s, 'a) handler) \<Rightarrow> string \<Rightarrow> ('s, 'a) mux \<Rightarrow> ('s, 'a) transport" where
  "network serve base mux url r s = (case serve mux (drop (length base) url) r s of (reply, s') \<Rightarrow> (Inr reply, s'))"

definition server_exec ::
  "((('r \<times> world), api_body) mux \<Rightarrow> string \<Rightarrow> ('r \<times> world, api_body) handler) \<Rightarrow> 'r server_env
     \<Rightarrow> 'r server_env \<Rightarrow> (pgtime \<Rightarrow> string) \<Rightarrow> api_client \<Rightarrow> nanos \<Rightarrow> nanos \<Rightarrow> (db, 't) exec_env \<Rightarrow> ('r \<times> world, 't) exec_env" where
  \<comment> \<open>the start call is served under \<open>e1\<close>, the complete call under \<open>e2\<close>\<close>
  "server_exec serve e1 e2 fmt c start_clock complete_clock env =
     \<lparr>ee_start = client_start (sv_hmac e1) c start_clock None (network serve (ac_base_url c) (api_mux e1))
         (reply_text (api_json (sv_uuid_string e1) fmt)),
      ee_complete = client_complete (sv_hmac e1) c complete_clock None
         (network serve (ac_base_url c) (api_mux e2)),
      ee_show = ee_show env, ee_run = ee_run env, ee_config = ee_config env, ee_read_fails = ee_read_fails env,
      ee_upload = ee_upload env, ee_show_storage = ee_show_storage env\<rparr>"

definition static_paths :: "(string \<Rightarrow> string \<Rightarrow> (string \<Rightarrow> string) option) \<Rightarrow> bool" where
  \<comment> \<open>chi: a pattern without a parameter or a wildcard matches itself only, and gives no parameters\<close>
  "static_paths match \<longleftrightarrow>
     (\<forall>p path. CHR ''{'' \<notin> set p \<and> CHR ''*'' \<notin> set p \<longrightarrow> match p path = (if p = path then Some (\<lambda>_. []) else None))"

definition passes_same_origin :: "('s, 'a) middleware \<Rightarrow> bool" where
  \<comment> \<open>cors: a request without an \<^verbatim>\<open>Origin\<close> header that is no \<^verbatim>\<open>OPTIONS\<close> request is not handled by the package\<close>
  "passes_same_origin m \<longleftrightarrow>
     (\<forall>nxt r s. rq_header r ''Origin'' = [] \<and> rq_method r \<noteq> ''OPTIONS'' \<longrightarrow> m nxt r s = nxt r s)"

definition route_env :: "'r server_env \<Rightarrow> 'r server_env \<Rightarrow> api_env" where
  "route_env e1 e2 =
     \<lparr>ae_hmac = sv_hmac e1, ae_signer = sv_signer e1,
      ae_start_now = sv_token_clock e1, ae_complete_now = sv_token_clock e2,
      ae_validate_start = sv_validate_start e1, ae_validate_complete = sv_validate_complete e1,
      ae_uuid_scan = sv_uuid_scan e1, ae_gen_token = sv_gen_token e1, ae_start_io = sv_start_io e1,
      ae_complete_io = sv_complete_io e2\<rparr>"

definition same_program :: "'r server_env \<Rightarrow> 'r server_env \<Rightarrow> bool" where
  \<comment> \<open>the second request is served by the same program: only what the outside decides may differ\<close>
  "same_program e1 e2 \<longleftrightarrow>
     sv_hmac e2 = sv_hmac e1 \<and> sv_signer e2 = sv_signer e1 \<and>
     sv_validate_complete e2 = sv_validate_complete e1 \<and> sv_uuid_scan e2 = sv_uuid_scan e1 \<and>
     sv_read_error e1 = None \<and> sv_read_error e2 = None"

lemma same_program_refl: "sv_read_error e = None \<Longrightarrow> same_program e e"
  by (simp add: same_program_def)

subsection \<open>What the server answers on the callback paths\<close>

lemma callback_candidates:
  assumes "static_paths match"
  shows "candidates match (api_mux e) ''POST'' ''/internal/jobs/start'' =
      [hd (routes_of (gr_mws (callback_group e)) (callback_routes e))]"
    and "candidates match (api_mux e) ''POST'' ''/internal/jobs/complete'' =
      [hd (tl (routes_of (gr_mws (callback_group e)) (callback_routes e)))]"
  using assms
  by (simp_all add: candidates_def api_mux_def routes_of_def route_methods_def subroute_defs static_paths_def)

lemma callback_route_params:
  assumes "\<And>r r' d. rq_body r' = rq_body r \<Longrightarrow> rq_job_id r' = rq_job_id r \<Longrightarrow> h r' d = h r d"
  shows "callback_route hmac sg now re h (r\<lparr>rq_param := ps\<rparr>) d = callback_route hmac sg now re h r d"
proof -
  have same: "extract_bearer (r\<lparr>rq_param := ps\<rparr>) = extract_bearer r" "is_json (r\<lparr>rq_param := ps\<rparr>) = is_json r"
    by (simp_all add: extract_bearer_def is_json_def del: cut_prefix.simps)
  have "h (r\<lparr>rq_param := ps, rq_body := b, rq_job_id := i\<rparr>) d = h (r\<lparr>rq_body := b, rq_job_id := i\<rparr>) d" for b i
    by (rule assms) simp_all
  then show ?thesis
    by (simp add: callback_route_def require_json_def jobtoken_auth_def same Let_def split: option.split)
qed

lemma handlers_read:
  assumes "rq_body r' = rq_body r" and "rq_job_id r' = rq_job_id r"
  shows "start_handler vs scan gen io r' d = start_handler vs scan gen io r d"
    and "complete_handler vs' scan io' r' d = complete_handler vs' scan io' r d"
proof -
  have "job_id_from_context r' = job_id_from_context r" by (simp add: job_id_from_context_def assms(2))
  note eqs = this assms(1)
  show "start_handler vs scan gen io r' d = start_handler vs scan gen io r d"
    unfolding start_handler_def eqs by (rule refl)
  show "complete_handler vs' scan io' r' d = complete_handler vs' scan io' r d"
    unfolding complete_handler_def eqs by (rule refl)
qed

lemma route_params:
  "start_at a (r\<lparr>rq_param := ps\<rparr>) d = start_at a r d"
  "complete_at a (r\<lparr>rq_param := ps\<rparr>) d = complete_at a r d"
  unfolding start_at_def complete_at_def
  by (rule callback_route_params, erule (1) handlers_read)+

lemma served_alone:
  assumes "chi_serves match serve" and "passes_same_origin (sv_cors e (cors (sv_origins e)))"
    and "rq_header r ''Origin'' = [] \<and> rq_method r \<noteq> ''OPTIONS''" and "candidates match (api_mux e) (rq_method r) path = [rt]"
    and "match (rt_path rt) path = Some ps"
  shows "serve (api_mux e) path r s = wrap (rt_mws rt) (rt_handler rt) (r\<lparr>rq_param := ps\<rparr>) s"
proof -
  obtain core where c: "serve (api_mux e) path = sv_cors e (cors (sv_origins e)) core"
      "core r s = wrap (rt_mws rt) (rt_handler rt) (r\<lparr>rq_param := ps\<rparr>) s"
    by (rule chi_serves_cases [OF assms(1), of "api_mux e" path]) (use assms(4,5) in \<open>auto simp: api_mux_def\<close>)
  have "sv_cors e (cors (sv_origins e)) core r s = core r s"
    using assms(2,3) unfolding passes_same_origin_def by blast
  then show ?thesis by (simp only: c)
qed

definition lift_answer :: "('a \<Rightarrow> api_body) \<Rightarrow> 'a reply \<times> db \<Rightarrow> 'r \<times> world \<Rightarrow> api_body reply \<times> ('r \<times> world)" where
  "lift_answer f x s = (case x of (reply, d) \<Rightarrow> (map_reply f reply, (fst s, (snd s)\<lparr>w_db := d\<rparr>)))"

lemma lift_state_answer: "lift_state (body_as f (on_db h)) r s = lift_answer f (h r (w_db (snd s))) s"
  by (cases s) (auto simp: lift_state_def body_as_def on_db_def lift_answer_def split: prod.split)

lemma server_callbacks:
  assumes "chi_serves match serve" and "static_paths match"
    and "passes_same_origin (sv_cors e2 (cors (sv_origins e2)))" "passes_same_origin (sv_cors e1 (cors (sv_origins e1)))"
    and "same_program e1 e2" and "rq_header r ''Origin'' = []" and "rq_method r = ''POST''"
  shows "serve (api_mux e1) ''/internal/jobs/start'' r s =
      lift_answer StartBody (start_at (route_env e1 e2) r (w_db (snd s))) s"
    and "serve (api_mux e2) ''/internal/jobs/complete'' r s =
      lift_answer StatusBody (complete_at (route_env e1 e2) r (w_db (snd s))) s"
proof -
  note c = callback_candidates [OF assms(2)]
  have plain: "rq_header r ''Origin'' = [] \<and> rq_method r \<noteq> ''OPTIONS''" using assms(6,7) by simp
  have p: "match ''/internal/jobs/start'' ''/internal/jobs/start'' = Some (\<lambda>_. [])"
    "match ''/internal/jobs/complete'' ''/internal/jobs/complete'' = Some (\<lambda>_. [])"
    using assms(2) by (simp_all add: static_paths_def)
  have "serve (api_mux e1) ''/internal/jobs/start'' r s =
      lift_answer StartBody (start_at (route_env e1 e2) (r\<lparr>rq_param := \<lambda>_. []\<rparr>) (w_db (snd s))) s"
    by (subst served_alone [OF assms(1,4) plain c(1) [of e1, folded assms(7)]])
       (use p assms(5) in \<open>simp_all add: routes_of_def route_methods_def callback_routes_def group_defs callback_lift
          lift_state_answer start_at_def route_env_def same_program_def\<close>)
  then show "serve (api_mux e1) ''/internal/jobs/start'' r s =
      lift_answer StartBody (start_at (route_env e1 e2) r (w_db (snd s))) s"
    by (simp only: route_params)
  have "serve (api_mux e2) ''/internal/jobs/complete'' r s =
      lift_answer StatusBody (complete_at (route_env e1 e2) (r\<lparr>rq_param := \<lambda>_. []\<rparr>) (w_db (snd s))) s"
    by (subst served_alone [OF assms(1,3) plain c(2) [of e2, folded assms(7)]])
       (use p assms(5) in \<open>simp_all add: routes_of_def route_methods_def callback_routes_def group_defs callback_lift
          lift_state_answer complete_at_def route_env_def same_program_def\<close>)
  then show "serve (api_mux e2) ''/internal/jobs/complete'' r s =
      lift_answer StatusBody (complete_at (route_env e1 e2) r (w_db (snd s))) s"
    by (simp only: route_params)
qed

subsection \<open>The executor over the network\<close>

definition lift_result :: "'x \<times> db \<Rightarrow> 'r \<times> world \<Rightarrow> 'x \<times> ('r \<times> world)" where
  "lift_result x s = (case x of (res, d) \<Rightarrow> (res, (fst s, (snd s)\<lparr>w_db := d\<rparr>)))"

lemma lift_result_simps [simp]:
  "lift_result (res, w_db (snd s)) s = (res, s)"
  "lift_result (res, d) s = (res, (fst s, (snd s)\<lparr>w_db := d\<rparr>))"
  by (simp_all add: lift_result_def prod_eq_iff)

lemma reply_status_map [simp]: "reply_status (map_reply f reply) = reply_status reply"
  by (cases reply) simp_all

lemma start_reply_text: "reply_text (api_json us fmt) (map_reply StartBody reply) = reply_text start_response_json reply"
  by (cases reply) (simp_all add: reply_text_def api_json_def)

lemma client_start_lift:
  assumes "\<And>tok body. serve mux ''/internal/jobs/start'' (callback_request tok body) s =
      lift_answer f (route (callback_request tok body) (w_db (snd s))) s"
  shows "client_start hmac c t None (network serve (ac_base_url c) mux) text j s =
     lift_result (client_start hmac c t None (deliver route) (\<lambda>reply. text (map_reply f reply)) j
       (w_db (snd s))) s"
  by (auto simp: client_start_def network_def deliver_def Let_def assms lift_answer_def
        split: sum.split prod.split option.split)

lemma client_complete_lift:
  assumes "\<And>tok body. serve mux ''/internal/jobs/complete'' (callback_request tok body) s =
      lift_answer f (route (callback_request tok body) (w_db (snd s))) s"
  shows "client_complete hmac c t None (network serve (ac_base_url c) mux) b s =
     lift_result (client_complete hmac c t None (deliver route) b (w_db (snd s))) s"
  by (auto simp: client_complete_def network_def deliver_def Let_def assms lift_answer_def
        split: sum.split prod.split option.split)

definition lift_exec :: "(db, 't) exec_env \<Rightarrow> ('r \<times> world, 't) exec_env" where
  "lift_exec env =
     \<lparr>ee_start = (\<lambda>j s. lift_result (ee_start env j (w_db (snd s))) s),
      ee_complete = (\<lambda>b s. lift_result (ee_complete env b (w_db (snd s))) s),
      ee_show = ee_show env, ee_run = ee_run env, ee_config = ee_config env, ee_read_fails = ee_read_fails env,
      ee_upload = ee_upload env, ee_show_storage = ee_show_storage env\<rparr>"

definition on_database :: "('r \<times> world) exec_state \<Rightarrow> db exec_state" where
  "on_database st = \<lparr>es_api = w_db (snd (es_api st)), es_reports = es_reports st, es_bucket = es_bucket st\<rparr>"

definition put_database :: "('r \<times> world) exec_state \<Rightarrow> db exec_state \<Rightarrow> ('r \<times> world) exec_state" where
  "put_database st st0 =
     \<lparr>es_api = (fst (es_api st), (snd (es_api st))\<lparr>w_db := es_api st0\<rparr>), es_reports = es_reports st0,
      es_bucket = es_bucket st0\<rparr>"

lemma execute_lift:
  "execute (Some (lift_exec env)) job_id org repo st =
     put_database st (execute (Some env) job_id org repo (on_database st))"
  by (cases st)
     (auto simp: execute_def lift_exec_def on_database_def put_database_def complete_failed_def lift_result_def
        Let_def split: sum.split prod.split option.split)

lemma server_exec_lift:
  assumes "chi_serves match serve" and "static_paths match"
    and "passes_same_origin (sv_cors e2 (cors (sv_origins e2)))" "passes_same_origin (sv_cors e1 (cors (sv_origins e1)))"
    and "same_program e1 e2"
  shows "server_exec serve e1 e2 fmt c t1 t2 env = lift_exec (connected_env (route_env e1 e2) c t1 t2 env)"
proof -
  have o: "rq_header (callback_request tok body) ''Origin'' = []" "rq_method (callback_request tok body) = ''POST''"
    for tok body by (simp_all add: callback_request_def)
  note served = server_callbacks [OF assms o]
  have start: "client_start hmac c t1 None (network serve (ac_base_url c) (api_mux e1)) (reply_text (api_json us fmt)) j s =
     lift_result (client_start hmac c t1 None (deliver (start_at (route_env e1 e2))) (reply_text start_response_json) j
       (w_db (snd s))) s" for hmac us j s
    by (subst client_start_lift [where f = StartBody and route = "start_at (route_env e1 e2)"], rule served(1))
       (simp only: start_reply_text)
  have complete: "client_complete hmac c t2 None (network serve (ac_base_url c) (api_mux e2)) b s =
     lift_result (client_complete hmac c t2 None (deliver (complete_at (route_env e1 e2))) b (w_db (snd s))) s"
    for hmac b s
    by (rule client_complete_lift) (rule served(2))
  show ?thesis
    by (simp add: server_exec_def lift_exec_def connected_env_def fun_eq_iff start complete)
       (simp add: route_env_def)
qed

subsection \<open>Properties\<close>

definition no_start_faults :: "start_io \<Rightarrow> bool" where
  "no_start_faults io \<longleftrightarrow> sio_begin io = None \<and> sio_get io = None \<and> sio_update io = None \<and> sio_repo io = None \<and>
     sio_commit io = Committed"

definition no_complete_faults :: "complete_io \<Rightarrow> bool" where
  "no_complete_faults io \<longleftrightarrow> cio_begin io = None \<and> cio_get io = None \<and> cio_update io = None \<and>
     cio_insert io = None \<and> cio_commit io = Committed"

lemma full_execution:
  fixes st :: "('r \<times> world) exec_state" and e1 e2 :: "'r server_env"
  defines "d \<equiv> w_db (snd (es_api st))"
  assumes server: "chi_serves match serve" "static_paths match"
        "passes_same_origin (sv_cors e2 (cors (sv_origins e2)))" "passes_same_origin (sv_cors e1 (cors (sv_origins e1)))"
        "same_program e1 e2"
    and db: "wf_db d" "job \<in> set (jobs d)" "jstatus job = Queued" "sv_uuid_scan e1 job_id = Some (jid job)" "job_id \<noteq> []"
    and repo: "repo \<in> set (repositories d)" "rid repo = jrepo job" "sv_gen_token e1 (rinstallation repo) = Inr tok"
    and wire: "wire_ok b \<lparr>sp_commit_sha = jcommit job, sp_branch = jbranch job, sp_repo_full_name = rfull_name repo,
          sp_clone_token = tok, sp_installation_id = rinstallation repo\<rparr>"
        "b = success_body job_id org repo_id (jcommit job) result"
    and tokens: "fresh_token (ac_signer c) (sv_signer e1) t1 (sv_token_clock e1)"
        "fresh_token (ac_signer c) (sv_signer e1) t2 (sv_token_clock e2)"
    and valid: "sv_validate_start e1 \<lparr>sr_job_id = job_id\<rparr> = []" "sv_validate_complete e1 (request_of b) = []"
    and faults: "no_start_faults (sv_start_io e1)" "no_complete_faults (sv_complete_io e2)"
    and new: "\<forall>x \<in> set (snapshots d). sid x \<noteq> cio_new_id (sv_complete_io e2)"
        "\<forall>x \<in> set (snapshots d). \<not> (srepo x = jrepo job \<and> sbranch x = jbranch job \<and> scommit x = jcommit job)"
    and run: "started_run env \<lparr>sp_commit_sha = jcommit job, sp_branch = jbranch job,
          sp_repo_full_name = rfull_name repo, sp_clone_token = tok,
          sp_installation_id = rinstallation repo\<rparr> (es_reports st) = (Inr result, fs')"
        "read_report_file (ee_read_fails env) fs' = Inr data" "ee_upload env = upload None None"
  shows "let st' = execute (Some (server_exec serve e1 e2 fmt c t1 t2 env)) job_id org repo_id st; d' = w_db (snd (es_api st'))
     in (\<exists>j \<in> set (jobs d'). jid j = jid job \<and> jstatus j = Succeeded \<and> jcommit j = jcommit job) \<and>
        (\<exists>s. snapshots d' = snapshots d @ [s] \<and> sjob s = jid job \<and> scommit s = jcommit job \<and>
             es_bucket st' (sgcs_path s) = Some data) \<and>
        es_api st' = (fst (es_api st), (snd (es_api st))\<lparr>w_db := d'\<rparr>)"
proof -
  let ?a = "route_env e1 e2"
  have "let st' = execute (Some (connected_env ?a c t1 t2 env)) job_id org repo_id (on_database st) in
     (\<exists>j \<in> set (jobs (es_api st')). jid j = jid job \<and> jstatus j = Succeeded \<and> jcommit j = jcommit job) \<and>
     (\<exists>s. snapshots (es_api st') = snapshots (es_api (on_database st)) @ [s] \<and> sjob s = jid job \<and>
        scommit s = jcommit job \<and> es_bucket st' (sgcs_path s) = Some data)"
    by (rule connected_job_succeeds [where repo = repo and tok = tok and b = b and result = result and fs' = fs'])
       (use assms in
         \<open>simp_all add: on_database_def route_env_def no_start_faults_def no_complete_faults_def\<close>)
  then show ?thesis
    by (simp add: server_exec_lift [OF server] execute_lift put_database_def on_database_def d_def Let_def)
qed

text \<open>
  C2: From queue to snapshot, through the whole server: an execution of a queued job, when no call
  fails and no snapshot of its commit exists, leaves the job succeeded, with one new snapshot for its
  commit whose path holds in the bucket exactly the report of this run, and the task queue and the
  rate limiter's state as they were.  The client's requests are routed by the mux and pass the
  middlewares with the worker's tokens.
\<close>

theorem queued_job_succeeds:
  fixes st :: "('r \<times> world) exec_state" and e1 e2 :: "'r server_env"
  defines "d \<equiv> w_db (snd (es_api st))"
  assumes server: "chi_serves match serve" "static_paths match"
        "passes_same_origin (sv_cors e2 (cors (sv_origins e2)))" "passes_same_origin (sv_cors e1 (cors (sv_origins e1)))"
        "same_program e1 e2"
    and db: "wf_db d" "job \<in> set (jobs d)" "jstatus job = Queued" "sv_uuid_scan e1 job_id = Some (jid job)" "job_id \<noteq> []"
    and repo: "repo \<in> set (repositories d)" "rid repo = jrepo job" "sv_gen_token e1 (rinstallation repo) = Inr tok"
    and wire: "wire_ok b \<lparr>sp_commit_sha = jcommit job, sp_branch = jbranch job, sp_repo_full_name = rfull_name repo,
          sp_clone_token = tok, sp_installation_id = rinstallation repo\<rparr>"
        "b = success_body job_id org repo_id (jcommit job) result"
    and tokens: "fresh_token (ac_signer c) (sv_signer e1) t1 (sv_token_clock e1)"
        "fresh_token (ac_signer c) (sv_signer e1) t2 (sv_token_clock e2)"
    and valid: "sv_validate_start e1 \<lparr>sr_job_id = job_id\<rparr> = []" "sv_validate_complete e1 (request_of b) = []"
    and faults: "no_start_faults (sv_start_io e1)" "no_complete_faults (sv_complete_io e2)"
    and new: "\<forall>x \<in> set (snapshots d). sid x \<noteq> cio_new_id (sv_complete_io e2)"
        "\<forall>x \<in> set (snapshots d). \<not> (srepo x = jrepo job \<and> sbranch x = jbranch job \<and> scommit x = jcommit job)"
    and run: "started_run env \<lparr>sp_commit_sha = jcommit job, sp_branch = jbranch job,
          sp_repo_full_name = rfull_name repo, sp_clone_token = tok,
          sp_installation_id = rinstallation repo\<rparr> (es_reports st) = (Inr result, fs')"
        "read_report_file (ee_read_fails env) fs' = Inr data" "ee_upload env = upload None None"
  shows "let st' = execute (Some (server_exec serve e1 e2 fmt c t1 t2 env)) job_id org repo_id st; d' = w_db (snd (es_api st'))
     in (\<exists>j \<in> set (jobs d'). jid j = jid job \<and> jstatus j = Succeeded \<and> jcommit j = jcommit job) \<and>
        (\<exists>s. snapshots d' = snapshots d @ [s] \<and> sjob s = jid job \<and> scommit s = jcommit job \<and>
             es_bucket st' (sgcs_path s) = Some data) \<and>
        es_api st' = (fst (es_api st), (snd (es_api st))\<lparr>w_db := d'\<rparr>)"
  unfolding d_def
  by (rule full_execution [OF server db [unfolded d_def] repo [unfolded d_def] wire tokens valid faults
        new [unfolded d_def] run])

lemma ex_static_paths: "static_paths ex_match"
  by (simp add: static_paths_def ex_match_def)

theorem queued_job_succeeds_witness:
  "let b = success_body ''u'' ''o'' ''r'' ''abc'' ex_result;
       st' = execute (Some (server_exec ex_serve ex_server ex_server (\<lambda>_. []) ex_worker 0 0 ex_worker_env)) ''u'' ''o'' ''r''
               \<lparr>es_api = ((), ex_world [ex_job 3 Queued ''abc'' 20]), es_reports = [], es_bucket = Map.empty\<rparr>
   in \<exists>s. snapshots (w_db (snd (es_api st'))) = [s] \<and> scommit s = ''abc'' \<and>
        es_bucket st' (sgcs_path s) = Some (ex_report ''v1'' ''tree of main'')"
proof -
  let ?b = "success_body ''u'' ''o'' ''r'' ''abc'' ex_result"
  let ?st = "\<lparr>es_api = ((), ex_world [ex_job 3 Queued ''abc'' 20]), es_reports = [], es_bucket = Map.empty\<rparr>"
  have wire: "wire_ok ?b \<lparr>sp_commit_sha = ''abc'', sp_branch = ''main'', sp_repo_full_name = rfull_name ex_repo,
      sp_clone_token = ''ghs'', sp_installation_id = rinstallation ex_repo\<rparr>"
    by (simp add: wire_ok_def utf8_body_def utf8_response_def success_body_def snapshot_path_def body_length_def
          ascii_valid ex_repo_def ex_result_def)
  have tokens: "fresh_token (ac_signer ex_worker) (sv_signer ex_server) 0 (sv_token_clock ex_server)"
    by (simp add: fresh_token_def ex_worker_def ex_server_def signer_keys_def valid_time_def ex_signer_def new_signer_def)
  have valid: "sv_validate_complete ex_server (request_of ?b) = []"
    by (simp add: ex_server_def ex_vstruct_def request_of_def success_body_def ex_result_def length_ex_report)
  have faults: "no_start_faults (sv_start_io ex_server)" "no_complete_faults (sv_complete_io ex_server)"
    by (simp_all add: no_start_faults_def no_complete_faults_def ex_server_def)
  have run: "started_run ex_worker_env \<lparr>sp_commit_sha = ''abc'', sp_branch = ''main'',
        sp_repo_full_name = rfull_name ex_repo, sp_clone_token = ''ghs'',
        sp_installation_id = rinstallation ex_repo\<rparr> [] = (Inr ex_result, [(''report.json'', ex_report ''v1'' ''tree of main'')])"
    by (simp add: started_run_def run_with_token_def clone_and_run_def ex_worker_env_def ex_run_io_def
          collect_result_def read_version_def total_size_def ex_result_def ex_env_def ascii_valid)
  have same: "same_program ex_server ex_server" "passes_same_origin (sv_cors ex_server (cors (sv_origins ex_server)))"
    by (simp_all add: same_program_def passes_same_origin_def ex_server_def)
  have "let st' = execute (Some (server_exec ex_serve ex_server ex_server (\<lambda>_. []) ex_worker 0 0 ex_worker_env)) ''u'' ''o'' ''r'' ?st;
         d' = w_db (snd (es_api st'))
     in (\<exists>j \<in> set (jobs d'). jid j = jid (ex_job 3 Queued ''abc'' 20) \<and> jstatus j = Succeeded \<and>
           jcommit j = jcommit (ex_job 3 Queued ''abc'' 20)) \<and>
        (\<exists>s. snapshots d' = snapshots (w_db (snd (es_api ?st))) @ [s] \<and> sjob s = jid (ex_job 3 Queued ''abc'' 20) \<and>
             scommit s = jcommit (ex_job 3 Queued ''abc'' 20) \<and> es_bucket st' (sgcs_path s) = Some (ex_report ''v1'' ''tree of main'')) \<and>
        es_api st' = (fst (es_api ?st), (snd (es_api ?st))\<lparr>w_db := d'\<rparr>)"
    by (rule queued_job_succeeds [where repo = ex_repo and tok = "''ghs''" and b = ?b and result = ex_result
          and fs' = "[(''report.json'', ex_report ''v1'' ''tree of main'')]", OF ex_chi_serves ex_static_paths])
       (use wire tokens valid faults run same in
         \<open>simp_all add: ex_server_def read_report_file_def ex_worker_env_def ex_repo_def\<close>)
  then show ?thesis by (auto simp: Let_def)
qed

end
