(* ===== verification/PollerRun.thy ===== *)
theory PollerRun
  imports Lifecycle Runner
begin

text \<open>
  The poll loop of a worker from start to shutdown: \<open>Poller.Run\<close>
  (\<^verbatim>\<open>worker/internal/worker/poller/poller.go\<close>) over the runner's counters (\<open>GoWait\<close>, \<open>InFlight\<close> and \<open>Drain\<close>
  of \<^verbatim>\<open>shared/go/runner/runner.go\<close>).

  \<open>run_step\<close> is one step of the loop or of its surroundings: a tick starts a batch, which claims jobs
  one by one, while jobs in flight finish, the rest of the system works on the database (\<open>sys_step\<close>)
  and the context may be cancelled.  After the cancellation the loop drains and returns the result of
  \<open>drain\<close>.  \<open>pr_wg\<close> is the counter of the runner's \<open>WaitGroup\<close>, which a job leaves after the in-flight
  count.
\<close>

datatype run_pc =
    Selecting
  | Claiming nat
  | Draining
  | Returned drain_result

record run_state =
  pr_poller :: poller_state
  pr_wg :: int
  pr_cancelled :: bool
  pr_pc :: run_pc

definition in_flight :: "run_state \<Rightarrow> int" where
  "in_flight s = pl_inflight (pr_poller s)"

definition wait_over :: "run_state \<Rightarrow> bool" where
  \<comment> \<open>\<open>Wait\<close> returns\<close>
  "wait_over s \<longleftrightarrow> pr_wg s = 0"

definition drain_sees :: "run_state \<Rightarrow> drain_event \<Rightarrow> bool" where
  \<comment> \<open>what the \<open>select\<close> of \<open>Drain\<close> can receive in this state\<close>
  "drain_sees s e =
     (case e of AllDone \<Rightarrow> wait_over s | Tick \<Rightarrow> True | Deadline n \<Rightarrow> n = in_flight s)"

inductive run_step :: "(uuid \<Rightarrow> string) \<Rightarrow> int \<Rightarrow> run_state \<Rightarrow> run_state \<Rightarrow> bool" for us maxc where
  tick: "pr_pc s = Selecting \<Longrightarrow>
     run_step us maxc s (s\<lparr>pr_pc := Claiming (nat (maxc - in_flight s))\<rparr>)"
| batch_over: "pr_pc s = Claiming 0 \<Longrightarrow> run_step us maxc s (s\<lparr>pr_pc := Selecting\<rparr>)"
| batch_cancelled: "pr_pc s = Claiming (Suc n) \<Longrightarrow> pr_cancelled s \<Longrightarrow>
     run_step us maxc s (s\<lparr>pr_pc := Selecting\<rparr>)"
| claimed: "pr_pc s = Claiming (Suc n) \<Longrightarrow> \<not> pr_cancelled s \<Longrightarrow>
     claim_one us io (pr_poller s) = (None, p) \<Longrightarrow>
     run_step us maxc s (s\<lparr>pr_poller := p, pr_wg := pr_wg s + 1, pr_pc := Claiming n\<rparr>)"
| not_claimed: "pr_pc s = Claiming (Suc n) \<Longrightarrow> \<not> pr_cancelled s \<Longrightarrow>
     claim_one us io (pr_poller s) = (Some err, p) \<Longrightarrow>
     run_step us maxc s (s\<lparr>pr_poller := p, pr_pc := Selecting\<rparr>)"
| job_over: "0 < in_flight s \<Longrightarrow>
     run_step us maxc s
       (s\<lparr>pr_poller := (pr_poller s)\<lparr>pl_inflight := job_finished (pl_inflight (pr_poller s))\<rparr>\<rparr>)"
| wg_done: "in_flight s < pr_wg s \<Longrightarrow> run_step us maxc s (s\<lparr>pr_wg := pr_wg s - 1\<rparr>)"
| elsewhere: "sys_step w w' \<Longrightarrow> w_db w = pl_db (pr_poller s) \<Longrightarrow>
     run_step us maxc s (s\<lparr>pr_poller := (pr_poller s)\<lparr>pl_db := w_db w'\<rparr>\<rparr>)"
| cancel: "run_step us maxc s (s\<lparr>pr_cancelled := True\<rparr>)"
| shutdown: "pr_pc s = Selecting \<Longrightarrow> pr_cancelled s \<Longrightarrow> run_step us maxc s (s\<lparr>pr_pc := Draining\<rparr>)"
| drained: "pr_pc s = Draining \<Longrightarrow> drain_sees s e \<Longrightarrow> drain [e] = Some r \<Longrightarrow>
     run_step us maxc s (s\<lparr>pr_pc := Returned r\<rparr>)"

inductive run_reachable :: "(uuid \<Rightarrow> string) \<Rightarrow> int \<Rightarrow> run_state \<Rightarrow> run_state \<Rightarrow> bool" for us maxc s0 where
  init: "run_reachable us maxc s0 s0"
| step: "run_reachable us maxc s0 s \<Longrightarrow> run_step us maxc s s' \<Longrightarrow> run_reachable us maxc s0 s'"

definition run_start :: "db \<Rightarrow> run_state" where
  "run_start d = \<lparr>pr_poller = \<lparr>pl_db = d, pl_inflight = 0, pl_dispatched = []\<rparr>, pr_wg = 0,
     pr_cancelled = False, pr_pc = Selecting\<rparr>"

subsection \<open>A batch of the loop is \<open>poll_batch\<close>\<close>

lemma run_reachable_trans:
  "run_reachable us maxc b c \<Longrightarrow> run_reachable us maxc a b \<Longrightarrow> run_reachable us maxc a c"
  by (induction rule: run_reachable.induct) (auto intro: run_reachable.step)

lemma claim_one_inflight:
  "claim_one us io p = (res, p') \<Longrightarrow>
     pl_inflight p' = (if res = None then go_wait (pl_inflight p) else pl_inflight p)"
  by (auto simp: claim_one_def go_wait_def with_fault_def split: sum.splits option.splits prod.splits if_splits)

lemma run_poll_loop:
  "pr_pc s = Claiming n \<Longrightarrow> \<not> pr_cancelled s \<Longrightarrow>
     (let p = poll_loop us ios (\<lambda>_. False) i n (pr_poller s)
      in run_reachable us maxc s
           (s\<lparr>pr_poller := p, pr_wg := pr_wg s + (pl_inflight p - pl_inflight (pr_poller s)), pr_pc := Selecting\<rparr>))"
proof (induction n arbitrary: i s)
  case 0
  then show ?case
    using run_reachable.step [OF run_reachable.init run_step.batch_over [of s]] by simp
next
  case (Suc n)
  obtain res p where c: "claim_one us (ios i) (pr_poller s) = (res, p)" by (cases "claim_one us (ios i) (pr_poller s)")
  note infl = claim_one_inflight [OF c]
  show ?case
  proof (cases res)
    case (Some err)
    then show ?thesis
      using run_reachable.step [OF run_reachable.init run_step.not_claimed [OF Suc.prems c [unfolded Some]]] c infl by simp
  next
    case None
    let ?s = "s\<lparr>pr_poller := p, pr_wg := pr_wg s + 1, pr_pc := Claiming n\<rparr>"
    have "run_reachable us maxc s ?s"
      by (rule run_reachable.step [OF run_reachable.init run_step.claimed [OF Suc.prems c [unfolded None]]])
    then show ?thesis
      using Suc.IH [of ?s "Suc i"] Suc.prems c None infl
      by (auto simp: Let_def go_wait_def algebra_simps dest: run_reachable_trans)
  qed
qed

lemma run_poll_batch:
  assumes "pr_pc s = Selecting" and "\<not> pr_cancelled s"
  shows "let p = poll_batch us maxc ios (\<lambda>_. False) (pr_poller s)
    in run_reachable us maxc s
         (s\<lparr>pr_poller := p, pr_wg := pr_wg s + (pl_inflight p - pl_inflight (pr_poller s))\<rparr>)"
proof -
  let ?s = "s\<lparr>pr_pc := Claiming (nat (maxc - in_flight s))\<rparr>"
  have "run_reachable us maxc s ?s"
    by (rule run_reachable.step [OF run_reachable.init run_step.tick [OF assms(1)]])
  then show ?thesis
    using run_poll_loop [of ?s "nat (maxc - in_flight s)" us ios 0 maxc] assms
    by (cases s) (auto simp: poll_batch_def in_flight_def Let_def dest: run_reachable_trans)
qed

subsection \<open>The counters\<close>

definition counters_ok :: "int \<Rightarrow> run_state \<Rightarrow> bool" where
  "counters_ok maxc s \<longleftrightarrow> 0 \<le> in_flight s \<and> in_flight s \<le> pr_wg s \<and> in_flight s \<le> maxc \<and>
     (\<forall>n. pr_pc s = Claiming n \<longrightarrow> in_flight s + int n \<le> maxc) \<and>
     (pr_pc s = Returned Drained \<longrightarrow> in_flight s = 0) \<and>
     (\<forall>n. pr_pc s = Returned (DrainTimeout n) \<longrightarrow> 0 < n \<and> in_flight s \<le> n \<and> n \<le> maxc)"

lemma counters_ok_step:
  assumes "run_step us maxc s s'" and "counters_ok maxc s"
  shows "counters_ok maxc s'"
  using assms(1)
proof (cases rule: run_step.cases)
  case (drained e r)
  then show ?thesis
    using assms(2)
    by (cases e) (auto simp: counters_ok_def in_flight_def drain_sees_def wait_over_def split: if_splits)
qed (use assms(2) in \<open>auto simp: counters_ok_def in_flight_def job_finished_def go_wait_def dest: claim_one_inflight\<close>)

lemma counters_ok_reachable:
  "run_reachable us maxc (run_start d) s \<Longrightarrow> 0 \<le> maxc \<Longrightarrow> counters_ok maxc s"
  by (induction rule: run_reachable.induct)
     (simp add: counters_ok_def run_start_def in_flight_def, blast intro: counters_ok_step)

subsection \<open>What has been dispatched\<close>

definition dispatch_ok :: "(uuid \<Rightarrow> string) \<Rightarrow> poller_state \<Rightarrow> bool" where
  "dispatch_ok us p \<longleftrightarrow> sys_inv (pl_db p) \<and> distinct (map fst (pl_dispatched p)) \<and>
     (\<forall>x \<in> set (map fst (pl_dispatched p)). \<exists>j \<in> set (jobs (pl_db p)). us (jid j) = x \<and> jstatus j \<noteq> Queued)"

lemma dispatch_ok_evolves:
  assumes "dispatch_ok us p" and "sys_inv d" and "evolves (jobs (pl_db p)) (jobs d)"
  shows "dispatch_ok us (p\<lparr>pl_db := d\<rparr>)"
proof -
  have "\<exists>j' \<in> set (jobs d). us (jid j') = us (jid j) \<and> jstatus j' \<noteq> Queued"
    if j: "j \<in> set (jobs (pl_db p))" "jstatus j \<noteq> Queued" for j
  proof -
    obtain j' where j': "j' \<in> set (jobs d)" "job_le j j'" using evolves_mem [OF assms(3) j(1)] by blast
    then have "jstatus j \<le> jstatus j'" "jid j' = jid j" by (simp_all add: job_le_def)
    then show ?thesis using j(2) j'(1) by (metis status_le_Queued)
  qed
  then show ?thesis using assms(1,2) by (fastforce simp: dispatch_ok_def)
qed

lemma dispatch_ok_claim:
  assumes ok: "dispatch_ok us p" and "inj us" and c: "claim_one us io p = (res, p')"
  shows "dispatch_ok us p'"
proof -
  have wf: "wf_db (pl_db p)" and inv: "sys_inv (pl_db p)" using ok by (simp_all add: dispatch_ok_def sys_inv_def)
  have st: "db_step (pl_db p) (pl_db p')" by (rule db_step.poll [OF c])
  note next_ok = dispatch_ok_evolves [OF ok sys_inv_db_step [OF st inv] evolves_db_step [OF st wf]]
  from wf show ?thesis
  proof (cases rule: claim_one_cases [where us = us and io = io])
    case none
    then show ?thesis using c ok by simp
  next
    case (lost err j d1 d')
    then show ?thesis using c next_ok by auto
  next
    case (dispatched j d1 repo)
    then have p': "p' = p\<lparr>pl_db := d1, pl_inflight := pl_inflight p + 1,
       pl_dispatched := pl_dispatched p @ [(us (jid j), us (rj_id repo), us (jrepo j))]\<rparr>" using c by simp
    obtain j0 where j0: "j0 \<in> set (jobs (pl_db p))" "jid j0 = jid j" "jstatus j0 = Queued"
      using store_claims.claim_queued [OF wf dispatched(2)] by blast
    have "us (jid j) \<notin> set (map fst (pl_dispatched p))"
    proof
      assume "us (jid j) \<in> set (map fst (pl_dispatched p))"
      then obtain x where x: "x \<in> set (jobs (pl_db p))" "us (jid x) = us (jid j)" "jstatus x \<noteq> Queued"
        using ok unfolding dispatch_ok_def by blast
      then have "x = j0" using wf_job_unique [OF wf x(1) j0(1)] j0(2) injD [OF assms(2) x(2)] by simp
      then show False using x(3) j0(3) by simp
    qed
    moreover have "j \<in> set (jobs d1)" "jstatus j \<noteq> Queued"
      using claimed_in_db [OF wf dispatched(2)] store_claims.claim_running [OF wf dispatched(2)] by simp_all
    ultimately show ?thesis using next_ok by (auto simp: p' dispatch_ok_def)
  qed
qed

lemma dispatch_ok_step:
  assumes "run_step us maxc s s'" and ok: "dispatch_ok us (pr_poller s)" and "inj us"
  shows "dispatch_ok us (pr_poller s')"
  using assms(1)
proof (cases rule: run_step.cases)
  case (claimed n io p)
  then show ?thesis using dispatch_ok_claim [OF ok assms(3) claimed(4)] by simp
next
  case (not_claimed n io err p)
  then show ?thesis using dispatch_ok_claim [OF ok assms(3) not_claimed(4)] by simp
next
  case (elsewhere w w')
  have "sys_inv (w_db w)" using ok elsewhere(3) by (simp add: dispatch_ok_def)
  then show ?thesis
    using dispatch_ok_evolves [OF ok sys_inv_step [OF elsewhere(2)]] evolves_step [OF elsewhere(2)] elsewhere(1,3)
    by (simp add: sys_inv_def)
qed (use ok in \<open>auto simp: dispatch_ok_def\<close>)

lemma dispatch_ok_reachable:
  "run_reachable us maxc (run_start d) s \<Longrightarrow> sys_inv d \<Longrightarrow> inj us \<Longrightarrow> dispatch_ok us (pr_poller s)"
  by (induction rule: run_reachable.induct)
     (simp add: dispatch_ok_def run_start_def, blast intro: dispatch_ok_step)

subsection \<open>Properties\<close>

lemma ex_poll_reachable:
  "run_reachable us 1 (run_start d)
     (let p = poll_batch us 1 (\<lambda>_. ex_claim_io) (\<lambda>_. False) (pr_poller (run_start d))
      in (run_start d)\<lparr>pr_poller := p, pr_wg := pl_inflight p\<rparr>)"
  using run_poll_batch [of "run_start d" us 1 "\<lambda>_. ex_claim_io"] by (simp add: run_start_def Let_def)

text \<open>
  C9: From the start of a worker to its shutdown, at every moment and however ticks, finishing jobs,
  failing calls and the rest of the system interleave, between none and \<open>MaxConcurrency\<close> jobs are in
  flight.  \<open>Run\<close> returns nil only when no job is in flight; when it gives up on the drain it reports a
  positive number of jobs, which is at least the number still in flight.
\<close>

theorem poller_run_bounded:
  assumes "run_reachable us maxc (run_start d) s" and "0 \<le> maxc"
  shows "0 \<le> in_flight s \<and> in_flight s \<le> maxc \<and>
     (pr_pc s = Returned Drained \<longrightarrow> in_flight s = 0) \<and>
     (\<forall>n. pr_pc s = Returned (DrainTimeout n) \<longrightarrow> 0 < n \<and> in_flight s \<le> n \<and> n \<le> maxc)"
  using counters_ok_reachable [OF assms] by (simp add: counters_ok_def)

theorem poller_run_bounded_witness:
  "pl_inflight (poll_batch ex_uuid 1 (\<lambda>_. ex_claim_io) (\<lambda>_. False)
     (pr_poller (run_start (ex_db [ex_job 3 Queued ''a'' 20])))) \<le> 1"
  using poller_run_bounded [OF ex_poll_reachable, of ex_uuid "ex_db [ex_job 3 Queued ''a'' 20]"]
  by (simp add: Let_def in_flight_def)

text \<open>
  C10: A worker dispatches no job twice during its life, whatever else claims jobs from the table and
  whatever fails, and every job it has dispatched has left the queue.
\<close>

theorem poller_dispatches_once:
  assumes "run_reachable us maxc (run_start d) s" and "sys_inv d" and "inj us"
  shows "distinct (map fst (pl_dispatched (pr_poller s))) \<and>
     (\<forall>x \<in> set (map fst (pl_dispatched (pr_poller s))).
        \<exists>j \<in> set (jobs (pl_db (pr_poller s))). us (jid j) = x \<and> jstatus j \<noteq> Queued)"
  using dispatch_ok_reachable [OF assms] by (simp add: dispatch_ok_def)

definition ex_unary :: "uuid \<Rightarrow> string" where
  "ex_unary u = replicate (unat u) CHR ''1''"

lemma inj_ex_unary: "inj ex_unary"
  by (rule injI) (metis ex_unary_def length_replicate word_unat_eq_iff)

theorem poller_dispatches_once_witness:
  "distinct (map fst (pl_dispatched (poll_batch ex_unary 1 (\<lambda>_. ex_claim_io) (\<lambda>_. False)
     (pr_poller (run_start (ex_db [ex_job 3 Queued ''a'' 20]))))))"
  using poller_dispatches_once [OF ex_poll_reachable sys_inv_ex_queued inj_ex_unary, of "''a''" 20]
  by (simp add: Let_def)

end
