(* ===== verification/Programs.thy ===== *)
theory Programs
  imports FullSystem PollerRun
begin

text \<open>
  The two programs as wholes: \<^verbatim>\<open>api/cmd/main.go\<close> and \<^verbatim>\<open>worker/cmd/main.go\<close> from the configuration to the
  exit code.

  \<open>run_api\<close> and \<open>run_worker\<close> are the functions \<open>run\<close>; what ends them (the failure of the shutdown, the
  result of the poll loop) is an argument.  \<open>configured\<close> is the server the API builds from its
  configuration, \<open>worker_mux\<close> the \<open>ServeMux\<close> of the worker's HTTP mode for clean paths.
\<close>

subsection \<open>The API\<close>

definition configured :: "api_config \<Rightarrow> api_parts \<Rightarrow> 'r server_env \<Rightarrow> 'r server_env" where
  \<comment> \<open>what \<open>run\<close> passes to the handlers and middlewares\<close>
  "configured c p e =
     e\<lparr>sv_origins := cf_allowed_origins c, sv_app_slug := cf_github_app_slug (cf_app c),
       sv_webhook_secret := gh_webhook_secret (ap_github p), sv_watchdog_secret := cf_watchdog_secret (cf_app c),
       sv_signer := ap_signer p, sv_enqueuer := ap_enqueuer p\<rparr>"

fun join_errors :: "string list \<Rightarrow> string" where
  \<comment> \<open>\<open>errors.Join\<close>\<close>
  "join_errors [] = []"
| "join_errors [e] = e"
| "join_errors (e # es) = e @ [CHR 0x0A] @ join_errors es"

definition shut_down :: "string option \<Rightarrow> string option" where
  "shut_down = map_option (\<lambda>e. ''server shutdown: '' @ e)"

definition run_api ::
  "(string \<Rightarrow> string) \<Rightarrow> string + api_config \<Rightarrow> api_faults \<Rightarrow> string option \<Rightarrow> 'r server_env \<Rightarrow> string option" where
  "run_api quote loaded f shutdown e =
     (case build_api loaded f of
        Inl err \<Rightarrow> Some err
      | Inr p \<Rightarrow>
          (case loaded of Inl err \<Rightarrow> Some err | Inr c \<Rightarrow>
          (case build_routes quote (configured c p e) of
             Inl errs \<Rightarrow> Some (hd errs @ join_errors (tl errs))
           | Inr _ \<Rightarrow> shut_down shutdown)))"

definition exit_status :: "string option \<Rightarrow> string \<times> nat" where
  \<comment> \<open>\<open>main\<close>: what goes to the standard error, and the exit code\<close>
  "exit_status res = (case res of None \<Rightarrow> ([], 0) | Some err \<Rightarrow> (''fatal: '' @ err @ [CHR 0x0A], 1))"

subsection \<open>The worker\<close>

definition worker_mux ::
  "(request \<Rightarrow> 'e \<Rightarrow> unit reply \<times> 'e) \<Rightarrow> string \<Rightarrow> request \<Rightarrow> 'e \<Rightarrow> unit reply \<times> 'e" where
  "worker_mux run path r st =
     (if path = ''/run'' then
        (if rq_method r = ''POST'' then run r st else (TextReply 405 ''Method Not Allowed'', st))
      else (TextReply 404 ''404 page not found'', st))"

definition poller_error :: "drain_result \<Rightarrow> string option" where
  "poller_error res =
     (case res of
        Drained \<Rightarrow> None
      | DrainTimeout n \<Rightarrow> Some (''drain timeout: '' @ format_int64 (word_of_int n) @ '' jobs still running''))"

definition run_worker ::
  "(string \<Rightarrow> string) \<Rightarrow> (storage_error \<Rightarrow> string) \<Rightarrow> string + worker_config \<Rightarrow> worker_faults \<Rightarrow> string option
     \<Rightarrow> drain_result \<Rightarrow> string option" where
  "run_worker quote show_storage loaded f shutdown drained =
     (case build_worker quote show_storage loaded f of
        Inl err \<Rightarrow> Some err
      | Inr p \<Rightarrow> (case wp_mode p of HttpMode \<Rightarrow> shut_down shutdown | PollMode \<Rightarrow> poller_error drained))"

subsection \<open>What a program that starts guarantees\<close>

lemma run_api_returns:
  "run_api quote (Inr c) f shutdown e =
     (case build_api (Inr c) f of Inl err \<Rightarrow> Some err | Inr _ \<Rightarrow> shut_down shutdown)"
  by (simp add: run_api_def build_routes_ok split: sum.split)

lemma poll_worker_exit:
  assumes "run_reachable us maxc (run_start d) s" and "0 \<le> maxc" and "pr_pc s = Returned res"
    and "exit_status (poller_error res) = ([], 0)"
  shows "in_flight s = 0"
  using counters_ok_reachable [OF assms(1,2)] assms(3,4)
  by (auto simp: counters_ok_def exit_status_def poller_error_def split: drain_result.splits)

lemma signed_for_worker:
  assumes "fresh_token api_signer worker_signer clock now"
  shows "signer_validate hmac worker_signer now job_id (signer_sign hmac api_signer clock job_id) = None"
proof -
  have "sint (unix now) \<le> sint (unix (clock + sg_ttl api_signer))"
    using assms unix_after_ttl(1) by (simp add: fresh_token_def not_less [symmetric])
  then show ?thesis
    using assms by (auto simp: signer_validate_none validate_token_none signer_sign_def fresh_token_def)
qed

lemma built_signers:
  assumes "build_api (Inr c) fa = Inr p" and "build_worker quote show_storage (Inr w) fw = Inr u"
    and "cf_hmac_signing_key (cf_app c) = wc_hmac_key w \<or>
         wc_hmac_key_prev w \<noteq> [] \<and> cf_hmac_signing_key (cf_app c) = wc_hmac_key_prev w"
    and "valid_time now" and "valid_time (clock + 30 * 60 * 1000000000)" and "now \<le> clock + 30 * 60 * 1000000000"
  shows "fresh_token (ap_signer p) (ac_signer (wp_client u)) clock now"
  using assms(3-6)
  by (auto simp: fresh_token_def build_api_ok(4) [OF assms(1)] build_worker_ok(1) [OF assms(2)] build_signer_keys)

lemma task_of_push:
  assumes "handle_push hmac us sg enq io ev dl w = (res, w')" and "t \<in> set (w_queue w') - set (w_queue w)"
  obtains repo j where "repo \<in> set (repositories (w_db w'))" "rgithub_id repo = ev_repo_id ev"
    "j \<in> set (jobs (w_db w'))" "jid j = pio_new_id io" "jrepo j = rid repo"
    "jstatus j = Queued" "jcommit j = ev_commit ev" "jbranch j = ev_branch ev"
    "task_job_id t = us (jid j)" "task_job_token t = signer_sign hmac sg (pio_clock io) (us (jid j))"
    "repositories (w_db w') = repositories (w_db w)" "snapshots (w_db w') = snapshots (w_db w)"
  using assms(1)
proof (cases rule: handle_push_outcomes)
  case (created repo j d')
  have "task_job_id t = us (jid j)" and "task_job_token t = signer_sign hmac sg (pio_clock io) (us (jid j))"
    using assms(2) created(5) tasks.enq_task by fastforce+
  then show ?thesis using created(1,2,4,5) by (intro that [of repo j]) (auto simp: create_job_Inr)
qed (use assms(2) in auto)

lemma task_url_of_push:
  assumes "handle_push hmac us sg enq io ev dl w = (res, w')" and "t \<in> set (w_queue w') - set (w_queue w)"
  shows "\<exists>cfg. enq = CloudTasksEnqueuer cfg \<and> task_url t = ct_worker_url cfg @ ''/run''"
  using assms(1)
proof (cases rule: handle_push_outcomes)
  case created
  then show ?thesis
    using assms(2) by (auto simp: enqueue_defs create_task_request_def split: enqueuer.splits option.splits)
qed (use assms(2) in auto)

lemma worker_mux_run:
  assumes "rq_method r = ''POST''" and "decode_run (rq_body r) = Some \<lparr>rn_job_id = i, rn_job_token = tok\<rparr>"
    and "i \<noteq> []" and "tok \<noteq> []" and "signer_validate hmac sg now i tok = None" and "uuid_scan i = Some u"
    and "lookup u = Inr repo"
  shows "worker_mux (worker_run hmac sg now uuid_scan lookup us exec) ''/run'' r st =
           (EmptyReply 200, exec i (us (rj_id repo)) (us (rj_id repo)) st)"
  using assms by (simp add: worker_mux_def worker_run_def Let_def)

subsection \<open>A deployment\<close>

definition ex_api_config :: api_config where
  "ex_api_config =
     \<lparr>cf_app = \<lparr>cf_github_app_id = 1, cf_github_app_slug = ''zag'', cf_github_app_private_key = ''pem'',
        cf_github_app_webhook_secret = ''s'', cf_clerk_secret_key = ''c'', cf_hmac_signing_key = ''k'',
        cf_hmac_signing_key_prev = [], cf_watchdog_secret = ''w''\<rparr>,
      cf_port = ''80'', cf_db_url = ''db'', cf_redis_url = ''redis'', cf_gcs = \<lparr>cf_bucket = ''b'', cf_endpoint = []\<rparr>,
      cf_cloud_tasks = ex_cfg, cf_allowed_origins = []\<rparr>"

definition ex_worker_config :: worker_config where
  "ex_worker_config =
     \<lparr>wc_database_url = ''db'', wc_app_env = [], wc_workspace_dir = ''/w'', wc_zigzag_bin = ''zigzag'',
      wc_reports_dir = ''/r'', wc_job_timeout = 300000000000, wc_max_concurrency = 5, wc_api_base_url = ''api'',
      wc_hmac_key = ''k'', wc_hmac_key_prev = [], wc_worker_mode = ''http'', wc_port = ''8080'',
      wc_github = \<lparr>wc_app_id = 1, wc_private_key = ''pem'', wc_private_key_raw = ''pem'', wc_webhook_secret = ''s''\<rparr>,
      wc_gcs = \<lparr>cf_bucket = ''b'', cf_endpoint = []\<rparr>\<rparr>"

definition no_api_faults :: api_faults where
  "no_api_faults = \<lparr>af_logger = None, af_pool = None, af_ping = None, af_redis_url = None, af_redis_ping = None, af_tasks = None\<rparr>"

definition no_worker_faults :: worker_faults where
  "no_worker_faults = \<lparr>wk_logger = None, wk_db = None, wk_gcs = None\<rparr>"

lemma ex_api_starts:
  obtains p where "build_api (Inr ex_api_config) no_api_faults = Inr p"
  by (simp add: build_api_def build_enqueuer_def connect_db_def no_api_faults_def ex_api_config_def new_api_client_def
      tasks_enabled_def ex_cfg_def Let_def)

lemma ex_worker_starts:
  obtains u where "build_worker quote show_storage (Inr ex_worker_config) no_worker_faults = Inr u"
  by (simp add: build_worker_def no_worker_faults_def ex_worker_config_def new_api_client_def
      new_storage_client_def choose_mode_def Let_def)

definition ex_tally :: "uuid \<Rightarrow> string" where
  "ex_tally u = replicate (Suc (unat u)) CHR ''1''"

definition ex_count :: "string \<Rightarrow> uuid option" where
  "ex_count s = Some (of_nat (length s - 1))"

lemma ex_tally_count: "ex_tally i \<noteq> [] \<and> valid_utf8 (ex_tally i) \<and> ex_count (ex_tally i) = Some i"
  by (auto simp: ex_tally_def ex_count_def list_all_iff intro!: ascii_valid)

subsection \<open>Properties\<close>

text \<open>
  C5: The HTTP worker that starts from a configuration executes a job only for a \<^verbatim>\<open>POST /run\<close> whose token
  is, byte for byte, the signature of the job id under one of the configured keys for an expiry that has
  not passed, and whose job the database knows.  Every other request is refused without any effect, and
  a request is answered with 200 exactly when its job was executed, whatever the outcome: the queue
  does not deliver the task again.
\<close>

theorem worker_serves_signed_runs_only:
  assumes "build_worker quote show_storage (Inr w) f = Inr u"
    and "worker_mux (worker_run hmac (ac_signer (wp_client u)) now uuid_scan lookup us exec) path r st = (reply, st')"
  shows "(reply = EmptyReply 200 \<and> path = ''/run'' \<and> rq_method r = ''POST'' \<and>
          (\<exists>req k expiry i repo. decode_run (rq_body r) = Some req \<and>
             k \<in> set (if wc_hmac_key_prev w = [] then [wc_hmac_key w] else [wc_hmac_key w, wc_hmac_key_prev w]) \<and>
             rn_job_token req = sign_token hmac k (rn_job_id req) expiry \<and> sint (unix now) \<le> sint expiry \<and>
             uuid_scan (rn_job_id req) = Some i \<and> lookup i = Inr repo \<and>
             st' = exec (rn_job_id req) (us (rj_id repo)) (us (rj_id repo)) st)) \<or>
         (\<exists>n msg. n \<in> {400, 401, 404, 405, 500} \<and> reply = TextReply n msg \<and> st' = st)"
proof (cases "path = ''/run'' \<and> rq_method r = ''POST''")
  case False
  then show ?thesis using assms(2) by (auto simp: worker_mux_def split: if_splits)
next
  case True
  then have run: "worker_run hmac (ac_signer (wp_client u)) now uuid_scan lookup us exec r st = (reply, st')"
    using assms(2) by (simp add: worker_mux_def)
  show ?thesis
    using worker_run_authorised [of r hmac "ac_signer (wp_client u)" now uuid_scan lookup us exec st]
  proof (elim disjE exE conjE)
    fix req i repo
    assume req: "decode_run (rq_body r) = Some req" "uuid_scan (rn_job_id req) = Some i" "lookup i = Inr repo"
      and tok: "signer_validate hmac (ac_signer (wp_client u)) now (rn_job_id req) (rn_job_token req) = None"
      and res: "worker_run hmac (ac_signer (wp_client u)) now uuid_scan lookup us exec r st =
        (EmptyReply 200, exec (rn_job_id req) (us (rj_id repo)) (us (rj_id repo)) st)"
    obtain k expiry where k: "k \<in> set (signer_keys (ac_signer (wp_client u)))"
      "rn_job_token req = sign_token hmac k (rn_job_id req) expiry" "sint (unix now) \<le> sint expiry"
      using tok unfolding signer_validate_none validate_token_none by blast
    have done': "reply = EmptyReply 200" "st' = exec (rn_job_id req) (us (rj_id repo)) (us (rj_id repo)) st"
      using run res by simp_all
    show ?thesis
      by (intro disjI1 conjI exI [of _ req] exI [of _ k] exI [of _ expiry] exI [of _ i] exI [of _ repo])
         (use done' req k True in \<open>simp_all only: build_worker_ok(1) [OF assms(1)] build_signer_keys(1)\<close>)
  next
    fix n msg
    assume "n \<in> {400, 401, 500}"
      and "worker_run hmac (ac_signer (wp_client u)) now uuid_scan lookup us exec r st = (TextReply n msg, st)"
    then show ?thesis using run by auto
  qed
qed

theorem worker_serves_signed_runs_only_witness:
  "\<exists>k expiry. k \<in> set [''k''] \<and>
     signer_sign ex_hmac (build_signer ''k'' []) 0 ''u'' = sign_token ex_hmac k ''u'' expiry \<and> sint (unix 5) \<le> sint expiry"
proof (rule ex_worker_starts [of "\<lambda>q. q" "\<lambda>_. []"])
  fix u
  assume u: "build_worker (\<lambda>q. q) (\<lambda>_. []) (Inr ex_worker_config) no_worker_faults = Inr u"
  let ?tok = "signer_sign ex_hmac (build_signer ''k'' []) 0 ''u''"
  let ?repo = "\<lparr>rj_id = 2, rj_github_id = 7, rj_installation = 99, rj_full_name = ''acme/app'', rj_default_branch = ''main''\<rparr>"
  let ?run = "worker_run ex_hmac (ac_signer (wp_client u)) 5 ex_scan
      (\<lambda>_. Inr ?repo) ex_uuid (\<lambda>_ _ _ n. Suc n)"
  have sg: "ac_signer (wp_client u) = build_signer ''k'' []"
    using build_worker_ok(1) [OF u] by (simp add: ex_worker_config_def)
  have "signer_validate ex_hmac (ac_signer (wp_client u)) 5 ''u'' ?tok = None"
    unfolding sg by (rule signed_for_worker) (simp add: fresh_token_def build_signer_keys valid_time_def)
  moreover have body: "decode_run (task_body (create_task_request ex_cfg ''u'' ?tok)) =
      Some \<lparr>rn_job_id = ''u'', rn_job_token = ?tok\<rparr>"
    by (subst decode_run_task) (simp_all add: create_task_request_def signer_sign_def ascii_valid)
  ultimately have "worker_mux ?run ''/run'' (ex_request\<lparr>rq_body := task_body (create_task_request ex_cfg ''u'' ?tok)\<rparr>) 0 =
      (EmptyReply 200, 1)"
    by (subst worker_mux_run [where i = "''u''" and tok = ?tok and u = 3 and repo = ?repo])
       (simp_all add: ex_request_def ex_scan_def signer_sign_def)
  from worker_serves_signed_runs_only [OF u this] show ?thesis
    by (auto simp: ex_worker_config_def body)
qed

lemma posted_task_runs:
  assumes api: "build_api (Inr c) fa = Inr p" and worker: "build_worker quote show_storage (Inr w) fw = Inr u"
    and key: "cf_hmac_signing_key (cf_app c) = wc_hmac_key w \<or>
         wc_hmac_key_prev w \<noteq> [] \<and> cf_hmac_signing_key (cf_app c) = wc_hmac_key_prev w"
    and push: "handle_push hmac us (ap_signer p) (ap_enqueuer p) io ev dl wld = (res, wld')"
        "t \<in> set (w_queue wld') - set (w_queue wld)" "wf_db (w_db wld)" "one_queued (w_db wld)"
    and time: "valid_time now" "valid_time (pio_clock io + 30 * 60 * 1000000000)" "now \<le> pio_clock io + 30 * 60 * 1000000000"
    and ids: "\<And>i. us i \<noteq> [] \<and> valid_utf8 (us i) \<and> uuid_scan (us i) = Some i"
    and request: "rq_method r = ''POST''" "rq_body r = task_body t"
  obtains repo j where "repo \<in> set (repositories (w_db wld'))" "rgithub_id repo = ev_repo_id ev"
    "j \<in> set (jobs (w_db wld'))" "jid j = pio_new_id io" "jrepo j = rid repo"
    "jstatus j = Queued" "jcommit j = ev_commit ev" "jbranch j = ev_branch ev"
    "repositories (w_db wld') = repositories (w_db wld)" "snapshots (w_db wld') = snapshots (w_db wld)"
    "worker_mux (worker_run hmac (ac_signer (wp_client u)) now uuid_scan
            (\<lambda>i. get_repo_for_job i (w_db wld')) us exec) ''/run'' r st =
          (EmptyReply 200, exec (us (jid j)) (us (jrepo j)) (us (jrepo j)) st)"
proof -
  obtain repo j where repo: "repo \<in> set (repositories (w_db wld'))" "rgithub_id repo = ev_repo_id ev"
    and j: "j \<in> set (jobs (w_db wld'))" "jid j = pio_new_id io" "jrepo j = rid repo"
      "jstatus j = Queued" "jcommit j = ev_commit ev" "jbranch j = ev_branch ev"
    and t: "task_job_id t = us (jid j)" "task_job_token t = signer_sign hmac (ap_signer p) (pio_clock io) (us (jid j))"
    and d: "repositories (w_db wld') = repositories (w_db wld)" "snapshots (w_db wld') = snapshots (w_db wld)"
    by (rule task_of_push [OF push(1,2)])
  have body: "decode_run (rq_body r) = Some \<lparr>rn_job_id = task_job_id t, rn_job_token = task_job_token t\<rparr>"
    unfolding request(2) by (rule decode_run_task) (simp_all add: t ids signer_sign_def)
  have wf: "wf_db (w_db wld')" using handle_push_keeps [OF push(1,3,4)] by simp
  have "worker_mux (worker_run hmac (ac_signer (wp_client u)) now uuid_scan
            (\<lambda>i. get_repo_for_job i (w_db wld')) us exec) ''/run'' r st =
          (EmptyReply 200, exec (us (jid j)) (us (jrepo j)) (us (jrepo j)) st)"
    using worker_mux_run [where r = r and i = "us (jid j)" and u = "jid j"
        and tok = "signer_sign hmac (ap_signer p) (pio_clock io) (us (jid j))" and hmac = hmac
        and sg = "ac_signer (wp_client u)" and now = now and uuid_scan = uuid_scan
        and lookup = "\<lambda>i. get_repo_for_job i (w_db wld')" and us = us and exec = exec and st = st]
      request(1) body ids get_repo_for_job_wf [OF wf j(1) repo(1) j(3) [symmetric]] j(3)
      signed_for_worker [OF built_signers [OF api worker key time]]
    by (simp add: t signer_sign_def)
  then show ?thesis by (rule that [OF repo j d])
qed

text \<open>
  C4: From a push to the start of its execution, across the two programs: a task that a push adds on an
  API and a worker started from configurations that share a key is, when Cloud Tasks posts its body to
  its URL within 30 minutes, executed by the worker for the queued job of the pushed commit.
\<close>

theorem pushed_task_is_executed:
  assumes api: "build_api (Inr c) fa = Inr p" and worker: "build_worker quote show_storage (Inr w) fw = Inr u"
    and key: "cf_hmac_signing_key (cf_app c) = wc_hmac_key w \<or>
         wc_hmac_key_prev w \<noteq> [] \<and> cf_hmac_signing_key (cf_app c) = wc_hmac_key_prev w"
    and push: "handle_push hmac us (ap_signer p) (ap_enqueuer p) io ev dl wld = (res, wld')"
        "t \<in> set (w_queue wld') - set (w_queue wld)" "wf_db (w_db wld)" "one_queued (w_db wld)"
    and time: "valid_time now" "valid_time (pio_clock io + 30 * 60 * 1000000000)" "now \<le> pio_clock io + 30 * 60 * 1000000000"
    and ids: "\<And>i. us i \<noteq> [] \<and> valid_utf8 (us i) \<and> uuid_scan (us i) = Some i"
    and request: "rq_method r = ''POST''" "rq_body r = task_body t"
  shows "task_url t = ct_worker_url (cf_cloud_tasks c) @ ''/run'' \<and>
     (\<exists>j \<in> set (jobs (w_db wld')). jstatus j = Queued \<and> jcommit j = ev_commit ev \<and> jbranch j = ev_branch ev \<and>
        worker_mux (worker_run hmac (ac_signer (wp_client u)) now uuid_scan
            (\<lambda>i. get_repo_for_job i (w_db wld')) us exec) ''/run'' r st =
          (EmptyReply 200, exec (us (jid j)) (us (jrepo j)) (us (jrepo j)) st))"
proof -
  obtain repo j where j: "j \<in> set (jobs (w_db wld'))" "jstatus j = Queued" "jcommit j = ev_commit ev" "jbranch j = ev_branch ev"
    and run: "worker_mux (worker_run hmac (ac_signer (wp_client u)) now uuid_scan
            (\<lambda>i. get_repo_for_job i (w_db wld')) us exec) ''/run'' r st =
          (EmptyReply 200, exec (us (jid j)) (us (jrepo j)) (us (jrepo j)) st)"
    by (rule posted_task_runs [OF api worker key push time ids request])
  have "task_url t = ct_worker_url (cf_cloud_tasks c) @ ''/run''"
    using task_url_of_push [OF push(1,2)] build_api_ok(5) [OF api] by (auto split: if_splits)
  with j run show ?thesis by blast
qed

theorem pushed_task_is_executed_witness:
  "\<exists>p u t. build_api (Inr ex_api_config) no_api_faults = Inr p \<and>
     build_worker (\<lambda>q. q) (\<lambda>_. []) (Inr ex_worker_config) no_worker_faults = Inr u \<and>
     (let wld = snd (handle_push ex_hmac ex_tally (ap_signer p) (ap_enqueuer p) (ex_io 9 100) (ex_event ''b'') ''d'' (ex_world []))
      in set (w_queue wld) = {t} \<and>
         snd (worker_mux (worker_run ex_hmac
           (ac_signer (wp_client u)) 5 ex_count (\<lambda>i. get_repo_for_job i (w_db wld)) ex_tally (\<lambda>i _ _ is. i # is))
           ''/run'' (ex_request\<lparr>rq_body := task_body t\<rparr>) []) = [ex_tally 9])"
proof (rule ex_api_starts, rule ex_worker_starts [of "\<lambda>q. q" "\<lambda>_. []"])
  fix p u
  assume p: "build_api (Inr ex_api_config) no_api_faults = Inr p"
    and u: "build_worker (\<lambda>q. q) (\<lambda>_. []) (Inr ex_worker_config) no_worker_faults = Inr u"
  define h where "h = handle_push ex_hmac ex_tally (ap_signer p) (ap_enqueuer p) (ex_io 9 100) (ex_event ''b'') ''d'' (ex_world [])"
  have enq: "ap_enqueuer p = CloudTasksEnqueuer ex_cfg"
    using build_api_ok(5) [OF p] by (simp add: ex_api_config_def tasks_enabled_def ex_cfg_def)
  have h: "handle_push ex_hmac ex_tally (ap_signer p) (ap_enqueuer p) (ex_io 9 100) (ex_event ''b'') ''d'' (ex_world []) = (fst h, snd h)"
    by (simp add: h_def)
  obtain t where q: "set (w_queue (snd h)) = {t}" and j: "map jid (jobs (w_db (snd h))) = [9]"
    by (auto simp: h_def enq handle_push_def Let_def ex_io_def get_active_jobs_for_branch_def create_job_def enqueue_defs)
  have "task_url t = ct_worker_url (cf_cloud_tasks ex_api_config) @ ''/run'' \<and>
     (\<exists>j \<in> set (jobs (w_db (snd h))). jstatus j = Queued \<and> jcommit j = ev_commit (ex_event ''b'') \<and>
        jbranch j = ev_branch (ex_event ''b'') \<and>
        worker_mux (worker_run ex_hmac
           (ac_signer (wp_client u)) 5 ex_count (\<lambda>i. get_repo_for_job i (w_db (snd h))) ex_tally (\<lambda>i _ _ is. i # is))
           ''/run'' (ex_request\<lparr>rq_body := task_body t\<rparr>) [] = (EmptyReply 200, [ex_tally (jid j)]))"
    by (rule pushed_task_is_executed [OF p u _ h])
       (simp_all add: q ex_tally_count valid_time_def ex_request_def ex_api_config_def ex_worker_config_def ex_io_simps)
  moreover have "jid x = 9" if "x \<in> set (jobs (w_db (snd h)))" for x
    using imageI [OF that, of jid] arg_cong [OF j, of set] by simp
  ultimately have "snd (worker_mux (worker_run ex_hmac
           (ac_signer (wp_client u)) 5 ex_count (\<lambda>i. get_repo_for_job i (w_db (snd h))) ex_tally (\<lambda>i _ _ is. i # is))
           ''/run'' (ex_request\<lparr>rq_body := task_body t\<rparr>) []) = [ex_tally 9]" by auto
  with p u q show ?thesis unfolding Let_def h_def by blast
qed

end
