(* ===== verification/Pipeline.thy ===== *)
theory Pipeline
  imports Programs
begin

text \<open>
  From a push to its snapshot, across the two programs.

  The API and the worker are built from configurations that share the signing key.  A push adds a task;
  Cloud Tasks posts the task to the worker; the worker runs the job, calling the API over the network;
  the API records the snapshot.  \<open>token_time\<close> says when a token is still accepted.
\<close>

definition token_time :: "nanos \<Rightarrow> nanos \<Rightarrow> bool" where
  \<comment> \<open>a token signed at the first time is checked, at the second, within its thirty minutes\<close>
  "token_time clock now \<longleftrightarrow>
     valid_time now \<and> valid_time (clock + 30 * 60 * 1000000000) \<and> now \<le> clock + 30 * 60 * 1000000000"

lemma callback_token_fresh:
  assumes "build_api (Inr c) fa = Inr p" and "build_worker quote show_storage (Inr w) fw = Inr u"
    and "cf_hmac_signing_key (cf_app c) = wc_hmac_key w" and "token_time clock now"
  shows "fresh_token (ac_signer (wp_client u)) (sv_signer (configured c p e)) clock now"
  using assms(3,4)
  by (simp add: fresh_token_def token_time_def configured_def build_api_ok(4) [OF assms(1)]
        build_worker_ok(1) [OF assms(2)] build_signer_keys)

text \<open>
  C1: A push becomes a snapshot.  Take an API and a worker that started from configurations with the
  same signing key, a push that added a task, and the worker's answer when Cloud Tasks posts the body
  of that task to \<^verbatim>\<open>/run\<close>, the worker's callbacks being served by that API on the database the push left.
  If no call fails, the tokens are checked within thirty minutes, and the commit has no snapshot yet, then the
  worker answers 200, the job the push created has succeeded, and there is exactly one new snapshot, for
  that job and the pushed commit, whose path holds the report of this run.
\<close>

theorem push_becomes_snapshot:
  fixes st :: "('r \<times> world) exec_state"
  assumes api: "build_api (Inr c) fa = Inr p" and worker: "build_worker quote show_storage (Inr w) fw = Inr u"
    and key: "cf_hmac_signing_key (cf_app c) = wc_hmac_key w"
    and push: "handle_push hmac us (ap_signer p) (ap_enqueuer p) io ev dl wld = (res, wld')"
        "t \<in> set (w_queue wld') - set (w_queue wld)" "wf_db (w_db wld)" "one_queued (w_db wld)"
    and repo: "repo \<in> set (repositories (w_db wld))" "rgithub_id repo = ev_repo_id ev"
    and ids: "\<And>i. us i \<noteq> [] \<and> valid_utf8 (us i) \<and> uuid_scan (us i) = Some i"
    and request: "rq_method r = ''POST''" "rq_body r = task_body t"
    and st: "es_api st = (rs, wld')"
    and server: "e1 = configured c p f1" "e2 = configured c p f2" "chi_serves match serve" "static_paths match"
        "passes_same_origin (sv_cors e1 (cors (sv_origins e1)))" "passes_same_origin (sv_cors e2 (cors (sv_origins e2)))"
        "same_program e1 e2" "sv_uuid_scan e1 = uuid_scan" "sv_gen_token e1 (rinstallation repo) = Inr tok"
    and time: "token_time (pio_clock io) now" "token_time t1 (sv_token_clock e1)" "token_time t2 (sv_token_clock e2)"
    and wire: "wire_ok b \<lparr>sp_commit_sha = ev_commit ev, sp_branch = ev_branch ev, sp_repo_full_name = rfull_name repo,
          sp_clone_token = tok, sp_installation_id = rinstallation repo\<rparr>"
        "b = success_body (us (pio_new_id io)) (us (rid repo)) (us (rid repo)) (ev_commit ev) result"
    and valid: "sv_validate_start e1 \<lparr>sr_job_id = us (pio_new_id io)\<rparr> = []" "sv_validate_complete e1 (request_of b) = []"
    and faults: "no_start_faults (sv_start_io e1)" "no_complete_faults (sv_complete_io e2)"
    and new: "\<forall>x \<in> set (snapshots (w_db wld)). sid x \<noteq> cio_new_id (sv_complete_io e2) \<and>
          \<not> (srepo x = rid repo \<and> sbranch x = ev_branch ev \<and> scommit x = ev_commit ev)"
    and run: "started_run env \<lparr>sp_commit_sha = ev_commit ev, sp_branch = ev_branch ev,
          sp_repo_full_name = rfull_name repo, sp_clone_token = tok,
          sp_installation_id = rinstallation repo\<rparr> (es_reports st) = (Inr result, fs')"
        "read_report_file (ee_read_fails env) fs' = Inr data" "ee_upload env = upload None None"
  shows "let answer = worker_mux (worker_run hmac (ac_signer (wp_client u)) now uuid_scan
               (\<lambda>i. get_repo_for_job i (w_db wld')) us
               (execute (Some (server_exec serve e1 e2 fmt (wp_client u) t1 t2 env)))) ''/run'' r st;
             st' = snd answer; d' = w_db (snd (es_api st'))
         in fst answer = EmptyReply 200 \<and>
            (\<exists>j \<in> set (jobs d'). jid j = pio_new_id io \<and> jstatus j = Succeeded \<and> jcommit j = ev_commit ev) \<and>
            (\<exists>s. snapshots d' = snapshots (w_db wld) @ [s] \<and> sjob s = pio_new_id io \<and> scommit s = ev_commit ev \<and>
               es_bucket st' (sgcs_path s) = Some data)"
proof -
  let ?exec = "execute (Some (server_exec serve e1 e2 fmt (wp_client u) t1 t2 env))"
  have k: "cf_hmac_signing_key (cf_app c) = wc_hmac_key w \<or>
      wc_hmac_key_prev w \<noteq> [] \<and> cf_hmac_signing_key (cf_app c) = wc_hmac_key_prev w" using key by simp
  obtain repo' j where repo': "repo' \<in> set (repositories (w_db wld'))" "rgithub_id repo' = ev_repo_id ev"
    and j: "j \<in> set (jobs (w_db wld'))" "jid j = pio_new_id io" "jrepo j = rid repo'"
      "jstatus j = Queued" "jcommit j = ev_commit ev" "jbranch j = ev_branch ev"
    and same: "repositories (w_db wld') = repositories (w_db wld)" "snapshots (w_db wld') = snapshots (w_db wld)"
    and answer: "worker_mux (worker_run hmac (ac_signer (wp_client u)) now uuid_scan
            (\<lambda>i. get_repo_for_job i (w_db wld')) us ?exec) ''/run'' r st =
          (EmptyReply 200, ?exec (us (jid j)) (us (jrepo j)) (us (jrepo j)) st)"
    using time(1) by (elim posted_task_runs [OF api worker k push _ _ _ ids request, rotated -1])
      (simp_all add: token_time_def)
  have wf: "wf_db (w_db wld')" using handle_push_keeps [OF push(1,3,4)] by simp
  have "repo' = repo"
    using push(3) repo repo' same(1) by (auto simp: wf_db_def wf_repos_def dest: unique_onD)
  note db = wf j(1,4)
  have "let st' = ?exec (us (jid j)) (us (rid repo)) (us (rid repo)) st; d' = w_db (snd (es_api st'))
     in (\<exists>x \<in> set (jobs d'). jid x = jid j \<and> jstatus x = Succeeded \<and> jcommit x = jcommit j) \<and>
        (\<exists>s. snapshots d' = snapshots (w_db (snd (es_api st))) @ [s] \<and> sjob s = jid j \<and> scommit s = jcommit j \<and>
             es_bucket st' (sgcs_path s) = Some data) \<and>
        es_api st' = (fst (es_api st), (snd (es_api st))\<lparr>w_db := d'\<rparr>)"
  proof (rule full_execution [where repo = repo and tok = tok and b = b and result = result and fs' = fs',
        OF server(3,4,6,5,7)])
    show "fresh_token (ac_signer (wp_client u)) (sv_signer e1) t1 (sv_token_clock e1)"
      using callback_token_fresh [OF api worker key time(2), of f1] by (simp only: server(1) [symmetric])
    show "fresh_token (ac_signer (wp_client u)) (sv_signer e1) t2 (sv_token_clock e2)"
      using callback_token_fresh [OF api worker key time(3), of f1] by (simp only: server(1) [symmetric])
  qed (use wf j repo \<open>repo' = repo\<close> same server ids wire valid faults new run st in simp_all)
  then show ?thesis using answer j same(2) st \<open>repo' = repo\<close> by (simp add: Let_def)
qed

abbreviation ex_pushed :: "api_parts \<Rightarrow> world" where
  "ex_pushed p \<equiv> snd (handle_push ex_hmac ex_tally (ap_signer p) (ap_enqueuer p) (ex_io 9 100) (ex_event ''b'') ''d''
     (ex_world []))"

abbreviation ex_deployed :: "api_parts \<Rightarrow> unit server_env" where
  "ex_deployed p \<equiv> configured ex_api_config p (ex_server\<lparr>sv_uuid_scan := ex_count\<rparr>)"

definition ex_answer :: "api_parts \<Rightarrow> worker_parts \<Rightarrow> cloud_task \<Rightarrow> unit reply \<times> (unit \<times> world) exec_state" where
  "ex_answer p u t = worker_mux (worker_run ex_hmac (ac_signer (wp_client u)) 5 ex_count
     (\<lambda>i. get_repo_for_job i (w_db (ex_pushed p))) ex_tally
     (execute (Some (server_exec ex_serve (ex_deployed p) (ex_deployed p) (\<lambda>_. []) (wp_client u) 0 0 ex_worker_env))))
     ''/run'' (ex_request\<lparr>rq_body := task_body t\<rparr>)
     \<lparr>es_api = ((), ex_pushed p), es_reports = [], es_bucket = Map.empty\<rparr>"

lemma ex_deployed_simps:
  "sv_cors (ex_deployed p) = (\<lambda>_ nxt. nxt)" "sv_validate_complete (ex_deployed p) = ex_vstruct"
  "sv_validate_start (ex_deployed p) = (\<lambda>_. [])" "sv_uuid_scan (ex_deployed p) = ex_count"
  "sv_gen_token (ex_deployed p) = (\<lambda>_. Inr ''ghs'')" "sv_token_clock (ex_deployed p) = 1"
  "sv_start_io (ex_deployed p) = ex_start_io" "sv_complete_io (ex_deployed p) = ex_complete_io"
  "sv_read_error (ex_deployed p) = None"
  by (simp_all add: configured_def ex_server_def)

lemma ex_tally_ascii: "list_all (\<lambda>c. byte c < 128) (ex_tally i)"
  by (auto simp: ex_tally_def list_all_iff)

lemma ex_tally_length: "length (ex_tally 9) = 10" "length (ex_tally 2) = 3"
  by (simp_all add: ex_tally_def)

abbreviation ex_success :: complete_body where
  "ex_success \<equiv> success_body (ex_tally 9) (ex_tally 2) (ex_tally 2) ''b'' ex_result"

lemma ex_success_wire: "wire_ok ex_success \<lparr>sp_commit_sha = ''b'', sp_branch = ''main'',
    sp_repo_full_name = rfull_name ex_repo, sp_clone_token = ''ghs'', sp_installation_id = rinstallation ex_repo\<rparr>"
  by (simp add: wire_ok_def utf8_body_def utf8_response_def success_body_def snapshot_path_def body_length_def
      ascii_valid ex_tally_ascii ex_tally_length ex_repo_def ex_result_def)

lemma ex_success_accepted: "ex_vstruct (request_of ex_success) = []"
  by (simp add: ex_vstruct_def request_of_def success_body_def snapshot_path_def ex_result_def length_ex_report
      ex_tally_count)

lemma ex_worker_run: "started_run ex_worker_env \<lparr>sp_commit_sha = c, sp_branch = ''main'',
      sp_repo_full_name = n, sp_clone_token = ''ghs'', sp_installation_id = i\<rparr> [] =
    (Inr ex_result, [(''report.json'', ex_report ''v1'' ''tree of main'')])"
  by (simp add: started_run_def run_with_token_def clone_and_run_def ex_worker_env_def ex_run_io_def
      collect_result_def read_version_def total_size_def ex_result_def ex_env_def ascii_valid)

theorem push_becomes_snapshot_witness:
  "\<exists>p u t. build_api (Inr ex_api_config) no_api_faults = Inr p \<and>
     build_worker (\<lambda>q. q) (\<lambda>_. []) (Inr ex_worker_config) no_worker_faults = Inr u \<and> set (w_queue (ex_pushed p)) = {t} \<and>
     fst (ex_answer p u t) = EmptyReply 200 \<and>
     (\<exists>s. snapshots (w_db (snd (es_api (snd (ex_answer p u t))))) = [s] \<and> scommit s = ''b'' \<and>
        es_bucket (snd (ex_answer p u t)) (sgcs_path s) = Some (ex_report ''v1'' ''tree of main''))"
proof (rule ex_api_starts, rule ex_worker_starts [of "\<lambda>q. q" "\<lambda>_. []"])
  fix p u
  assume p: "build_api (Inr ex_api_config) no_api_faults = Inr p"
    and u: "build_worker (\<lambda>q. q) (\<lambda>_. []) (Inr ex_worker_config) no_worker_faults = Inr u"
  define h where "h = handle_push ex_hmac ex_tally (ap_signer p) (ap_enqueuer p) (ex_io 9 100) (ex_event ''b'') ''d'' (ex_world [])"
  have enq: "ap_enqueuer p = CloudTasksEnqueuer ex_cfg"
    using build_api_ok(5) [OF p] by (simp add: ex_api_config_def tasks_enabled_def ex_cfg_def)
  have h: "handle_push ex_hmac ex_tally (ap_signer p) (ap_enqueuer p) (ex_io 9 100) (ex_event ''b'') ''d'' (ex_world []) =
      (fst h, snd h)"
    by (simp add: h_def)
  obtain t where q: "set (w_queue (snd h)) = {t}"
    by (auto simp: h_def enq handle_push_def Let_def ex_io_def get_active_jobs_for_branch_def create_job_def enqueue_defs)
  have same: "same_program (ex_deployed p) (ex_deployed p)" by (simp add: same_program_def ex_deployed_simps)
  have cors: "passes_same_origin (sv_cors (ex_deployed p) (cors (sv_origins (ex_deployed p))))"
    by (simp add: passes_same_origin_def ex_deployed_simps)
  have time: "token_time (pio_clock (ex_io 9 100)) 5" "token_time 0 (sv_token_clock (ex_deployed p))"
    by (simp_all add: token_time_def valid_time_def ex_io_def ex_deployed_simps)
  have wire: "wire_ok ex_success \<lparr>sp_commit_sha = ev_commit (ex_event ''b''), sp_branch = ev_branch (ex_event ''b''),
      sp_repo_full_name = rfull_name ex_repo, sp_clone_token = ''ghs'', sp_installation_id = rinstallation ex_repo\<rparr>"
    using ex_success_wire by (simp add: ex_event_def)
  have body: "ex_success = success_body (ex_tally (pio_new_id (ex_io 9 100))) (ex_tally (rid ex_repo)) (ex_tally (rid ex_repo))
      (ev_commit (ex_event ''b'')) ex_result"
    by (simp add: ex_io_def ex_event_def)
  have faults: "no_start_faults (sv_start_io (ex_deployed p))" "no_complete_faults (sv_complete_io (ex_deployed p))"
    by (simp_all add: ex_deployed_simps no_start_faults_def no_complete_faults_def ex_start_io_def ex_complete_io_def)
  have key: "cf_hmac_signing_key (cf_app ex_api_config) = wc_hmac_key ex_worker_config"
    by (simp add: ex_api_config_def ex_worker_config_def)
  have ev: "ev_commit (ex_event ''b'') = ''b''" "ev_branch (ex_event ''b'') = ''main''"
    "rgithub_id ex_repo = ev_repo_id (ex_event ''b'')" "pio_new_id (ex_io 9 100) = 9"
    by (simp_all add: ex_event_def ex_repo_def ex_io_def)
  have "let answer = ex_answer p u t; st' = snd answer; d' = w_db (snd (es_api st'))
     in fst answer = EmptyReply 200 \<and>
        (\<exists>j \<in> set (jobs d'). jid j = pio_new_id (ex_io 9 100) \<and> jstatus j = Succeeded \<and> jcommit j = ev_commit (ex_event ''b'')) \<and>
        (\<exists>s. snapshots d' = snapshots (w_db (ex_world [])) @ [s] \<and> sjob s = pio_new_id (ex_io 9 100) \<and>
           scommit s = ev_commit (ex_event ''b'') \<and>
           es_bucket st' (sgcs_path s) = Some (ex_report ''v1'' ''tree of main''))"
    unfolding ex_answer_def
    by (rule push_becomes_snapshot [OF p u key h [unfolded h_def fst_conv snd_conv] _ _ _ _ ev(3) ex_tally_count _ _ _ refl refl
          ex_chi_serves ex_static_paths cors cors same _ _ time(1,2,2) wire body _ _ faults _,
          where fs' = "[(''report.json'', ex_report ''v1'' ''tree of main'')]"])
       (use q [unfolded h_def] in \<open>simp_all add: ex_deployed_simps ex_success_accepted ex_worker_run ev(1,2,4) ex_request_def
          read_report_file_def\<close>, simp_all add: ex_worker_env_def)
  then show ?thesis using p u q by (intro exI [of _ p] exI [of _ u] exI [of _ t]) (auto simp: Let_def h_def)
qed

end
