(* ===== verification/ApiTypes.thy ===== *)
theory ApiTypes
  imports ApiServer
begin

text \<open>
  The type of the API: which statuses and bodies each route of \<open>run\<close> (\<^verbatim>\<open>api/cmd/main.go\<close>) answers with, its
  middlewares included, and what the read routes depend on.

  \<open>typed_reply\<close> is the table; \<open>refuses\<close> is what a middleware may answer itself.
\<close>

definition json_ok :: "string \<Rightarrow> nat \<Rightarrow> api_body \<Rightarrow> bool" where
  "json_ok path n b \<longleftrightarrow>
     (case b of
        StartBody _ \<Rightarrow> path = ''/internal/jobs/start'' \<and> n = 200
      | StatusBody st \<Rightarrow> path = ''/internal/jobs/complete'' \<and> n = 200 \<and>
          st \<in> {''succeeded'', ''failed'', ''cancelled'', ''superseded''}
      | CountBody k \<Rightarrow> path = ''/internal/watchdog/timeout'' \<and> n = 200 \<and> 0 \<le> k
      | ProbeBody _ \<Rightarrow> path = ''/livez'' \<and> n = 200 \<or> path = ''/readyz'' \<and> n \<in> {200, 503}
      | JobBody _ \<Rightarrow> path = ''/api/v1/repos/{repoID}/jobs/{jobID}'' \<and> n = 200
      | JobsBody p \<Rightarrow> path = ''/api/v1/repos/{repoID}/jobs'' \<and> n = 200 \<and> length (rs_data p) \<le> 100
      | RepoBody _ \<Rightarrow> path = ''/api/v1/repos/{repoID}'' \<and> n = 200
      | SnapshotBody _ \<Rightarrow>
          path \<in> {''/api/v1/repos/{repoID}/snapshots/latest'', ''/api/v1/snapshots/{snapshotID}''} \<and> n = 200
      | SnapshotsBody _ \<Rightarrow> path = ''/api/v1/repos/{repoID}/snapshots'' \<and> n = 200
      | NoBody _ \<Rightarrow> False)"

definition error_statuses :: "string \<Rightarrow> nat set" where
  \<comment> \<open>the statuses of JSON error replies\<close>
  "error_statuses path =
     (if path = ''/internal/jobs/start'' then {400, 401, 404, 409, 415, 500}
      else if path = ''/internal/jobs/complete'' then {400, 401, 404, 415, 500}
      else if path = ''/internal/webhooks/github'' then {415, 429}
      else if path = ''/internal/watchdog/timeout'' then {401, 500}
      else if path \<in> {''/livez'', ''/readyz'', ''/auth/github/install'', ''/auth/github/callback''} then {}
      else if path \<in> {''/api/v1/repos/{repoID}/jobs'', ''/api/v1/repos/{repoID}/snapshots''} then {400, 401, 429, 500}
      else {400, 401, 404, 429, 500})"

definition typed_reply :: "string \<Rightarrow> api_body reply \<Rightarrow> bool" where
  "typed_reply path reply \<longleftrightarrow>
     (case reply of
        JsonReply n b \<Rightarrow> json_ok path n b
      | ErrReply n _ \<Rightarrow> n \<in> error_statuses path
      | TextReply n _ \<Rightarrow> path = ''/internal/webhooks/github'' \<and> n \<in> {401, 413, 500} \<or>
          path = ''/auth/github/callback'' \<and> n \<in> {200, 400}
      | EmptyReply n \<Rightarrow> path = ''/internal/webhooks/github'' \<and> n \<in> {200, 202}
      | RedirectReply n _ \<Rightarrow> path = ''/auth/github/install'' \<and> n = 302)"

lemmas typed_defs = typed_reply_def json_ok_def error_statuses_def err_response_def internal_error_def ok_response_def

subsection \<open>Middlewares\<close>

definition same_query :: "request \<Rightarrow> request \<Rightarrow> bool" where
  "same_query r r' \<longleftrightarrow> rq_query r' = rq_query r \<and> rq_param r' = rq_param r"

definition answers :: "nat set \<Rightarrow> ('r \<times> 's, 'a) handler \<Rightarrow> request \<Rightarrow> 'r \<times> 's \<Rightarrow> 'a reply \<times> ('r \<times> 's) \<Rightarrow> bool" where
  \<comment> \<open>an error of these statuses, or what the handler makes of the request with the same parameters\<close>
  "answers S nxt r s x \<longleftrightarrow>
     (\<exists>n msg s'. x = (ErrReply n msg, s') \<and> n \<in> S) \<or>
     (\<exists>r' s'. x = nxt r' s' \<and> same_query r r' \<and> snd s' = snd s)"

definition refuses :: "nat set \<Rightarrow> ('r \<times> 's, 'a) middleware \<Rightarrow> bool" where
  "refuses S m \<longleftrightarrow> (\<forall>nxt r s. answers S nxt r s (m nxt r s))"

lemma same_query_refl [simp]: "same_query r r"
  by (simp add: same_query_def)

lemma answers_error [simp]: "n \<in> S \<Longrightarrow> answers S nxt r s (err_response n msg, s')"
  by (auto simp: answers_def err_response_def)

lemma answers_pass: "same_query r r' \<Longrightarrow> snd s' = snd s \<Longrightarrow> answers S nxt r s (nxt r' s')"
  unfolding answers_def by blast

lemma answers_trans:
  assumes "answers S nxt r s (nxt' r' s')" and "\<And>r s. answers S h r s (nxt r s)"
  shows "answers S h r s (nxt' r' s')"
  using assms unfolding answers_def same_query_def by metis

lemma refuses_json: "415 \<in> S \<Longrightarrow> refuses S require_json"
  by (simp add: refuses_def require_json_def answers_pass)

lemma refuses_auth: "401 \<in> S \<Longrightarrow> refuses S (auth verify)"
  by (auto simp: refuses_def auth_def Let_def same_query_def split: sum.split intro!: answers_pass)

lemma refuses_secret: "401 \<in> S \<Longrightarrow> refuses S (shared_secret secret)"
  by (auto simp: refuses_def shared_secret_def split: prod.split intro!: answers_pass)

lemma refuses_token: "{400, 401} \<subseteq> S \<Longrightarrow> refuses S (jobtoken_auth hmac sg now re)"
  by (auto simp: refuses_def jobtoken_auth_def Let_def same_query_def split: option.split intro!: answers_pass)

lemma refuses_limit: "429 \<in> S \<Longrightarrow> refuses S (rate_limit pipeline cfg pre now)"
  by (auto simp: refuses_def rate_limit_def Let_def split: prod.split sum.split intro!: answers_pass)

lemmas refuses_intros = refuses_json refuses_auth refuses_secret refuses_token refuses_limit

lemma wrap_passes:
  assumes "\<forall>m \<in> set ms. refuses S m"
  shows "answers S h r s (wrap ms h r s)"
  using assms
proof (induction ms arbitrary: r s)
  case Nil
  then show ?case by (simp add: wrap_def answers_pass)
next
  case (Cons m ms)
  have "refuses S m" using Cons.prems by simp
  then have "answers S (wrap ms h) r s (m (wrap ms h) r s)" unfolding refuses_def by blast
  then have "answers S h r s (m (wrap ms h) r s)" by (rule answers_trans) (use Cons in simp)
  then show ?case by (simp add: wrap_def)
qed

lemma wrap_replies:
  assumes "\<forall>m \<in> set ms. refuses S m" and "\<And>r s. P (fst (h r s))" and "\<And>n msg. n \<in> S \<Longrightarrow> P (ErrReply n msg)"
  shows "P (fst (wrap ms h r s))"
  using wrap_passes [OF assms(1), of h r s] assms(2,3) by (auto simp: answers_def)

subsection \<open>Handlers\<close>

lemma lifted_reply:
  "fst (lift_state (body_as f h) r s) = map_reply f (fst (h r (snd s)))"
  "fst (on_db h' r w) = fst (h' r (w_db w))"
  "fst (reading h'' r w) = h'' r (w_db w)"
  by (simp_all add: lift_state_def body_as_def on_db_def reading_def split: prod.split)

lemma typed_start:
  "typed_reply ''/internal/jobs/start'' (map_reply StartBody (fst (start_handler vs scan gen io r d)))"
proof (cases rule: start_handler_cases [of vs scan gen io r d])
  case (refused reply)
  then show ?thesis by (auto simp: is_refusal_def typed_defs)
next
  case (locked req job)
  show ?thesis
    unfolding locked(6) start_locked_def respond_start_def
    by (auto simp: typed_defs split: option.split prod.split sum.split)
qed

lemma status_string_terminal:
  "is_terminal st \<Longrightarrow> status_string st \<in> {''succeeded'', ''failed'', ''cancelled'', ''superseded''}"
  by (cases st) (simp_all add: status_string_def)

lemma typed_complete:
  assumes "complete_validator vs"
  shows "typed_reply ''/internal/jobs/complete'' (map_reply StatusBody (fst (complete_handler vs scan io r d)))"
proof (cases rule: complete_handler_cases [of vs scan io r d])
  case (refused reply)
  then show ?thesis by (auto simp: is_refusal_def typed_defs)
next
  case (locked req job)
  have st: "cr_status req = ''succeeded'' \<or> cr_status req = ''failed''"
    by (rule complete_validator_status [OF assms locked(2)]) simp_all
  show ?thesis
    unfolding locked(6)
  proof (cases rule: complete_locked_cases [of job io req d])
    case terminal
    then show "typed_reply ''/internal/jobs/complete'' (map_reply StatusBody (fst (complete_locked io req job d)))"
      using status_string_terminal by (simp add: typed_defs)
  next
    case failed
    then show "typed_reply ''/internal/jobs/complete'' (map_reply StatusBody (fst (complete_locked io req job d)))"
      by (simp add: typed_defs)
  next
    case completed
    then show "typed_reply ''/internal/jobs/complete'' (map_reply StatusBody (fst (complete_locked io req job d)))"
      using st by (auto simp: typed_defs)
  qed
qed

lemma typed_timeout:
  "typed_reply ''/internal/watchdog/timeout'' (map_reply CountBody (fst (timeout_handler fault now r d)))"
  by (cases fault) (simp_all add: timeout_handler_eq typed_defs)

lemma typed_webhook:
  "typed_reply ''/internal/webhooks/github'' (map_reply NoBody (fst (webhook_handler validate re handle r s)))"
  by (auto simp: webhook_handler_def Let_def typed_defs split: sum.split webhook_error.split prod.split option.split)

lemma parse_limit_max: "parse_limit r \<le> 100"
  by (simp add: parse_limit_def Let_def default_page_limit_def max_page_limit_def split: option.split)

lemma typed_list_jobs:
  "typed_reply ''/api/v1/repos/{repoID}/jobs'' (map_reply JobsBody (list_jobs scan pt ft now fault r d))"
proof -
  have "length (list_jobs_by_repo repo before (parse_limit r) d) \<le> 100" for repo before
    using parse_limit_max [of r] by (simp add: list_jobs_by_repo_def)
  then show ?thesis
    by (auto simp: list_jobs_def Let_def typed_defs with_fault_def split: option.split sum.split)
qed

lemma typed_reads:
  "typed_reply ''/api/v1/repos/{repoID}'' (map_reply RepoBody (get_repo scan fault r d))"
  "typed_reply ''/api/v1/repos/{repoID}/jobs/{jobID}'' (map_reply JobBody (get_job scan fault r d))"
  "typed_reply ''/api/v1/repos/{repoID}/snapshots'' (map_reply SnapshotsBody (list_snapshots scan fault r d))"
  "typed_reply ''/api/v1/repos/{repoID}/snapshots/latest'' (map_reply SnapshotBody (latest_snapshot scan fault r d))"
  "typed_reply ''/api/v1/snapshots/{snapshotID}'' (map_reply SnapshotBody (get_snapshot scan fault r d))"
  by (auto simp: get_repo_def get_job_def list_snapshots_def latest_snapshot_def get_snapshot_def typed_defs
        split: option.split sum.split)

lemma typed_open:
  "typed_reply ''/livez'' (map_reply ProbeBody liveness)"
  "typed_reply ''/readyz'' (map_reply ProbeBody (readiness ping))"
  "typed_reply ''/auth/github/install'' (map_reply NoBody (install_handler slug r))"
  "typed_reply ''/auth/github/callback'' (map_reply NoBody (install_callback r))"
  by (simp_all add: liveness_def readiness_def install_handler_def install_callback_def typed_defs Let_def)

subsection \<open>Routes\<close>

lemma error_statuses_simps [simp]:
  "error_statuses ''/internal/jobs/start'' = {400, 401, 404, 409, 415, 500}"
  "error_statuses ''/internal/jobs/complete'' = {400, 401, 404, 415, 500}"
  "error_statuses ''/internal/webhooks/github'' = {415, 429}"
  "error_statuses ''/internal/watchdog/timeout'' = {401, 500}"
  "error_statuses ''/api/v1/repos/{repoID}'' = {400, 401, 404, 429, 500}"
  "error_statuses ''/api/v1/repos/{repoID}/jobs'' = {400, 401, 429, 500}"
  "error_statuses ''/api/v1/repos/{repoID}/jobs/{jobID}'' = {400, 401, 404, 429, 500}"
  "error_statuses ''/api/v1/repos/{repoID}/snapshots'' = {400, 401, 429, 500}"
  "error_statuses ''/api/v1/repos/{repoID}/snapshots/latest'' = {400, 401, 404, 429, 500}"
  "error_statuses ''/api/v1/snapshots/{snapshotID}'' = {400, 401, 404, 429, 500}"
  by (simp_all add: error_statuses_def)

lemma typed_wrap:
  assumes "\<forall>m \<in> set ms. refuses (error_statuses path) m" and "\<And>r s. typed_reply path (fst (h r s))"
  shows "typed_reply path (fst (wrap ms h r s))"
  by (rule wrap_replies [where P = "typed_reply path", OF assms]) (simp add: typed_reply_def)

definition typed_rt :: "('r \<times> 's, api_body) chi_route \<Rightarrow> bool" where
  "typed_rt rt \<longleftrightarrow> (\<forall>r s. typed_reply (rt_path rt) (fst (wrap (rt_mws rt) (rt_handler rt) r s)))"

lemma typed_routes_of:
  assumes "\<And>sub m. sub \<in> set subs \<Longrightarrow> m \<in> set ms \<Longrightarrow> refuses (error_statuses (sub_path sub)) m"
    and "\<And>sub r s. sub \<in> set subs \<Longrightarrow> typed_reply (sub_path sub) (fst (sub_handler sub r s))"
  shows "\<forall>rt \<in> set (routes_of ms subs). typed_rt rt"
proof
  fix rt assume "rt \<in> set (routes_of ms subs)"
  then obtain sub where "sub \<in> set subs"
    "rt = \<lparr>rt_method = sub_method sub, rt_path = sub_path sub, rt_mws = ms, rt_handler = sub_handler sub\<rparr>"
    by (auto simp: routes_of_def)
  then show "typed_rt rt" using assms by (auto simp: typed_rt_def intro!: typed_wrap)
qed

lemma typed_health: "\<forall>rt \<in> set (routes_of [] (health_routes e)). typed_rt rt"
  by (rule typed_routes_of) (auto simp: health_routes_def lifted_reply typed_open)

lemma typed_github: "\<forall>rt \<in> set (routes_of [] (github_auth_routes e)). typed_rt rt"
  by (rule typed_routes_of) (auto simp: github_auth_routes_def lifted_reply typed_open)

lemma typed_webhooks: "\<forall>rt \<in> set (routes_of (gr_mws (webhook_group e)) (webhook_routes e)). typed_rt rt"
  by (rule typed_routes_of)
     (auto simp: webhook_routes_def group_defs lifted_reply webhook_entry_def typed_webhook intro!: refuses_intros)

lemma typed_callbacks:
  assumes "complete_validator (sv_validate_complete e)"
  shows "\<forall>rt \<in> set (routes_of (gr_mws (callback_group e)) (callback_routes e)). typed_rt rt"
  by (rule typed_routes_of)
     (auto simp: callback_routes_def group_defs lifted_reply typed_start typed_complete [OF assms] intro!: refuses_intros)

lemma typed_watchdog: "\<forall>rt \<in> set (routes_of (gr_mws (watchdog_group e)) (watchdog_routes e)). typed_rt rt"
  by (rule typed_routes_of)
     (auto simp: watchdog_routes_def group_defs lifted_reply typed_timeout intro!: refuses_intros)

lemma typed_v1: "\<forall>rt \<in> set (routes_of (gr_mws (v1_group e)) (v1_routes e)). typed_rt rt"
  by (rule typed_routes_of)
     (auto simp: v1_routes_def group_defs lifted_reply typed_list_jobs typed_reads intro!: refuses_intros)

lemma typed_route:
  assumes "rt \<in> set (mx_routes (api_mux e))" and "complete_validator (sv_validate_complete e)"
  shows "typed_rt rt"
  using assms(1) typed_health [of e] typed_github [of e] typed_webhooks [of e] typed_callbacks [OF assms(2)]
    typed_watchdog [of e] typed_v1 [of e]
  by (auto simp: api_mux_def)

lemma reads_same:
  assumes "same_query r r'"
  shows "get_repo scan fault r' d = get_repo scan fault r d"
    and "get_job scan fault r' d = get_job scan fault r d"
    and "list_jobs scan pt ft now fault r' d = list_jobs scan pt ft now fault r d"
    and "list_snapshots scan fault r' d = list_snapshots scan fault r d"
    and "latest_snapshot scan fault r' d = latest_snapshot scan fault r d"
    and "get_snapshot scan fault r' d = get_snapshot scan fault r d"
proof -
  have p: "rq_query r' = rq_query r" "rq_param r' = rq_param r" using assms by (simp_all add: same_query_def)
  have q: "parse_limit r' = parse_limit r" "parse_branch r' = parse_branch r"
    "parse_cursor pt now r' = parse_cursor pt now r" for pt now
    by (simp_all add: parse_limit_def parse_branch_def parse_cursor_def p)
  show "get_repo scan fault r' d = get_repo scan fault r d" unfolding get_repo_def p ..
  show "get_job scan fault r' d = get_job scan fault r d" unfolding get_job_def p ..
  show "list_jobs scan pt ft now fault r' d = list_jobs scan pt ft now fault r d" unfolding list_jobs_def p q ..
  show "list_snapshots scan fault r' d = list_snapshots scan fault r d" unfolding list_snapshots_def p q ..
  show "latest_snapshot scan fault r' d = latest_snapshot scan fault r d" unfolding latest_snapshot_def p q ..
  show "get_snapshot scan fault r' d = get_snapshot scan fault r d" unfolding get_snapshot_def p ..
qed

lemma v1_same_reply:
  assumes "sub \<in> set (v1_routes e)" and "same_query r r'" and "snd s' = snd s"
  shows "fst (sub_handler sub r' s') = fst (sub_handler sub r s)"
  using assms(1,3) by (auto simp: v1_routes_def lifted_reply reads_same [OF assms(2)])

subsection \<open>Properties\<close>

definition ex_open_server :: "unit server_env" where
  \<comment> \<open>every token is a session, of the user it names\<close>
  "ex_open_server = ex_server\<lparr>sv_verify := Inr, sv_uuid_scan := (\<lambda>_. Some 2)\<rparr>"

definition ex_repo_route :: "(unit \<times> world, api_body) chi_route" where
  "ex_repo_route = hd (routes_of (gr_mws (v1_group ex_open_server)) (v1_routes ex_open_server))"

definition ex_caller :: "string \<Rightarrow> request" where
  "ex_caller token = ex_request\<lparr>rq_method := ''GET'', rq_header := (\<lambda>h. if h = ''Authorization'' then ''Bearer '' @ token else [])\<rparr>"

definition ex_repo_reply :: "string \<Rightarrow> api_body reply \<times> unit \<times> world" where
  "ex_repo_reply token =
     wrap (rt_mws ex_repo_route) (rt_handler ex_repo_route) (ex_caller token) ((), ex_world [])"

lemma ex_repo_route_mem: "ex_repo_route \<in> set (routes_of (gr_mws (v1_group ex_open_server)) (v1_routes ex_open_server))"
  by (simp add: ex_repo_route_def routes_of_def route_methods_def v1_routes_def)

lemma ex_repo_replies:
  "token \<noteq> [] \<Longrightarrow> fst (ex_repo_reply token) = JsonReply 200 (RepoBody ex_repo)"
  by (simp add: ex_repo_reply_def ex_repo_route_def routes_of_def route_methods_def v1_routes_def group_defs wrap_def
      auth_def extract_token_def ex_caller_def ex_open_server_def ex_server_def rate_limit_def check_rate_limit_def
      api_limit_def lifted_reply get_repo_def get_repo_by_id_def select_one_def ok_response_def Let_def)

text \<open>
  C12: Every reply of the assembled API has the type of its route: whatever the request, the database and the
  failures of the calls, a route answers only with the statuses and bodies of \<open>typed_reply\<close>.  In
  particular \<open>Complete\<close> only reports final statuses, a sweep never a negative count, and a page of jobs
  has at most 100 of them.
\<close>

theorem api_replies_typed:
  assumes "build_routes quote e = Inr mux" and "rt \<in> set (mx_routes mux)"
    and "complete_validator (sv_validate_complete e)"
    and "wrap (rt_mws rt) (rt_handler rt) r s = (reply, s')"
  shows "typed_reply (rt_path rt) reply"
proof -
  have "typed_rt rt" using typed_route [OF _ assms(3)] assms(1,2) by (simp add: build_routes_ok)
  then have "typed_reply (rt_path rt) (fst (wrap (rt_mws rt) (rt_handler rt) r s))"
    unfolding typed_rt_def by blast
  then show ?thesis using assms(4) by simp
qed

theorem api_replies_typed_witness:
  "typed_reply ''/internal/watchdog/timeout'' (ErrReply 401 ''missing authorization token'')"
  using api_replies_typed [OF build_routes_ok, of "hd (routes_of (gr_mws (watchdog_group ex_server)) (watchdog_routes ex_server))"
      ex_server "ex_request" "((), ex_world [])"]
  by (simp add: api_mux_def routes_of_def route_methods_def watchdog_routes_def group_defs wrap_def shared_secret_def
      ex_request_def err_response_def)

text \<open>
  C37: The read routes do not look at the caller: two requests with the same parameters get the same answer
  from the same database, whoever sends them, unless one is refused for its token or its rate.  So any
  valid session reads the jobs and snapshots of every organization, where the documented paths are those of
  one organization.
\<close>

theorem reads_ignore_caller:
  assumes "rt \<in> set (routes_of (gr_mws (v1_group e)) (v1_routes e))" and "same_query r r'" and "snd s = snd s'"
    and "wrap (rt_mws rt) (rt_handler rt) r s = (reply, t)" and "wrap (rt_mws rt) (rt_handler rt) r' s' = (reply', t')"
  shows "reply' = reply \<or> (\<exists>n msg. n \<in> {401, 429} \<and> (reply = ErrReply n msg \<or> reply' = ErrReply n msg))"
proof -
  obtain sub where sub: "sub \<in> set (v1_routes e)" "rt_handler rt = sub_handler sub" "rt_mws rt = gr_mws (v1_group e)"
    using assms(1) by (auto simp: routes_of_def)
  have "\<forall>m \<in> set (rt_mws rt). refuses {401, 429} m"
    by (auto simp: sub(3) group_defs intro!: refuses_intros)
  note pass = wrap_passes [OF this, of "rt_handler rt"]
  show ?thesis
  proof (cases "\<exists>n msg. n \<in> {401, 429} \<and> (reply = ErrReply n msg \<or> reply' = ErrReply n msg)")
    case False
    obtain r1 s1 where 1: "(reply, t) = rt_handler rt r1 s1" "same_query r r1" "snd s1 = snd s"
      using pass [of r s] assms(4) False unfolding answers_def by auto
    obtain r2 s2 where 2: "(reply', t') = rt_handler rt r2 s2" "same_query r' r2" "snd s2 = snd s'"
      using pass [of r' s'] assms(5) False unfolding answers_def by auto
    have "same_query r1 r2" using 1(2) 2(2) assms(2) by (simp add: same_query_def)
    then have "fst (rt_handler rt r2 s2) = fst (rt_handler rt r1 s1)"
      unfolding sub(2) by (rule v1_same_reply [OF sub(1)]) (simp add: 1(3) 2(3) assms(3))
    then show ?thesis using 1(1) 2(1) by (metis fst_conv)
  qed blast
qed

theorem reads_ignore_caller_witness:
  "fst (ex_repo_reply ''user_2'') = fst (ex_repo_reply ''user_1'')"
proof -
  obtain a t where a: "ex_repo_reply ''user_1'' = (a, t)" by (rule prod.exhaust)
  obtain b t' where b: "ex_repo_reply ''user_2'' = (b, t')" by (rule prod.exhaust)
  have q: "same_query (ex_caller ''user_1'') (ex_caller ''user_2'')"
    by (simp add: ex_caller_def same_query_def)
  show ?thesis
    using reads_ignore_caller [OF ex_repo_route_mem q refl a [unfolded ex_repo_reply_def] b [unfolded ex_repo_reply_def]]
      ex_repo_replies [of "''user_1''"] ex_repo_replies [of "''user_2''"] a b by auto
qed

end
