(* ===== verification/Environment.thy ===== *)
theory Environment
  imports Server Samples
begin

text \<open>
  What the two programs read from their environment: the tags of the structs \<open>Config\<close>
  (\<^verbatim>\<open>api/internal/config\<close> and \<^verbatim>\<open>worker/internal/worker/config\<close>).

  Every tag is an \<open>env_field\<close>: the variable, whether it is \<open>required\<close>, its \<open>envDefault\<close>, and what the
  struct holds when the text of the variable is \<open>t\<close>, if \<open>t\<close> can be converted (\<open>fd_readable\<close>).  \<open>env.Parse\<close> itself belongs to a package; \<open>env_contract\<close> is
  what its documentation says of the tags (of an empty variable with a default it says nothing, and the
  contract neither).
\<close>

record 'c env_field =
  fd_var :: string
  fd_required :: bool
  fd_default :: "string option"
  fd_readable :: "string \<Rightarrow> bool"
  fd_holds :: "string \<Rightarrow> 'c \<Rightarrow> bool"

definition text_field :: "string \<Rightarrow> bool \<Rightarrow> string option \<Rightarrow> ('c \<Rightarrow> string) \<Rightarrow> 'c env_field" where
  "text_field var required def get =
     \<lparr>fd_var = var, fd_required = required, fd_default = def, fd_readable = (\<lambda>t. True),
      fd_holds = (\<lambda>t c. get c = t)\<rparr>"

definition parsed_field :: "string \<Rightarrow> bool \<Rightarrow> string option \<Rightarrow> (string \<Rightarrow> 'v option) \<Rightarrow> ('c \<Rightarrow> 'v) \<Rightarrow> 'c env_field" where
  "parsed_field var required def parse get =
     \<lparr>fd_var = var, fd_required = required, fd_default = def, fd_readable = (\<lambda>t. t \<noteq> [] \<and> parse t \<noteq> None),
      fd_holds = (\<lambda>t c. t \<noteq> [] \<longrightarrow> parse t = Some (get c))\<rparr>"

fun split_on :: "char \<Rightarrow> string \<Rightarrow> string \<Rightarrow> string list" where
  \<comment> \<open>\<open>strings.Split\<close> on one character; the second argument is the element read so far, reversed\<close>
  "split_on sep acc [] = [rev acc]"
| "split_on sep acc (c # cs) = (if c = sep then rev acc # split_on sep [] cs else split_on sep (c # acc) cs)"

subsection \<open>The tags\<close>

definition app_fields :: "api_config env_field list" where
  "app_fields =
     [parsed_field ''GITHUB_APP_ID'' True None parse_int64 (\<lambda>c. cf_github_app_id (cf_app c)),
      text_field ''GITHUB_APP_SLUG'' True None (\<lambda>c. cf_github_app_slug (cf_app c)),
      text_field ''GITHUB_APP_PRIVATE_KEY'' True None (\<lambda>c. cf_github_app_private_key (cf_app c)),
      text_field ''GITHUB_APP_WEBHOOK_SECRET'' True None (\<lambda>c. cf_github_app_webhook_secret (cf_app c)),
      text_field ''CLERK_SECRET_KEY'' True None (\<lambda>c. cf_clerk_secret_key (cf_app c)),
      text_field ''HMAC_SIGNING_KEY'' True None (\<lambda>c. cf_hmac_signing_key (cf_app c)),
      text_field ''HMAC_SIGNING_KEY_PREV'' False None (\<lambda>c. cf_hmac_signing_key_prev (cf_app c)),
      text_field ''WATCHDOG_SECRET'' True None (\<lambda>c. cf_watchdog_secret (cf_app c))]"

definition server_fields :: "api_config env_field list" where
  "server_fields = [text_field ''PORT'' True None cf_port]"

definition service_fields :: "api_config env_field list" where
  \<comment> \<open>\<open>DBConfig\<close>, \<open>RedisConfig\<close>, \<open>GCSConfig\<close>, \<open>CloudTasksConfig\<close> and \<open>CORSConfig\<close>\<close>
  "service_fields =
     [text_field ''DATABASE_URL'' True None cf_db_url,
      text_field ''REDIS_URL'' True None cf_redis_url,
      text_field ''GCS_BUCKET'' True None (\<lambda>c. cf_bucket (cf_gcs c)),
      text_field ''GCS_ENDPOINT'' False None (\<lambda>c. cf_endpoint (cf_gcs c)),
      text_field ''CLOUD_TASKS_PROJECT'' False None (\<lambda>c. ct_project (cf_cloud_tasks c)),
      text_field ''CLOUD_TASKS_LOCATION'' False None (\<lambda>c. ct_location (cf_cloud_tasks c)),
      text_field ''CLOUD_TASKS_QUEUE'' False None (\<lambda>c. ct_queue (cf_cloud_tasks c)),
      text_field ''CLOUD_TASKS_WORKER_URL'' False None (\<lambda>c. ct_worker_url (cf_cloud_tasks c)),
      text_field ''CLOUD_TASKS_SERVICE_ACCOUNT'' False None (\<lambda>c. ct_service_account (cf_cloud_tasks c)),
      parsed_field ''CORS_ALLOWED_ORIGINS'' False None (\<lambda>t. Some (split_on (CHR '','') [] t)) cf_allowed_origins]"

definition api_fields :: "api_config env_field list" where
  "api_fields = app_fields @ server_fields @ service_fields"

definition worker_fields :: "(string \<Rightarrow> nanos option) \<Rightarrow> worker_config env_field list" where
  \<comment> \<open>\<open>parse_duration\<close>: \<open>time.ParseDuration\<close>, which the env package applies\<close>
  "worker_fields parse_duration =
     [text_field ''DATABASE_URL'' True None wc_database_url,
      text_field ''APP_ENV'' False None wc_app_env,
      text_field ''WORKSPACE_DIR'' False None wc_workspace_dir,
      text_field ''ZIGZAG_BIN'' False (Some ''zigzag'') wc_zigzag_bin,
      text_field ''REPORTS_DIR'' False (Some ''/data/reports'') wc_reports_dir,
      parsed_field ''JOB_TIMEOUT'' False (Some ''5m'') parse_duration wc_job_timeout,
      parsed_field ''MAX_CONCURRENCY'' False (Some ''5'') (\<lambda>t. map_option sint (parse_int64 t)) wc_max_concurrency,
      text_field ''API_BASE_URL'' True None wc_api_base_url,
      text_field ''HMAC_SIGNING_KEY'' True None wc_hmac_key,
      text_field ''HMAC_SIGNING_KEY_PREV'' False None wc_hmac_key_prev,
      text_field ''WORKER_MODE'' False (Some ''poll'') wc_worker_mode,
      text_field ''PORT'' False (Some ''8080'') wc_port,
      parsed_field ''GITHUB_APP_ID'' True None parse_int64 (\<lambda>c. wc_app_id (wc_github c)),
      text_field ''GITHUB_APP_PRIVATE_KEY'' True None (\<lambda>c. wc_private_key_raw (wc_github c)),
      text_field ''GITHUB_APP_WEBHOOK_SECRET'' True None (\<lambda>c. wc_webhook_secret (wc_github c)),
      text_field ''GCS_BUCKET'' True None (\<lambda>c. cf_bucket (wc_gcs c)),
      text_field ''GCS_ENDPOINT'' False None (\<lambda>c. cf_endpoint (wc_gcs c))]"

definition env_readable :: "'c env_field list \<Rightarrow> environment \<Rightarrow> bool" where
  \<comment> \<open>every required variable is set (to the empty text, perhaps) and every text that has to be converted can be\<close>
  "env_readable fds env \<longleftrightarrow>
     (\<forall>f \<in> set fds. case env (fd_var f) of
        Some v \<Rightarrow> fd_readable f v
      | None \<Rightarrow> \<not> fd_required f \<and> (\<forall>d. fd_default f = Some d \<longrightarrow> fd_readable f d))"

definition env_contract :: "'c env_field list \<Rightarrow> (environment \<Rightarrow> string + 'c) \<Rightarrow> bool" where
  \<comment> \<open>what \<open>env.Parse\<close> documents: a required variable that is not set is an error (one that is empty is an error only
      under \<open>notEmpty\<close>, which no tag has), and so is a text that cannot be converted; otherwise a field holds the
      variable, or its default, or the zero value\<close>
  "env_contract fds parse \<longleftrightarrow>
     (\<forall>env. env_readable fds env \<longrightarrow> (\<exists>c. parse env = Inr c)) \<and>
     (\<forall>env. \<forall>f \<in> set fds.
        (fd_required f \<and> env (fd_var f) = None \<longrightarrow> (\<exists>e. parse env = Inl e)) \<and>
        (\<forall>c. parse env = Inr c \<longrightarrow>
           (\<forall>v. env (fd_var f) = Some v \<and> (v \<noteq> [] \<or> fd_default f = None) \<longrightarrow> fd_holds f v c) \<and>
           (env (fd_var f) = None \<longrightarrow> fd_holds f (case fd_default f of None \<Rightarrow> [] | Some d \<Rightarrow> d) c)))"

lemma env_contract_set:
  assumes "env_contract fds parse" and "parse env = Inr c" and "f \<in> set fds" and "fd_required f"
  shows "env (fd_var f) \<noteq> None"
  using assms unfolding env_contract_def by (metis sum.distinct(1))

lemma env_contract_field:
  assumes "env_contract fds parse" and "parse env = Inr c" and "f \<in> set fds"
  shows "env (fd_var f) = Some v \<Longrightarrow> v \<noteq> [] \<or> fd_default f = None \<Longrightarrow> fd_holds f v c"
    and "env (fd_var f) = None \<Longrightarrow> fd_holds f (case fd_default f of None \<Rightarrow> [] | Some d \<Rightarrow> d) c"
  using assms unfolding env_contract_def by blast+

lemma text_field_read:
  assumes "env_contract fds parse" and "parse env = Inr c" and "text_field v required None get \<in> set fds"
  shows "get c = getenv env v"
  using env_contract_field [OF assms] by (cases "env v") (simp_all add: text_field_def getenv_def)

lemma text_field_default:
  assumes "env_contract fds parse" and "parse env = Inr c" and "text_field v required (Some d) get \<in> set fds"
    and "env v = None"
  shows "get c = d"
  using env_contract_field(2) [OF assms(1-3)] assms(4) by (simp add: text_field_def)

lemma parsed_field_read:
  assumes "env_contract fds parse" and "parse env = Inr c" and "parsed_field v required def p get \<in> set fds"
  shows "env v = Some t \<Longrightarrow> t \<noteq> [] \<Longrightarrow> p t = Some (get c)"
    and "env v = None \<Longrightarrow> def = Some d \<Longrightarrow> d \<noteq> [] \<Longrightarrow> p d = Some (get c)"
  using env_contract_field [OF assms] by (simp_all add: parsed_field_def)

lemmas field_lists = api_fields_def app_fields_def server_fields_def service_fields_def worker_fields_def

subsection \<open>What a program that has started has read\<close>

lemma parse_int64_five: "parse_int64 ''5'' = Some 5"
  by (simp add: parse_int64_def strip_sign_def parse_digits_def is_digit_def digits_value_def digit_value_def)

lemma build_api_private_key:
  "build_api (Inr c) f = Inr p \<Longrightarrow> gh_private_key (ap_github p) = cf_github_app_private_key (cf_app c)"
  by (auto simp: build_api_def new_api_client_def Let_def split: option.splits if_splits sum.splits)

lemma load_api_config_plain:
  assumes "getenv env ''APP_ENV'' \<noteq> ''dev''" and "load_api_config load_file parse env = Inr c"
  obtains c0 where "parse env = Inr c0"
    and "c = c0\<lparr>cf_app := (cf_app c0)\<lparr>cf_github_app_private_key := unescape_newlines (cf_github_app_private_key (cf_app c0))\<rparr>\<rparr>"
  using assms by (auto simp: load_api_config_def split: sum.splits)

lemma api_environment:
  assumes "env_contract api_fields parse" and "getenv env ''APP_ENV'' \<noteq> ''dev''"
    and "load_api_config load_file parse env = Inr c"
  shows "cf_hmac_signing_key (cf_app c) = getenv env ''HMAC_SIGNING_KEY''"
    and "cf_hmac_signing_key_prev (cf_app c) = getenv env ''HMAC_SIGNING_KEY_PREV''"
    and "cf_watchdog_secret (cf_app c) = getenv env ''WATCHDOG_SECRET''"
    and "cf_github_app_webhook_secret (cf_app c) = getenv env ''GITHUB_APP_WEBHOOK_SECRET''"
    and "cf_github_app_private_key (cf_app c) = unescape_newlines (getenv env ''GITHUB_APP_PRIVATE_KEY'')"
    and "f \<in> set api_fields \<Longrightarrow> fd_required f \<Longrightarrow> env (fd_var f) \<noteq> None"
proof -
  obtain c0 where c0: "parse env = Inr c0"
    and c: "c = c0\<lparr>cf_app := (cf_app c0)\<lparr>cf_github_app_private_key := unescape_newlines (cf_github_app_private_key (cf_app c0))\<rparr>\<rparr>"
    by (rule load_api_config_plain [OF assms(2,3)])
  note read = text_field_read [OF assms(1) c0]
  show "cf_hmac_signing_key (cf_app c) = getenv env ''HMAC_SIGNING_KEY''"
    unfolding c by (simp, rule read [where required = True]) (simp add: field_lists)
  show "cf_hmac_signing_key_prev (cf_app c) = getenv env ''HMAC_SIGNING_KEY_PREV''"
    unfolding c by (simp, rule read [where required = False]) (simp add: field_lists)
  show "cf_watchdog_secret (cf_app c) = getenv env ''WATCHDOG_SECRET''"
    unfolding c by (simp, rule read [where required = True]) (simp add: field_lists)
  show "cf_github_app_webhook_secret (cf_app c) = getenv env ''GITHUB_APP_WEBHOOK_SECRET''"
    unfolding c by (simp, rule read [where required = True]) (simp add: field_lists)
  have "cf_github_app_private_key (cf_app c0) = getenv env ''GITHUB_APP_PRIVATE_KEY''"
    by (rule read [where required = True]) (simp add: field_lists)
  then show "cf_github_app_private_key (cf_app c) = unescape_newlines (getenv env ''GITHUB_APP_PRIVATE_KEY'')"
    unfolding c by simp
  show "f \<in> set api_fields \<Longrightarrow> fd_required f \<Longrightarrow> env (fd_var f) \<noteq> None"
    by (rule env_contract_set [OF assms(1) c0])
qed

lemma load_worker_config_plain:
  assumes "load_worker_config parse temp_dir env = Inr cfg"
  obtains c0 where "parse env = Inr c0" and "wc_hmac_key cfg = wc_hmac_key c0" and "wc_worker_mode cfg = wc_worker_mode c0"
    and "wc_max_concurrency cfg = wc_max_concurrency c0" and "wc_reports_dir cfg = wc_reports_dir c0"
    and "wc_zigzag_bin cfg = wc_zigzag_bin c0" and "1 \<le> wc_max_concurrency c0"
  using assms by (auto simp: load_worker_config_def Let_def split: sum.splits if_splits)

lemma worker_environment:
  assumes "env_contract (worker_fields parse_duration) parse" and "load_worker_config parse temp_dir env = Inr cfg"
  shows "wc_hmac_key cfg = getenv env ''HMAC_SIGNING_KEY''"
    and "env ''WORKER_MODE'' = None \<Longrightarrow> wc_worker_mode cfg = ''poll''"
    and "env ''REPORTS_DIR'' = None \<Longrightarrow> wc_reports_dir cfg = ''/data/reports''"
    and "env ''ZIGZAG_BIN'' = None \<Longrightarrow> wc_zigzag_bin cfg = ''zigzag''"
    and "env ''MAX_CONCURRENCY'' = None \<Longrightarrow> wc_max_concurrency cfg = 5"
proof -
  obtain c0 where c0: "parse env = Inr c0" and eq: "wc_hmac_key cfg = wc_hmac_key c0" "wc_worker_mode cfg = wc_worker_mode c0"
    "wc_max_concurrency cfg = wc_max_concurrency c0" "wc_reports_dir cfg = wc_reports_dir c0"
    "wc_zigzag_bin cfg = wc_zigzag_bin c0"
    by (rule load_worker_config_plain [OF assms(2)])
  note read = text_field_read [OF assms(1) c0] and default = text_field_default [OF assms(1) c0]
  show "wc_hmac_key cfg = getenv env ''HMAC_SIGNING_KEY''"
    unfolding eq by (rule read [where required = True]) (simp add: field_lists)
  show "wc_worker_mode cfg = ''poll''" if "env ''WORKER_MODE'' = None"
    unfolding eq by (rule default [where required = False, OF _ that]) (simp add: field_lists)
  show "wc_reports_dir cfg = ''/data/reports''" if "env ''REPORTS_DIR'' = None"
    unfolding eq by (rule default [where required = False, OF _ that]) (simp add: field_lists)
  show "wc_zigzag_bin cfg = ''zigzag''" if "env ''ZIGZAG_BIN'' = None"
    unfolding eq by (rule default [where required = False, OF _ that]) (simp add: field_lists)
  have five: "parse_int64 ''5'' = Some 5" 
    by (simp add: parse_int64_def strip_sign_def parse_digits_def is_digit_def digits_value_def digit_value_def)
  have "map_option sint (parse_int64 ''5'') = Some (wc_max_concurrency c0)" if "env ''MAX_CONCURRENCY'' = None"
    by (rule parsed_field_read(2) [where required = False, OF assms(1) c0 _ that refl]) (simp_all add: field_lists)
  then show "wc_max_concurrency cfg = 5" if "env ''MAX_CONCURRENCY'' = None"
    using that by (simp add: eq parse_int64_five)
qed

subsection \<open>Concrete environments\<close>

definition ex_parse_api :: "environment \<Rightarrow> string + api_config" where
  "ex_parse_api env =
     (if list_ex (\<lambda>f. fd_required f \<and> env (fd_var f) = None) api_fields then Inl ''required variable is not set''
      else case (if getenv env ''GITHUB_APP_ID'' = [] then Some 0 else parse_int64 (getenv env ''GITHUB_APP_ID'')) of
        None \<Rightarrow> Inl ''parse error''
      | Some n \<Rightarrow>
          Inr \<lparr>cf_app = \<lparr>cf_github_app_id = n, cf_github_app_slug = getenv env ''GITHUB_APP_SLUG'',
                 cf_github_app_private_key = getenv env ''GITHUB_APP_PRIVATE_KEY'',
                 cf_github_app_webhook_secret = getenv env ''GITHUB_APP_WEBHOOK_SECRET'',
                 cf_clerk_secret_key = getenv env ''CLERK_SECRET_KEY'', cf_hmac_signing_key = getenv env ''HMAC_SIGNING_KEY'',
                 cf_hmac_signing_key_prev = getenv env ''HMAC_SIGNING_KEY_PREV'',
                 cf_watchdog_secret = getenv env ''WATCHDOG_SECRET''\<rparr>,
               cf_port = getenv env ''PORT'', cf_db_url = getenv env ''DATABASE_URL'', cf_redis_url = getenv env ''REDIS_URL'',
               cf_gcs = \<lparr>cf_bucket = getenv env ''GCS_BUCKET'', cf_endpoint = getenv env ''GCS_ENDPOINT''\<rparr>,
               cf_cloud_tasks = \<lparr>ct_project = getenv env ''CLOUD_TASKS_PROJECT'', ct_location = getenv env ''CLOUD_TASKS_LOCATION'',
                 ct_queue = getenv env ''CLOUD_TASKS_QUEUE'', ct_worker_url = getenv env ''CLOUD_TASKS_WORKER_URL'',
                 ct_service_account = getenv env ''CLOUD_TASKS_SERVICE_ACCOUNT''\<rparr>,
               cf_allowed_origins = (if getenv env ''CORS_ALLOWED_ORIGINS'' = [] then []
                 else split_on (CHR '','') [] (getenv env ''CORS_ALLOWED_ORIGINS''))\<rparr>)"

definition getenv_or :: "environment \<Rightarrow> string \<Rightarrow> string \<Rightarrow> string" where
  "getenv_or env v d = (if getenv env v = [] then d else getenv env v)"

definition ex_parse_worker :: "environment \<Rightarrow> string + worker_config" where
  "ex_parse_worker env =
     (if list_ex (\<lambda>f. fd_required f \<and> env (fd_var f) = None) (worker_fields (\<lambda>_. Some 300000000000))
      then Inl ''required variable is not set''
      else case (if getenv env ''GITHUB_APP_ID'' = [] then Some 0 else parse_int64 (getenv env ''GITHUB_APP_ID'')) of
        None \<Rightarrow> Inl ''parse error''
      | Some n \<Rightarrow>
      case parse_int64 (getenv_or env ''MAX_CONCURRENCY'' ''5'') of
        None \<Rightarrow> Inl ''parse error''
      | Some m \<Rightarrow>
          Inr \<lparr>wc_database_url = getenv env ''DATABASE_URL'', wc_app_env = getenv env ''APP_ENV'',
               wc_workspace_dir = getenv env ''WORKSPACE_DIR'', wc_zigzag_bin = getenv_or env ''ZIGZAG_BIN'' ''zigzag'',
               wc_reports_dir = getenv_or env ''REPORTS_DIR'' ''/data/reports'', wc_job_timeout = 300000000000,
               wc_max_concurrency = sint m, wc_api_base_url = getenv env ''API_BASE_URL'',
               wc_hmac_key = getenv env ''HMAC_SIGNING_KEY'', wc_hmac_key_prev = getenv env ''HMAC_SIGNING_KEY_PREV'',
               wc_worker_mode = getenv_or env ''WORKER_MODE'' ''poll'', wc_port = getenv_or env ''PORT'' ''8080'',
               wc_github = \<lparr>wc_app_id = n, wc_private_key = [], wc_private_key_raw = getenv env ''GITHUB_APP_PRIVATE_KEY'',
                 wc_webhook_secret = getenv env ''GITHUB_APP_WEBHOOK_SECRET''\<rparr>,
               wc_gcs = \<lparr>cf_bucket = getenv env ''GCS_BUCKET'', cf_endpoint = getenv env ''GCS_ENDPOINT''\<rparr>\<rparr>)"

lemma env_contractI:
  assumes "\<And>env f. f \<in> set fds \<Longrightarrow> fd_required f \<Longrightarrow> env (fd_var f) = None \<Longrightarrow> \<exists>e. parse env = Inl e"
    and "\<And>env c. parse env = Inr c \<Longrightarrow>
           list_all (\<lambda>f. fd_holds f (case fd_default f of None \<Rightarrow> getenv env (fd_var f) | Some d \<Rightarrow> getenv_or env (fd_var f) d) c) fds"
    and "\<And>env. env_readable fds env \<Longrightarrow> \<exists>c. parse env = Inr c"
  shows "env_contract fds parse"
  unfolding env_contract_def
proof (intro allI ballI conjI impI)
  fix env assume "env_readable fds env"
  then show "\<exists>c. parse env = Inr c" by (rule assms(3))
next
  fix env :: environment and f :: "'a env_field"
  assume f: "f \<in> set fds"
  show "\<exists>e. parse env = Inl e" if "fd_required f \<and> env (fd_var f) = None" using assms(1) f that by blast
  fix c assume "parse env = Inr c"
  then have h: "fd_holds f (case fd_default f of None \<Rightarrow> getenv env (fd_var f) | Some d \<Rightarrow> getenv_or env (fd_var f) d) c"
    using assms(2) f by (simp add: list_all_iff)
  show "fd_holds f v c" if "env (fd_var f) = Some v \<and> (v \<noteq> [] \<or> fd_default f = None)" for v
    using h that by (cases "fd_default f") (simp_all add: getenv_def getenv_or_def)
  show "fd_holds f (case fd_default f of None \<Rightarrow> [] | Some d \<Rightarrow> d) c" if "env (fd_var f) = None"
    using h that by (cases "fd_default f") (simp_all add: getenv_def getenv_or_def)
qed

lemma env_readable_required:
  "env_readable fds env \<Longrightarrow> list_ex (\<lambda>f. fd_required f \<and> env (fd_var f) = None) fds = False"
  by (fastforce simp: env_readable_def list_ex_iff split: option.splits)

lemma env_readable_parsed:
  assumes "env_readable fds env" and "parsed_field v required def p get \<in> set fds"
  shows "getenv env v \<noteq> [] \<Longrightarrow> p (getenv env v) \<noteq> None"
  using assms by (cases "env v") (fastforce simp: env_readable_def parsed_field_def getenv_def)+

lemma ex_parse_api_contract: "env_contract api_fields ex_parse_api"
proof (rule env_contractI)
  show "\<exists>e. ex_parse_api env = Inl e" if "f \<in> set api_fields" "fd_required f" "env (fd_var f) = None" for env f
    using that by (auto simp: ex_parse_api_def list_ex_iff)
next
  fix env c assume c: "ex_parse_api env = Inr c"
  show "list_all (\<lambda>f. fd_holds f (case fd_default f of None \<Rightarrow> getenv env (fd_var f) | Some d \<Rightarrow> getenv_or env (fd_var f) d) c) api_fields"
    using c by (auto simp: ex_parse_api_def field_lists text_field_def parsed_field_def split: if_splits option.splits)
next
  fix env assume r: "env_readable api_fields env"
  have "(if getenv env ''GITHUB_APP_ID'' = [] then Some 0 else parse_int64 (getenv env ''GITHUB_APP_ID'')) \<noteq> None"
    using env_readable_parsed [OF r, of "''GITHUB_APP_ID''" True None parse_int64 "\<lambda>c. cf_github_app_id (cf_app c)"] by (simp add: field_lists)
  then show "\<exists>c. ex_parse_api env = Inr c"
    by (auto simp: ex_parse_api_def env_readable_required [OF r])
qed

lemma ex_parse_worker_contract: "env_contract (worker_fields (\<lambda>_. Some 300000000000)) ex_parse_worker"
proof (rule env_contractI)
  show "\<exists>e. ex_parse_worker env = Inl e"
    if "f \<in> set (worker_fields (\<lambda>_. Some 300000000000))" "fd_required f" "env (fd_var f) = None" for env f
    using that by (auto simp: ex_parse_worker_def list_ex_iff)
next
  fix env c assume c: "ex_parse_worker env = Inr c"
  show "list_all (\<lambda>f. fd_holds f (case fd_default f of None \<Rightarrow> getenv env (fd_var f) | Some d \<Rightarrow> getenv_or env (fd_var f) d) c)
      (worker_fields (\<lambda>_. Some 300000000000))"
    using c by (auto simp: ex_parse_worker_def field_lists text_field_def parsed_field_def split: if_splits option.splits)
next
  fix env assume r: "env_readable (worker_fields (\<lambda>_. Some 300000000000)) env"
  have "(if getenv env ''GITHUB_APP_ID'' = [] then Some 0 else parse_int64 (getenv env ''GITHUB_APP_ID'')) \<noteq> None"
    using env_readable_parsed [OF r, of "''GITHUB_APP_ID''" True None parse_int64 "\<lambda>c. wc_app_id (wc_github c)"] by (simp add: field_lists)
  moreover have "parse_int64 (getenv_or env ''MAX_CONCURRENCY'' ''5'') \<noteq> None"
    using env_readable_parsed [OF r, of "''MAX_CONCURRENCY''" False "Some ''5''" "\<lambda>t. map_option sint (parse_int64 t)"
      wc_max_concurrency]
    by (simp add: field_lists getenv_or_def parse_int64_five)
  ultimately show "\<exists>c. ex_parse_worker env = Inr c"
    by (auto simp: ex_parse_worker_def env_readable_required [OF r])
qed

definition ex_vars :: "string \<Rightarrow> environment" where
  "ex_vars key = map_of
     [(''GITHUB_APP_ID'', []), (''GITHUB_APP_SLUG'', ''zag''), (''GITHUB_APP_PRIVATE_KEY'', ''pem''),
      (''GITHUB_APP_WEBHOOK_SECRET'', ''s''), (''CLERK_SECRET_KEY'', ''c''), (''HMAC_SIGNING_KEY'', key),
      (''WATCHDOG_SECRET'', ''w''), (''PORT'', ''80''), (''DATABASE_URL'', ''db''), (''REDIS_URL'', ''redis''),
      (''GCS_BUCKET'', ''b''), (''API_BASE_URL'', ''http://api''), (''WORKER_MODE'', ''http'')]"

abbreviation ex_load_file :: "string \<Rightarrow> environment \<Rightarrow> string option \<times> environment" where
  "ex_load_file name env \<equiv> (None, env)"

abbreviation no_api_faults :: api_faults where
  "no_api_faults \<equiv> \<lparr>af_logger = None, af_pool = None, af_ping = None, af_redis_url = None, af_redis_ping = None,
     af_tasks = None\<rparr>"

abbreviation ex_no_worker_faults :: worker_faults where
  "ex_no_worker_faults \<equiv> \<lparr>wk_logger = None, wk_db = None, wk_gcs = None\<rparr>"

lemma ex_getenv [simp]:
  "getenv (ex_vars key) ''APP_ENV'' = []" "getenv (ex_vars key) ''GITHUB_APP_ID'' = []"
  "getenv (ex_vars key) ''GITHUB_APP_SLUG'' = ''zag''" "getenv (ex_vars key) ''GITHUB_APP_PRIVATE_KEY'' = ''pem''"
  "getenv (ex_vars key) ''GITHUB_APP_WEBHOOK_SECRET'' = ''s''" "getenv (ex_vars key) ''CLERK_SECRET_KEY'' = ''c''"
  "getenv (ex_vars key) ''HMAC_SIGNING_KEY'' = key" "getenv (ex_vars key) ''HMAC_SIGNING_KEY_PREV'' = []"
  "getenv (ex_vars key) ''WATCHDOG_SECRET'' = ''w''" "getenv (ex_vars key) ''PORT'' = ''80''"
  "getenv (ex_vars key) ''DATABASE_URL'' = ''db''" "getenv (ex_vars key) ''REDIS_URL'' = ''redis''"
  "getenv (ex_vars key) ''GCS_BUCKET'' = ''b''" "getenv (ex_vars key) ''GCS_ENDPOINT'' = []"
  "getenv (ex_vars key) ''CLOUD_TASKS_PROJECT'' = []" "getenv (ex_vars key) ''CLOUD_TASKS_LOCATION'' = []"
  "getenv (ex_vars key) ''CLOUD_TASKS_QUEUE'' = []" "getenv (ex_vars key) ''CLOUD_TASKS_WORKER_URL'' = []"
  "getenv (ex_vars key) ''CLOUD_TASKS_SERVICE_ACCOUNT'' = []" "getenv (ex_vars key) ''CORS_ALLOWED_ORIGINS'' = []"
  "getenv (ex_vars key) ''WORKSPACE_DIR'' = []" "getenv (ex_vars key) ''ZIGZAG_BIN'' = []"
  "getenv (ex_vars key) ''REPORTS_DIR'' = []" "getenv (ex_vars key) ''MAX_CONCURRENCY'' = []"
  "getenv (ex_vars key) ''API_BASE_URL'' = ''http://api''" "getenv (ex_vars key) ''WORKER_MODE'' = ''http''"
  by (simp_all add: getenv_def ex_vars_def)

lemma ex_empty_key: "ex_vars key ''HMAC_SIGNING_KEY'' = Some key"
  by (simp add: ex_vars_def)

lemma ex_required:
  "list_ex (\<lambda>f. fd_required f \<and> ex_vars key (fd_var f) = None) api_fields = False"
  "list_ex (\<lambda>f. fd_required f \<and> ex_vars key (fd_var f) = None) (worker_fields pd) = False"
  by (simp_all add: field_lists text_field_def parsed_field_def) (simp_all add: ex_vars_def)

definition ex_loaded_api :: "string \<Rightarrow> api_config" where
  "ex_loaded_api key =
     \<lparr>cf_app = \<lparr>cf_github_app_id = 0, cf_github_app_slug = ''zag'', cf_github_app_private_key = ''pem'',
        cf_github_app_webhook_secret = ''s'', cf_clerk_secret_key = ''c'', cf_hmac_signing_key = key,
        cf_hmac_signing_key_prev = [], cf_watchdog_secret = ''w''\<rparr>,
      cf_port = ''80'', cf_db_url = ''db'', cf_redis_url = ''redis'', cf_gcs = \<lparr>cf_bucket = ''b'', cf_endpoint = []\<rparr>,
      cf_cloud_tasks = \<lparr>ct_project = [], ct_location = [], ct_queue = [], ct_worker_url = [], ct_service_account = []\<rparr>,
      cf_allowed_origins = []\<rparr>"

definition ex_loaded_worker :: "string \<Rightarrow> worker_config" where
  "ex_loaded_worker key =
     \<lparr>wc_database_url = ''db'', wc_app_env = [], wc_workspace_dir = path_join [''/tmp'', ''zagforge-workspace''],
      wc_zigzag_bin = ''zigzag'', wc_reports_dir = ''/data/reports'', wc_job_timeout = 300000000000,
      wc_max_concurrency = 5, wc_api_base_url = ''http://api'', wc_hmac_key = key, wc_hmac_key_prev = [],
      wc_worker_mode = ''http'', wc_port = ''80'',
      wc_github = \<lparr>wc_app_id = 0, wc_private_key = ''pem'', wc_private_key_raw = ''pem'', wc_webhook_secret = ''s''\<rparr>,
      wc_gcs = \<lparr>cf_bucket = ''b'', cf_endpoint = []\<rparr>\<rparr>"

lemma ex_api_loads: "load_api_config ex_load_file ex_parse_api (ex_vars key) = Inr (ex_loaded_api key)"
  by (simp add: load_api_config_def ex_parse_api_def ex_required ex_loaded_api_def)

lemma ex_worker_loads: "load_worker_config ex_parse_worker ''/tmp'' (ex_vars key) = Inr (ex_loaded_worker key)"
  by (simp add: load_worker_config_def ex_parse_worker_def ex_required ex_loaded_worker_def getenv_or_def Let_def
      parse_int64_five)

lemma ex_api_builds: "\<exists>p. build_api (Inr (ex_loaded_api key)) no_api_faults = Inr p"
  by (simp add: build_api_def connect_db_def new_api_client_def build_enqueuer_def tasks_enabled_def ex_loaded_api_def Let_def)

lemma ex_worker_builds:
  "\<exists>p. build_worker id (\<lambda>_. []) (Inr (ex_loaded_worker key)) ex_no_worker_faults = Inr p"
  by (simp add: build_worker_def new_api_client_def new_storage_client_def choose_mode_def ex_loaded_worker_def Let_def)

abbreviation ex_vars_app_id :: "string \<Rightarrow> environment" where
  "ex_vars_app_id key \<equiv> (ex_vars key)(''GITHUB_APP_ID'' \<mapsto> ''5'')"

lemma ex_vars_readable: "env_readable api_fields (ex_vars_app_id key)"
  by (simp add: env_readable_def field_lists text_field_def parsed_field_def parse_int64_five) (simp add: ex_vars_def)

lemma unescape_newlines_Nil: "unescape_newlines s = [] \<longleftrightarrow> s = []"
  by (cases s rule: unescape_newlines.cases) simp_all

lemma build_api_starts:
  "(\<exists>p. build_api (Inr c) no_api_faults = Inr p) \<longleftrightarrow>
     cf_github_app_webhook_secret (cf_app c) \<noteq> [] \<and> cf_github_app_private_key (cf_app c) \<noteq> []"
  by (simp add: build_api_def connect_db_def new_api_client_def build_enqueuer_def new_cloud_tasks_enqueuer_def Let_def)

subsection \<open>Properties\<close>

text \<open>
  C13: The API and a worker started from their environments agree on job tokens: if the worker's
  \<^verbatim>\<open>HMAC_SIGNING_KEY\<close> is the API's, or the API's \<^verbatim>\<open>HMAC_SIGNING_KEY_PREV\<close> during a rotation, every token the
  worker signs is accepted by the API for thirty minutes.
\<close>

theorem environment_tokens_accepted:
  assumes "env_contract api_fields parse_api" and "env_contract (worker_fields parse_duration) parse_worker"
    and "getenv api_env ''APP_ENV'' \<noteq> ''dev''"
    and "load_api_config load_file parse_api api_env = Inr c" and "build_api (Inr c) faults = Inr p"
    and "load_worker_config parse_worker temp_dir worker_env = Inr cfg"
    and "build_worker quote show_storage (Inr cfg) worker_faults = Inr q"
    and "getenv worker_env ''HMAC_SIGNING_KEY'' = getenv api_env ''HMAC_SIGNING_KEY'' \<or>
         getenv worker_env ''HMAC_SIGNING_KEY'' = getenv api_env ''HMAC_SIGNING_KEY_PREV'' \<and>
         getenv api_env ''HMAC_SIGNING_KEY_PREV'' \<noteq> []"
    and "valid_time now" and "valid_time (clock + 30 * 60 * 1000000000)" and "now \<le> clock + 30 * 60 * 1000000000"
  shows "signer_validate hmac (ap_signer p) now job_id (signer_sign hmac (ac_signer (wp_client q)) clock job_id) = None"
proof -
  note api = api_environment [OF assms(1,3,4)]
  have "wc_hmac_key cfg \<in> set (signer_keys (ap_signer p))"
    using assms(8) by (auto simp: build_api_ok(4) [OF assms(5)] build_signer_keys api(1,2) worker_environment(1) [OF assms(2,6)])
  moreover have "validate_token hmac now (wc_hmac_key cfg) job_id
      (signer_sign hmac (ac_signer (wp_client q)) clock job_id) = None"
    using unix_after_ttl(1) [OF assms(9-11)]
    by (simp add: signer_sign_def build_worker_ok(1) [OF assms(7)] build_signer_keys validate_token_signed)
  ultimately show ?thesis unfolding signer_validate_none by blast
qed

theorem environment_tokens_accepted_witness:
  "\<exists>p q. build_api (Inr (ex_loaded_api ''k'')) no_api_faults = Inr p \<and>
     build_worker id (\<lambda>_. []) (Inr (ex_loaded_worker ''k'')) ex_no_worker_faults = Inr q \<and>
     signer_validate ex_hmac (ap_signer p) 1 ''u'' (signer_sign ex_hmac (ac_signer (wp_client q)) 0 ''u'') = None"
proof -
  obtain p where p: "build_api (Inr (ex_loaded_api ''k'')) no_api_faults = Inr p"
    using ex_api_builds by blast
  obtain q where q: "build_worker id (\<lambda>_. []) (Inr (ex_loaded_worker ''k'')) ex_no_worker_faults = Inr q"
    using ex_worker_builds by blast
  have "signer_validate ex_hmac (ap_signer p) 1 ''u'' (signer_sign ex_hmac (ac_signer (wp_client q)) 0 ''u'') = None"
    by (rule environment_tokens_accepted [OF ex_parse_api_contract ex_parse_worker_contract _ ex_api_loads p
        ex_worker_loads q]) (simp_all add: valid_time_def)
  with p q show ?thesis by (intro exI [of _ p] exI [of _ q] conjI)
qed

text \<open>
  C36: An empty signing key is accepted: \<open>required\<close> asks only that \<^verbatim>\<open>HMAC_SIGNING_KEY\<close> is set.  From an
  environment in which every required variable is set and this one is empty, the configuration loads, and the API
  starts (when nothing it connects to fails) exactly if the webhook secret and the private key are not empty, the
  two secrets that \<open>NewAPIClient\<close> checks; the API then accepts every unexpired token signed with the empty key, which
  anyone can make.
\<close>

theorem empty_signing_key_accepted:
  assumes "env_contract api_fields parse" and "env_readable api_fields env" and "getenv env ''APP_ENV'' \<noteq> ''dev''"
    and "env ''HMAC_SIGNING_KEY'' = Some []" and "\<not> sint expiry < sint (unix now)"
  shows "\<exists>c. load_api_config load_file parse env = Inr c \<and>
     ((\<exists>p. build_api (Inr c) no_api_faults = Inr p) \<longleftrightarrow>
        getenv env ''GITHUB_APP_WEBHOOK_SECRET'' \<noteq> [] \<and> getenv env ''GITHUB_APP_PRIVATE_KEY'' \<noteq> []) \<and>
     (\<forall>p. build_api (Inr c) no_api_faults = Inr p \<longrightarrow>
        signer_validate hmac (ap_signer p) now job_id (sign_token hmac [] job_id expiry) = None)"
proof -
  obtain c where c: "load_api_config load_file parse env = Inr c"
    using assms(1-3) by (auto simp: env_contract_def load_api_config_def)
  note api = api_environment [OF assms(1,3) c]
  have "signer_validate hmac (ap_signer p) now job_id (sign_token hmac [] job_id expiry) = None"
    if "build_api (Inr c) no_api_faults = Inr p" for p
  proof -
    have "[] \<in> set (signer_keys (ap_signer p))"
      using assms(4) by (simp add: build_api_ok(4) [OF that] build_signer_keys api(1) getenv_def)
    moreover have "validate_token hmac now [] job_id (sign_token hmac [] job_id expiry) = None"
      using assms(5) by (simp add: validate_token_signed)
    ultimately show ?thesis unfolding signer_validate_none by auto
  qed
  then show ?thesis using c api(4,5) by (simp add: build_api_starts unescape_newlines_Nil)
qed

theorem empty_signing_key_accepted_witness:
  "\<exists>c p. load_api_config ex_load_file ex_parse_api (ex_vars_app_id []) = Inr c \<and>
     build_api (Inr c) no_api_faults = Inr p \<and>
     signer_validate ex_hmac (ap_signer p) 0 ''u'' (sign_token ex_hmac [] ''u'' 100) = None"
proof -
  have "ex_vars_app_id [] ''HMAC_SIGNING_KEY'' = Some []" "getenv (ex_vars_app_id []) ''APP_ENV'' \<noteq> ''dev''"
    "getenv (ex_vars_app_id []) ''GITHUB_APP_WEBHOOK_SECRET'' \<noteq> []"
    "getenv (ex_vars_app_id []) ''GITHUB_APP_PRIVATE_KEY'' \<noteq> []"
    by (simp_all add: getenv_def ex_vars_def)
  then show ?thesis
    using empty_signing_key_accepted [OF ex_parse_api_contract ex_vars_readable, of "[]" 100 0 ex_load_file ex_hmac "''u''"]
    by (auto simp: unix_def)
qed

end
