(* ===== verification/RowProgress.thy ===== *)
theory RowProgress
  imports RowLocks
begin

text \<open>
  What holds of the jobs in every run of the statements, the late failure of a claim included
  (\<open>late_write\<close> of \<open>RowLocks\<close>, the one step that is no step of whole handlers).

  \<open>job_over\<close> is the order in which a row changes: that of \<open>job_le\<close>, except that a finished row may also have become
  the row \<open>claimOne\<close> writes when it fails late (\<open>late_failed\<close>).  \<open>row_inv\<close> is the invariant of all runs, \<open>times_match\<close>
  what the time columns of a row say about its status.
\<close>

subsection \<open>How a row changes\<close>

definition late_failed :: "job \<Rightarrow> job \<Rightarrow> bool" where
  "late_failed j j' \<longleftrightarrow>
     (\<exists>now. j' = touch now (j\<lparr>jstatus := Failed, jerror := Some ''repo not found for job'', jfinished := Some now\<rparr>))"

definition job_over :: "job \<Rightarrow> job \<Rightarrow> bool" where
  "job_over j j' \<longleftrightarrow> jid j' = jid j \<and> jrepo j' = jrepo j \<and> jbranch j' = jbranch j \<and> jdelivery j' = jdelivery j \<and>
     (jstatus j \<noteq> Queued \<longrightarrow> jstatus j' \<noteq> Queued \<and> jcommit j' = jcommit j) \<and>
     (is_terminal (jstatus j) \<longrightarrow> j' = j \<or> late_failed j j')"

lemma late_failed_status: "late_failed j j' \<Longrightarrow> is_terminal (jstatus j')"
  by (auto simp: late_failed_def touch_def)

lemma late_failed_trans: "late_failed a b \<Longrightarrow> late_failed b c \<Longrightarrow> late_failed a c"
  by (auto simp: late_failed_def touch_def)

lemma job_over_trans: "job_over a b \<Longrightarrow> job_over b c \<Longrightarrow> job_over a c"
  unfolding job_over_def by (metis late_failed_status late_failed_trans)

lemma job_le_over:
  assumes "job_le j j'"
  shows "job_over j j'"
proof -
  have "jstatus j' \<noteq> Queued" if "jstatus j \<noteq> Queued"
    using assms that by (auto simp: job_le_def)
  then show ?thesis using assms by (simp add: job_over_def job_le_def)
qed

definition rows_over :: "db \<Rightarrow> db \<Rightarrow> bool" where
  "rows_over d d' \<longleftrightarrow> (\<forall>j \<in> set (jobs d). \<exists>j' \<in> set (jobs d'). job_over j j')"

lemma rows_over_refl: "rows_over d d"
  unfolding rows_over_def using job_le_over [OF job_le_refl] by blast

lemma rows_over_trans: "rows_over a b \<Longrightarrow> rows_over b c \<Longrightarrow> rows_over a c"
  unfolding rows_over_def using job_over_trans by blast

lemma evolves_over: "evolves (jobs d) (jobs d') \<Longrightarrow> rows_over d d'"
  unfolding rows_over_def using evolves_mem job_le_over by blast

lemma rows_over_same: "rows_over d d' \<Longrightarrow> same_rows d d'"
  unfolding rows_over_def same_rows_def job_over_def by blast

subsection \<open>The late write\<close>

lemma late_write_effect:
  assumes "conc_inv key (r_conc s)" and "late_write s s'"
  shows "rows_over (r_db s) (r_db s')" and "conc_inv key (r_conc s')"
proof -
  obtain now i where fin: "finished_row (r_db s) i"
    and s': "r_conc s' = set_db (update_job_status now i Failed (Some ''repo not found for job'') (r_db s)) (r_conc s)"
      (is "_ = set_db ?d _")
    using assms(2) by (auto simp: late_write_def)
  have base: "wf_db (r_db s)" "one_queued (r_db s)" using conc_inv_base [OF assms(1)] by (simp_all add: base_inv_def)
  obtain j where j: "j \<in> set (jobs (r_db s))" "jid j = i" "is_terminal (jstatus j)"
    using fin by (auto simp: finished_row_def)
  let ?f = "\<lambda>x. touch now (x\<lparr>jstatus := Failed, jerror := Some ''repo not found for job'', jfinished := Some now\<rparr>)"
  have jobs': "jobs ?d = map (\<lambda>x. if jid x = i then ?f x else x) (jobs (r_db s))"
    by (simp add: update_job_status_def update_jobs_def update_where_def)
  have over: "job_over x (if jid x = i then ?f x else x)" if "x \<in> set (jobs (r_db s))" for x
  proof -
    have "x = j" if "jid x = i" using wf_job_unique [OF base(1) \<open>x \<in> _\<close> j(1)] j(2) that by simp
    then show ?thesis
      using j job_le_over [OF job_le_refl, of x] by (auto simp: job_over_def late_failed_def touch_def)
  qed
  then have "rows_over (r_db s) ?d" unfolding rows_over_def jobs' set_map by blast
  then show rows: "rows_over (r_db s) (r_db s')" by (simp add: s')
  have new: "no_new_queued r b (r_db s) ?d" for r b
    unfolding no_new_queued_def jobs' by (auto simp: queued_on_def touch_def)
  have "length (filter (queued_on r b) (map (\<lambda>x. if jid x = i then ?f x else x) js)) \<le> length (filter (queued_on r b) js)"
    for r b js by (induction js) (auto simp: queued_on_def touch_def)
  then have "one_queued ?d" using base(2) unfolding one_queued_def jobs' by (meson le_trans)
  then have "base_inv ?d" using base(1) by (simp add: base_inv_def wf_update_job_status)
  moreover have "push_ok ?d p" if "c_pushes (r_conc s) k = Some p" for k p
  proof -
    obtain io ev dl pc where p: "p = ((io, ev, dl), pc)" by (cases p) auto
    show ?thesis
      unfolding p
      by (rule push_ok_stable [OF conc_inv_push [OF assms(1) that, unfolded p] _ rows_over_same [OF rows [unfolded s', simplified]] new])
         simp
  qed
  ultimately show "conc_inv key (r_conc s')" using assms(1) by (simp add: conc_inv_def s' del: split_paired_All)
qed

subsection \<open>The invariant of every run\<close>

lemma evolves_conc_step:
  assumes "conc_step key hmac us sg enq c c'" and "conc_inv key c"
  shows "evolves (jobs (w_db (c_world c))) (jobs (w_db (c_world c')))"
  using assms(1)
proof (cases rule: conc_step.cases)
  case (other d')
  then show ?thesis using evolves_db_step [OF other(2)] conc_inv_base [OF assms(2)] by (simp add: base_inv_def)
next
  case pushing
  then show ?thesis
  proof (cases rule: push_step.cases)
    case (act i call repo found res w')
    obtain io ev dl where call: "call = (io, ev, dl)" by (cases call)
    show ?thesis
      using push_write_step [OF conc_inv_base [OF assms(2)] conc_inv_push [OF assms(2) act(2), unfolded call]
        act(4) [unfolded call]] by (simp add: act(1))
  qed (simp_all add: evolves_refl)
qed

lemma row_step_effect:
  assumes "row_step key hmac us sg enq s s'" and "locks_ok s" and "conc_inv key (r_conc s)"
  shows "conc_inv key (r_conc s') \<and> rows_over (r_db s) (r_db s') \<and>
     (r_overwritten s \<longrightarrow> r_overwritten s') \<and>
     (evolves (jobs (r_db s)) (jobs (r_db s')) \<or> late_write s s')"
proof -
  have wf: "wf_db (r_db s)" using conc_inv_base [OF assms(3)] by (simp add: base_inv_def)
  have mono: "r_overwritten s \<longrightarrow> r_overwritten s'" using assms(1) by (cases rule: row_step.cases) auto
  consider (conc) "conc_step key hmac us sg enq (r_conc s) (r_conc s')" | (same) "r_conc s' = r_conc s" | (late) "late_write s s'"
    using row_step_conc [OF assms(1,2) wf] by blast
  then show ?thesis
  proof cases
    case conc
    then show ?thesis
      using conc_inv_step [OF conc assms(3)] evolves_conc_step [OF conc assms(3)] evolves_over mono by blast
  next
    case same
    then show ?thesis using assms(3) mono by (simp add: evolves_refl rows_over_refl)
  next
    case late
    then show ?thesis using late_write_effect [OF assms(3) late] mono by blast
  qed
qed

lemma conc_inv_rows: "row_reachable key hmac us sg enq w0 s \<Longrightarrow> base_inv (w_db w0) \<Longrightarrow> conc_inv key (r_conc s)"
proof (induction rule: row_reachable.induct)
  case init
  then show ?case by (simp add: row_start_def conc_inv_def)
next
  case (step s s')
  then show ?case using row_step_effect [OF step(2) locks_ok_reachable [OF step(1)]] by blast
qed

lemma row_run_effect:
  assumes "rtranclp (row_step key hmac us sg enq) s s'" and "locks_ok s" and "conc_inv key (r_conc s)"
  shows "locks_ok s' \<and> conc_inv key (r_conc s') \<and> rows_over (r_db s) (r_db s') \<and>
     (\<not> r_overwritten s' \<longrightarrow> \<not> r_overwritten s \<and> evolves (jobs (r_db s)) (jobs (r_db s')))"
  using assms(1)
proof (induction rule: rtranclp_induct)
  case base
  then show ?case using assms(2,3) by (simp add: rows_over_refl evolves_refl)
next
  case (step t u)
  then have t: "locks_ok t" "conc_inv key (r_conc t)" by simp_all
  show ?case
    using step row_step_effect [OF step(2) t] locks_ok_step [OF step(2) t(1)]
    by (auto simp: late_write_def intro: rows_over_trans evolves_trans)
qed

subsection \<open>Times and statuses\<close>

definition times_match :: "job \<Rightarrow> bool" where
  "times_match j \<longleftrightarrow>
     (jstatus j = Queued \<longrightarrow> jstarted j = None \<and> jfinished j = None) \<and>
     (jstatus j = Running \<longrightarrow> jstarted j \<noteq> None \<and> jfinished j = None) \<and>
     (is_terminal (jstatus j) \<longrightarrow> jfinished j \<noteq> None)"

definition all_times :: "db \<Rightarrow> bool" where
  "all_times d \<longleftrightarrow> (\<forall>j \<in> set (jobs d). times_match j)"

lemma all_times_map:
  "all_times d \<Longrightarrow> jobs d' = map f (jobs d) \<Longrightarrow>
     (\<And>j. j \<in> set (jobs d) \<Longrightarrow> times_match j \<Longrightarrow> times_match (f j)) \<Longrightarrow> all_times d'"
  by (auto simp: all_times_def)

lemma all_times_status:
  assumes "all_times d" and "is_terminal st"
  shows "all_times (update_job_status now i st msg d)"
proof (rule all_times_map [OF assms(1)])
  show "jobs (update_job_status now i st msg d) = map (\<lambda>x. if jid x = i then touch now (x\<lparr>jstatus := st, jerror := msg,
      jstarted := if st = Running then Some now else jstarted x,
      jfinished := if st = Succeeded \<or> st = Failed \<or> st = Cancelled \<or> st = Superseded then Some now else jfinished x\<rparr>)
      else x) (jobs d)"
    by (simp add: update_job_status_def update_jobs_def update_where_def)
qed (use assms(2) in \<open>cases st; auto simp: times_match_def touch_def\<close>)

lemma all_times_claim:
  assumes "claim_job now locked d = Inr (j, d')" and "wf_db d" and "all_times d"
  shows "all_times d'"
  using assms(1)
proof (cases rule: claim_job_InrE)
  case (1 j0)
  show ?thesis
  proof (rule all_times_map [OF assms(3), where f = "\<lambda>x. if jid x = jid j0 then claimed now x else x"])
    show "jobs d' = map (\<lambda>x. if jid x = jid j0 then claimed now x else x) (jobs d)" by (simp add: 1(6) update_where_def)
    fix x assume x: "x \<in> set (jobs d)" "times_match x"
    then have "x = j0" if "jid x = jid j0" using wf_job_unique [OF assms(2) _ 1(1) that] by simp
    then show "times_match (if jid x = jid j0 then claimed now x else x)"
      using x(2) 1(2) by (auto simp: times_match_def claimed_def touch_def)
  qed
qed

lemma all_times_replace:
  \<comment> \<open>one row is replaced\<close>
  assumes "all_times d" and "jobs d' = map (\<lambda>x. if jid x = i then j' else x) (jobs d)" and "times_match j'"
  shows "all_times d'"
  using assms by (auto simp: all_times_def)

lemma all_times_db_step:
  assumes "db_step d d'" and "wf_db d" and "all_times d"
  shows "all_times d'"
  using assms(1)
proof (cases rule: db_step.cases)
  case (start vs scan gen sio r reply)
  show ?thesis
  proof (cases "d' = d")
    case False
    obtain job where job: "job \<in> set (jobs d)" "jstatus job = Queued"
      and d': "d' = d\<lparr>jobs := map (\<lambda>x. if jid x = jid job then started_job sio job else x) (jobs d)\<rparr>"
      by (rule start_effect [OF start assms(2) False])
    have "times_match (started_job sio job)"
      using job assms(3) by (auto simp: all_times_def times_match_def started_job_def touch_def)
    then show ?thesis using all_times_replace [OF assms(3), of d' "jid job" "started_job sio job"] d' by simp
  qed (use assms(3) in simp)
next
  case (complete vstruct scan cio r reply)
  have done_times: "times_match (completed_job cio req st job)" if "st = Succeeded \<or> st = Failed" for req st job
    using that by (auto simp: times_match_def completed_job_def touch_def)
  show ?thesis
  proof (cases "d' = d")
    case False
    show ?thesis
      by (rule complete_effect [OF complete(2) assms(2) complete(1) False])
         (rule all_times_replace [OF assms(3)], assumption, simp add: done_times)+
  qed (use assms(3) in simp)
next
  case (sweep fault now r reply)
  show ?thesis
  proof (cases fault)
    case None
    show ?thesis
      by (rule all_times_map [OF assms(3), where f = "\<lambda>j. if overdue now default_timeout_minutes j then timed_out now j else j"])
         (use sweep None in \<open>auto simp: timeout_handler_eq times_match_def timed_out_def touch_def\<close>)
  qed (use sweep assms(3) in \<open>simp add: timeout_handler_eq\<close>)
next
  case (poll us io s err s')
  have wf: "wf_db (pl_db s)" using poll assms(2) by simp
  from wf show ?thesis
  proof (cases rule: claim_one_cases [where us = us and io = io])
    case none
    then show ?thesis using poll assms(3) by simp
  next
    case (lost err' j d1 d2)
    have "all_times d1" using all_times_claim [OF lost(2)] poll assms(2,3) by simp
    then show ?thesis using lost(1,4) poll all_times_status by auto
  next
    case (dispatched j d1 repo)
    then show ?thesis using all_times_claim [OF dispatched(2)] poll assms(2,3) by simp
  qed
qed

lemma all_times_push:
  assumes "handle_push hmac us sg enq io ev dl w = (res, w')" and "all_times (w_db w)"
  shows "all_times (w_db w')"
proof -
  have sha: "all_times (update_job_commit_sha now i c d)" if "all_times d" for now i c d
    by (rule all_times_map [OF that, where f = "\<lambda>x. if jid x = i \<and> jstatus x = Queued then touch now (x\<lparr>jcommit := c\<rparr>) else x"])
       (auto simp: update_job_commit_sha_def update_jobs_def update_where_def times_match_def touch_def)
  have new: "all_times d'" if "create_job now i r b c dl d = Inr (j, d')" "all_times d" for now i r b c dl d j d'
    using that by (auto simp: create_job_Inr all_times_def times_match_def)
  show ?thesis
    using assms(1)
  proof (cases rule: handle_push_outcomes)
    case unchanged
    then show ?thesis using assms(2) by simp
  next
    case updated
    then show ?thesis using sha [OF assms(2)] by simp
  next
    case created
    then show ?thesis using new assms(2) by simp
  next
    case created_lost
    then show ?thesis using new assms(2) by simp
  qed
qed

lemma all_times_conc_step:
  assumes "conc_step key hmac us sg enq c c'" and "conc_inv key c" and "all_times (w_db (c_world c))"
  shows "all_times (w_db (c_world c'))"
  using assms(1)
proof (cases rule: conc_step.cases)
  case (other d')
  then show ?thesis using all_times_db_step [OF other(2) _ assms(3)] conc_inv_base [OF assms(2)] by (simp add: base_inv_def)
next
  case pushing
  then show ?thesis
  proof (cases rule: push_step.cases)
    case (act i call repo found res w')
    obtain io ev dl where call: "call = (io, ev, dl)" by (cases call)
    note ok = conc_inv_push [OF assms(2) act(2), unfolded call]
    have wf: "wf_db (w_db (c_world c))" using conc_inv_base [OF assms(2)] by (simp add: base_inv_def)
    show ?thesis
    proof (cases "left_queue (w_db (c_world c)) found")
      case True
      then show ?thesis
        using push_write_late(1) [OF True, of hmac us sg enq io ev dl repo] act(1,4) call assms(3) by simp
    next
      case False
      show ?thesis
        using all_times_push [OF act(4) [unfolded call push_write_is_push [OF wf ok False]] assms(3)] by (simp add: act(1))
    qed
  qed (use assms(3) in simp_all)
qed

lemma all_times_rows:
  assumes "row_reachable key hmac us sg enq w0 s" and "base_inv (w_db w0)" and "all_times (w_db w0)"
  shows "all_times (r_db s)"
  using assms(1)
proof (induction rule: row_reachable.induct)
  case init
  then show ?case using assms(3) by (simp add: row_start_def)
next
  case (step s s')
  note inv = conc_inv_rows [OF step(1) assms(2)]
  have "wf_db (r_db s)" using conc_inv_base [OF inv] by (simp add: base_inv_def)
  then consider "conc_step key hmac us sg enq (r_conc s) (r_conc s')" | "r_conc s' = r_conc s" | "late_write s s'"
    using row_step_conc [OF step(2) locks_ok_reachable [OF step(1)]] by blast
  then show ?case
  proof cases
    case 1
    then show ?thesis using all_times_conc_step [OF _ inv step(3)] by blast
  next
    case 2
    then show ?thesis using step(3) by simp
  next
    case 3
    then show ?thesis using all_times_status [OF step(3)] by (auto simp: late_write_def)
  qed
qed

subsection \<open>Properties\<close>

text \<open>
  C17: However the statements of pushes, callbacks, claims and sweeps interleave, a job only moves forward: from
  queued to running to a final status, or from queued straight to a final one.  Its repository, branch and delivery id never
  change, it never returns to the queue, and its commit is fixed once it has left the queue.  The row of a finished
  job is never touched again, with one exception: \<open>claimOne\<close>, failing late, may mark a finished job as failed.
\<close>

theorem job_progress:
  assumes "row_reachable key hmac us sg enq w0 s" and "base_inv (w_db w0)"
    and "rtranclp (row_step key hmac us sg enq) s s'" and "j \<in> set (jobs (r_db s))"
  shows "\<exists>j' \<in> set (jobs (r_db s')).
     jid j' = jid j \<and> jrepo j' = jrepo j \<and> jbranch j' = jbranch j \<and> jdelivery j' = jdelivery j \<and>
     (jstatus j \<le> jstatus j' \<or> late_failed j j') \<and>
     (jstatus j \<noteq> Queued \<longrightarrow> jstatus j' \<noteq> Queued \<and> jcommit j' = jcommit j) \<and>
     (is_terminal (jstatus j) \<longrightarrow> j' = j \<or> late_failed j j' \<and> r_overwritten s')"
proof -
  note run = row_run_effect [OF assms(3) locks_ok_reachable [OF assms(1)] conc_inv_rows [OF assms(1,2)]]
  show ?thesis
  proof (cases "r_overwritten s'")
    case True
    obtain j' where "j' \<in> set (jobs (r_db s'))" "job_over j j'"
      using run assms(4) by (auto simp: rows_over_def)
    moreover from this have "jstatus j \<le> jstatus j' \<or> late_failed j j'"
      using terminal_cases [of "jstatus j"] terminal_cases [of "jstatus j'"] by (auto simp: job_over_def)
    ultimately show ?thesis using True by (intro bexI [of _ j']) (simp_all add: job_over_def)
  next
    case False
    then obtain j' where j': "j' \<in> set (jobs (r_db s'))" "job_le j j'"
      using run evolves_mem assms(4) by blast
    then show ?thesis
      using job_le_over [OF j'(2)] by (intro bexI [OF _ j'(1)]) (auto simp: job_le_def job_over_def)
  qed
qed

theorem job_progress_witness:
  "\<exists>s j. rtranclp ex_row_step (ex_rows (ex_db [ex_claimed]) None) s \<and> jobs (r_db s) = [j] \<and>
     jstatus j = Succeeded \<and> jcommit j = jcommit ex_claimed \<and> jrepo j = jrepo ex_claimed"
proof (rule ex_rows_completed)
  fix d :: db and x :: job and t :: snapshot
  assume d: "rtranclp ex_row_step (ex_rows (ex_db [ex_claimed]) None) (ex_rows d None)" "jobs d = [x]" "jstatus x = Succeeded"
  have "\<exists>j' \<in> set (jobs (r_db (ex_rows d None))). jrepo j' = jrepo ex_claimed \<and> jcommit j' = jcommit ex_claimed"
    using job_progress [OF ex_rows_claimed _ d(1), of ex_claimed] by (auto simp: base_inv_def)
  then show ?thesis using d by (intro exI [of _ "ex_rows d None"] exI [of _ x]) auto
qed

text \<open>
  C27: In every state the interleaved statements reach, late failures of claims included: at most one job per
  repository and branch is queued, which no index of the schema enforces; a queued job has neither a start nor a finish time, a running
  job has a start and no finish time, and a finished job has a finish time.
\<close>

theorem rows_invariant:
  assumes "row_reachable key hmac us sg enq w0 s" and "base_inv (w_db w0)" and "all_times (w_db w0)"
  shows "one_queued (r_db s) \<and> all_times (r_db s)"
  using conc_inv_base [OF conc_inv_rows [OF assms(1,2)]] all_times_rows [OF assms] by (simp add: base_inv_def)

theorem rows_invariant_witness:
  "one_queued (ex_db [ex_claimed]) \<and> all_times (ex_db [ex_claimed])"
proof -
  have "all_times (ex_db [ex_job 3 Queued ''a'' 20])" by (simp add: all_times_def times_match_def ex_job_def)
  then show ?thesis using rows_invariant [OF ex_rows_claimed] by (simp add: base_inv_def)
qed

end
