(* ===== verification/RateWindow.thy ===== *)
theory RateWindow
  imports RateLimit
begin















subsection \<open>The requests let through\<close>






lemma rl_commands_simps [simp]:
  "pp_start (rl_commands cfg key t) = unix_micro (t - rl_window cfg)" "pp_score (rl_commands cfg key t) = unix_micro t"
  "pp_member (rl_commands cfg key t) = rl_member (unix_micro t)"
  "pp_lifetime (rl_commands cfg key t) = rl_window cfg + 1000000000"
  by (simp_all add: rl_commands_def Let_def)


subsection \<open>The documented server\<close>








subsection \<open>What the sorted set keeps\<close>










subsection \<open>The invariant\<close>











subsection \<open>Counting\<close>












subsection \<open>The bound\<close>







end
