(* ===== verification/Spec2Isabelle.thy ===== *)
theory Spec2Isabelle
  imports PushProps Dispatch Pipeline ApiTypes Environment RowProgress RateWindow
begin

text \<open>
  Verification library for zagforge-cloud, a service that builds a snapshot of a GitHub repository
  for every push.

  \<^bold>\<open>The program.\<close>  Two Go programs share a PostgreSQL database.  The API (\<^verbatim>\<open>api/\<close>) receives GitHub's
  push webhooks, turns each into a queued job (or moves the job that still waits on the branch to
  the new commit), creates a task for it, answers the worker's \<^verbatim>\<open>start\<close> and \<^verbatim>\<open>complete\<close> callbacks,
  fails jobs that run too long, and serves jobs and snapshots to users.  The worker (\<^verbatim>\<open>worker/\<close>) gets a
  job from a task or by polling the table, asks the API to start it, clones the branch, runs the
  \<^verbatim>\<open>zigzag\<close> tool, uploads its report and reports the outcome.  Callbacks are authorised by a token
  that is an HMAC of the job id and an expiry.

  \<^bold>\<open>Theories, from the bottom up.\<close>
  \<^item> \<open>Prelude\<close>: scalar types and lemmas on tables as lists.  The standard library, as far as the program
    uses it: \<open>GoStrings\<close> (\<open>strings\<close>, \<open>strconv\<close>, \<open>encoding/hex\<close>, with \<open>int64\<close> as a 64-bit word), \<open>GoNet\<close> (media
    types, \<open>SplitHostPort\<close>, white space), \<open>GoTime\<close> (the calendar, RFC 3339 written and read), \<open>JsonText\<close> and
    \<open>Json\<close> (\<open>encoding/json\<close>: the texts, the values, and how they are stored into structs by their tags).
  \<^item> \<open>JobToken\<close>: \<^verbatim>\<open>shared/go/jobtoken\<close>.  \<open>JobStatus\<close>, \<open>Store\<close>, \<open>StoreInv\<close>: \<^verbatim>\<open>shared/go/store\<close> and the
    migration; what the schema promises and that every statement keeps it.  \<open>Tx\<close>: transactions,
    failing calls and lost commits.
  \<^item> \<open>Provider\<close>, \<open>Engine\<close>, \<open>JobService\<close>, \<open>PushProps\<close>: webhook validation, task dispatch and
    \<open>HandlePush\<close>.  \<open>Samples\<close>: a small concrete world for the instances.
  \<^item> \<open>Http\<close>, \<open>Validate\<close>, \<open>Middleware\<close>, \<open>RateLimit\<close>: \<^verbatim>\<open>shared/go/httputil\<close>, \<^verbatim>\<open>api/internal/validate\<close> and
    \<^verbatim>\<open>api/internal/middleware\<close>.  \<open>RateWindow\<close>: the limiter's Redis commands interleaved, and how many requests pass.  \<open>Guard\<close>: the contract every middleware keeps, as a locale, and that
    a stack of guards is a guard.  \<open>Router\<close>: \<^verbatim>\<open>shared/go/router\<close> over chi.
  \<^item> \<open>Callback\<close>, \<open>CallbackProps\<close>, \<open>Watchdog\<close>, \<open>Webhook\<close>, \<open>ReadApi\<close>: the handlers.  \<open>Routes\<close>: the middleware
    stacks of \<^verbatim>\<open>api/cmd/main.go\<close> in front of them.
  \<^item> \<open>ApiClient\<close>, \<open>Runner\<close>, \<open>Storage\<close>, \<open>Executor\<close>, \<open>Poller\<close>: the worker.  \<open>Codec\<close>: the messages between the two
    programs, which the one writes and the other reads.  \<open>GithubClient\<close>: the GitHub API.
  \<^item> \<open>Config\<close>: \<^verbatim>\<open>api/internal/config\<close> and \<^verbatim>\<open>worker/internal/worker/config\<close>.  \<open>Server\<close>: how the two
    \<open>run\<close> functions build their parts from the configuration.  \<open>Environment\<close>: the struct tags, and which
    environments the programs accept.
  \<^item> \<open>Lifecycle\<close>: all operations on the database as steps of one relation, each taken as a whole.
    \<open>Interleave\<close>: the same with the statements of \<open>HandlePush\<close> interleaved.  \<open>RowLocks\<close>: the statements of
    the callbacks and of the poller's claim interleaved as well, under row locks; it refines the
    systems above, but for the failure path of a claim.  \<open>RowProgress\<close>: what holds of the jobs in all its runs, that path included.  \<open>Dispatch\<close>: what is in the task queue meanwhile.  \<open>PollerRun\<close>: a polling worker
    from its start to its shutdown.
  \<^item> \<open>EndToEnd\<close>: a worker whose client calls the callback handlers.  \<open>ApiServer\<close>: the routes and groups of
    \<^verbatim>\<open>api/cmd/main.go\<close> registered on the router, and which requests change the state.  \<open>ApiTypes\<close>: which statuses
    and bodies each route answers with.  \<open>FullSystem\<close>: the worker talks to that server over the network.  \<open>Programs\<close>: the two \<open>main\<close> functions from the
    configuration to the exit code, and a task on its way from the one program to the other.  \<open>Pipeline\<close>: a
    push on its way to a snapshot, through both programs.

  \<^bold>\<open>What is outside.\<close>  Code that is not in the repository is an argument of the definitions that use
  it: the keyed hash, the validator, Clerk, Redis, Cloud Tasks, the object store, \<open>git\<close> and \<open>zigzag\<close>,
  pgx's reading and writing of UUIDs and times, URLs, the clock and the time zone.  What a property needs
  of it is a hypothesis with a name (\<open>redis_documented\<close>, \<open>complete_validator\<close>, \<open>readable_times\<close>, \<open>serves\<close>,
  \<open>chi_serves\<close>, \<open>wire_ok\<close>, \<open>env_contract\<close>) and has a concrete instance; \<open>wire_ok\<close> asks that the strings of a
  callback are UTF-8 and of less than 170 kB, so that the middleware does not cut the body.  A call that can
  fail has its failure as an argument; a call that fails is taken to have had no effect, but for a lost
  commit (\<open>Tx\<close>).

  \<open>Lifecycle\<close> and \<open>PollerRun\<close> take the three statements of \<open>claimOne\<close> as one step, although no transaction spans
  them; \<open>RowLocks\<close> and \<open>RowProgress\<close> do not.  The rate limiter's bound takes the \<open>ZADD\<close> and the \<open>EXPIRE\<close> of one check as one
  step, one clock for all servers, and a Redis that does not lose data.

  \<^bold>\<open>Bounds and fuel.\<close>  Tokens live 30 minutes, callback bodies are cut at 1 MB, webhook bodies at 25 MB,
  the watchdog fails jobs after 20 minutes: all as in the code.  JSON is nested at most
  10000 deep, the limit of \<open>encoding/json\<close>.  \<open>list_pages\<close> (the loop of
  \<open>ListRepos\<close>) has fuel because it need not end: \<open>list_repos_complete\<close> gives the number of calls that
  is enough, \<open>list_repos_never_returns\<close> a service for which none is.

  \<^bold>\<open>Not modelled.\<close>  Sockets and signals (a failing connection or shutdown is an argument), logging,
  the parsing of the environment by the \<open>env\<close> package, generated query plumbing, and the infrastructure files.
\<close>

end
